theory Spec2Isabelle
  imports Main "HOL-Library.Char_ord" "HOL-Library.List_Lexorder"
begin

section \<open>Data model of prototype\_fetch\_exadata.py\<close>

text \<open>
  The script talks to two OCI SDK clients (\<open>identity_client\<close> and \<open>db_client\<close>) and
  assembles their answers into nested Python dictionaries.  The SDK objects are modelled as
  records holding the attributes the script reads; exceptions are values of type
  \<open>error\<close>; a call of the SDK either raises (\<open>Inl\<close>) or returns (\<open>Inr\<close>).
  The progress lines written with \<open>print\<close> are not part of the model, except for the two
  totals of the last line of \<open>fetch_all_data\<close>, which are kept next to the returned value.
\<close>

datatype error =
    ServiceError int string
  | RequestException string
  | OtherException string

text \<open>A page cursor: \<open>None\<close> on the first call, afterwards the \<open>next_page\<close> of the last response.\<close>

type_synonym page = "string option"

text \<open>What a listing call returns: \<open>response.data\<close> and \<open>response.next_page\<close>.\<close>

record 'a response =
  data :: "'a list"
  next_page :: page

text \<open>The result of \<open>get_tenancy(...).data\<close>.\<close>

record tenancy =
  t_id :: string
  t_name :: string

text \<open>An item of \<open>list_compartments(...).data\<close>.\<close>

record compartment =
  c_id :: string
  c_name :: string
  c_lifecycle_state :: string

text \<open>The dictionaries that \<open>list_all_compartments\<close> builds, with the keys
  \<open>id\<close>, \<open>name\<close>, \<open>lifecycle_state\<close> and \<open>is_root\<close>.\<close>

record compartment_dict =
  cd_id :: string
  cd_name :: string
  cd_lifecycle_state :: string
  cd_is_root :: bool

text \<open>An item of \<open>list_exadata_infrastructures(...).data\<close>.\<close>

record infra_summary =
  is_id :: string
  is_display_name :: string
  is_lifecycle_state :: string

text \<open>The result of \<open>get_exadata_infrastructure(...).data\<close>.\<close>

record infra =
  inf_id :: string
  inf_display_name :: string
  inf_lifecycle_state :: string
  inf_shape :: string
  inf_cpus_enabled :: int
  inf_max_cpu_count :: int

record ocpus =
  total_cpu_count :: int
  consumed_cpu_count :: int

record unallocated =
  available_cpus :: int

text \<open>An item of \<open>list_vm_clusters(...).data\<close>.\<close>

record vm_cluster_summary =
  vs_id :: string
  vs_display_name :: string
  vs_lifecycle_state :: string

text \<open>The result of \<open>get_vm_cluster(...).data\<close>.\<close>

record vm_cluster =
  vc_id :: string
  vc_display_name :: string
  vc_lifecycle_state :: string
  vc_gi_version :: string
  vc_cpus_enabled :: int

record iorm =
  iorm_lifecycle_state :: string
  iorm_objective :: string

record patch =
  patch_id :: string
  patch_version :: string

text \<open>
  The object \<open>self\<close>: the tenancy identifier read from the configuration and the operations
  of the two clients that the script calls.  Every operation is a function of the arguments
  the script passes; the keyword arguments appear in the order of the source.
\<close>

record fetcher =
  self_tenancy_id :: string
  identity_get_tenancy :: "string \<Rightarrow> error + tenancy"
  identity_list_compartments ::
    "string \<Rightarrow> bool \<Rightarrow> string \<Rightarrow> page \<Rightarrow> error + compartment response"
  db_list_exadata_infrastructures ::
    "string \<Rightarrow> string \<Rightarrow> string \<Rightarrow> page \<Rightarrow> error + infra_summary response"
  db_get_exadata_infrastructure :: "string \<Rightarrow> error + infra"
  db_get_exadata_infrastructure_ocpus :: "string \<Rightarrow> error + ocpus"
  db_get_exadata_infrastructure_un_allocated_resources :: "string \<Rightarrow> error + unallocated"
  db_list_vm_clusters ::
    "string \<Rightarrow> string option \<Rightarrow> string \<Rightarrow> string \<Rightarrow> page
       \<Rightarrow> error + vm_cluster_summary response"
  db_get_vm_cluster :: "string \<Rightarrow> error + vm_cluster"
  db_get_vm_cluster_iorm_config :: "string \<Rightarrow> error + iorm"
  db_list_vm_cluster_patches :: "string \<Rightarrow> error + patch list"

text \<open>The dictionaries returned by the two detail fetchers.\<close>

record infra_details =
  infrastructure :: infra
  ocpu_info :: "ocpus option"
  unallocated_resources :: "unallocated option"

record cluster_details =
  cluster :: vm_cluster
  iorm_config :: "iorm option"
  patches :: "patch list"

text \<open>The dictionaries of the report built by \<open>fetch_all_data\<close>.\<close>

record infra_entry =
  details :: infra_details
  vm_clusters :: "cluster_details list"

record compartment_data =
  compartment_id :: string
  compartment_name :: string
  infrastructures :: "infra_entry list"

record report =
  tenancy_id :: string
  compartments :: "compartment_data list"

section \<open>The paginated listings\<close>

text \<open>Python's \<open>not page\<close>: the cursor is \<open>None\<close> or the empty string.\<close>

definition not_page :: "page \<Rightarrow> bool" where
  "not_page pg \<longleftrightarrow> (case pg of None \<Rightarrow> True | Some s \<Rightarrow> s = [])"

text \<open>
  The \<open>while True\<close> loop of the inner function \<open>list_compartments_recursive\<close>.  It has no
  bound: a provider that keeps returning cursors keeps it running, which is the value
  \<open>None\<close>.  \<open>call\<close> is the client operation with every argument but \<open>page\<close> fixed.
\<close>

partial_function (option) list_compartments_recursive ::
  "(page \<Rightarrow> error + compartment response) \<Rightarrow> page \<Rightarrow> compartment_dict list
     \<Rightarrow> (error + compartment_dict list) option"
where
  "list_compartments_recursive call pg all_compartments =
     (case call pg of
        Inl e \<Rightarrow> Some (Inl e)
      | Inr response \<Rightarrow>
          (let all_compartments' = all_compartments @
                 map (\<lambda>c. \<lparr>cd_id = c_id c, cd_name = c_name c,
                            cd_lifecycle_state = c_lifecycle_state c, cd_is_root = False\<rparr>)
                   (filter (\<lambda>c. c_lifecycle_state c = ''ACTIVE'') (data response));
               pg' = next_page response
           in if not_page pg' then Some (Inr all_compartments')
              else list_compartments_recursive call pg' all_compartments'))"

definition list_all_compartments :: "fetcher \<Rightarrow> (error + compartment_dict list) option" where
  "list_all_compartments self =
     (case identity_get_tenancy self (self_tenancy_id self) of
        Inl e \<Rightarrow> Some (Inl e)
      | Inr tenancy \<Rightarrow>
          list_compartments_recursive
            (\<lambda>pg. identity_list_compartments self (self_tenancy_id self) True ''ACCESSIBLE'' pg)
            None
            [\<lparr>cd_id = t_id tenancy, cd_name = t_name tenancy,
              cd_lifecycle_state = ''ACTIVE'', cd_is_root = True\<rparr>])"

text \<open>The loop of \<open>list_exadata_infrastructures\<close>.\<close>

partial_function (option) list_exadata_infrastructures_loop ::
  "(page \<Rightarrow> error + infra_summary response) \<Rightarrow> page \<Rightarrow> infra_summary list
     \<Rightarrow> (error + infra_summary list) option"
where
  "list_exadata_infrastructures_loop call pg all_infrastructures =
     (case call pg of
        Inl e \<Rightarrow> Some (Inl e)
      | Inr response \<Rightarrow>
          (let all_infrastructures' = all_infrastructures @ data response;
               pg' = next_page response
           in if not_page pg' then Some (Inr all_infrastructures')
              else list_exadata_infrastructures_loop call pg' all_infrastructures'))"

definition list_exadata_infrastructures ::
  "fetcher \<Rightarrow> string \<Rightarrow> (error + infra_summary list) option" where
  "list_exadata_infrastructures self compartment_id' =
     list_exadata_infrastructures_loop
       (\<lambda>pg. db_list_exadata_infrastructures self compartment_id' ''DISPLAYNAME'' ''ASC'' pg)
       None []"

text \<open>The loop of \<open>list_vm_clusters\<close>.\<close>

partial_function (option) list_vm_clusters_loop ::
  "(page \<Rightarrow> error + vm_cluster_summary response) \<Rightarrow> page \<Rightarrow> vm_cluster_summary list
     \<Rightarrow> (error + vm_cluster_summary list) option"
where
  "list_vm_clusters_loop call pg all_clusters =
     (case call pg of
        Inl e \<Rightarrow> Some (Inl e)
      | Inr response \<Rightarrow>
          (let all_clusters' = all_clusters @ data response;
               pg' = next_page response
           in if not_page pg' then Some (Inr all_clusters')
              else list_vm_clusters_loop call pg' all_clusters'))"

definition list_vm_clusters ::
  "fetcher \<Rightarrow> string \<Rightarrow> string option \<Rightarrow> (error + vm_cluster_summary list) option" where
  "list_vm_clusters self compartment_id' exadata_infrastructure_id =
     list_vm_clusters_loop
       (\<lambda>pg. db_list_vm_clusters self compartment_id' exadata_infrastructure_id
                ''DISPLAYNAME'' ''ASC'' pg)
       None []"

section \<open>The detail fetchers\<close>

text \<open>
  \<open>get_exadata_infrastructure_details\<close>: the basic record is fetched first and its failure
  leaves the function; each of the two optional records is fetched inside its own
  \<open>try\<close> with a bare \<open>except\<close>, which turns every failure into \<open>None\<close>.
\<close>

definition get_exadata_infrastructure_details :: "fetcher \<Rightarrow> string \<Rightarrow> error + infra_details" where
  "get_exadata_infrastructure_details self exadata_infrastructure_id =
     (case db_get_exadata_infrastructure self exadata_infrastructure_id of
        Inl e \<Rightarrow> Inl e
      | Inr infra \<Rightarrow>
          (let ocpu_info' =
                 (case db_get_exadata_infrastructure_ocpus self exadata_infrastructure_id of
                    Inl _ \<Rightarrow> None | Inr d \<Rightarrow> Some d);
               unallocated' =
                 (case db_get_exadata_infrastructure_un_allocated_resources self
                         exadata_infrastructure_id of
                    Inl _ \<Rightarrow> None | Inr d \<Rightarrow> Some d)
           in Inr \<lparr>infrastructure = infra, ocpu_info = ocpu_info',
                   unallocated_resources = unallocated'\<rparr>))"

text \<open>
  \<open>get_vm_cluster_details\<close>: as above, with the IORM configuration as the optional record
  and the slice \<open>[:5]\<close> of the patch list, which is \<open>[]\<close> when the listing fails.
\<close>

definition get_vm_cluster_details :: "fetcher \<Rightarrow> string \<Rightarrow> error + cluster_details" where
  "get_vm_cluster_details self vm_cluster_id =
     (case db_get_vm_cluster self vm_cluster_id of
        Inl e \<Rightarrow> Inl e
      | Inr cluster' \<Rightarrow>
          (let iorm_config' =
                 (case db_get_vm_cluster_iorm_config self vm_cluster_id of
                    Inl _ \<Rightarrow> None | Inr d \<Rightarrow> Some d);
               patches' =
                 (case db_list_vm_cluster_patches self vm_cluster_id of
                    Inl _ \<Rightarrow> [] | Inr d \<Rightarrow> take 5 d)
           in Inr \<lparr>cluster = cluster', iorm_config = iorm_config', patches = patches'\<rparr>))"

section \<open>The traversal\<close>

text \<open>
  The innermost loop of \<open>fetch_all_data\<close>, over the VM clusters of one infrastructure.
  Its state is the list \<open>vm_clusters_details\<close> and the counter \<open>total_vm_clusters\<close>.
\<close>

fun vm_clusters_loop ::
  "fetcher \<Rightarrow> vm_cluster_summary list \<Rightarrow> cluster_details list \<Rightarrow> nat
     \<Rightarrow> error + (cluster_details list \<times> nat)"
where
  "vm_clusters_loop self [] vm_clusters_details total_vm_clusters =
     Inr (vm_clusters_details, total_vm_clusters)"
| "vm_clusters_loop self (cl # rest) vm_clusters_details total_vm_clusters =
     (case get_vm_cluster_details self (vs_id cl) of
        Inl e \<Rightarrow> Inl e
      | Inr cluster_details \<Rightarrow>
          vm_clusters_loop self rest (vm_clusters_details @ [cluster_details])
            (total_vm_clusters + 1))"

text \<open>
  The loop over the infrastructures of one compartment.  Its state is the list
  \<open>compartment_data["infrastructures"]\<close> and the counter \<open>total_vm_clusters\<close>.
\<close>

fun infrastructures_loop ::
  "fetcher \<Rightarrow> string \<Rightarrow> infra_summary list \<Rightarrow> infra_entry list \<Rightarrow> nat
     \<Rightarrow> (error + (infra_entry list \<times> nat)) option"
where
  "infrastructures_loop self comp_id [] entries total_vm_clusters =
     Some (Inr (entries, total_vm_clusters))"
| "infrastructures_loop self comp_id (infra # rest) entries total_vm_clusters =
     (case get_exadata_infrastructure_details self (is_id infra) of
        Inl e \<Rightarrow> Some (Inl e)
      | Inr infra_details \<Rightarrow>
          (case list_vm_clusters self comp_id (Some (is_id infra)) of
             None \<Rightarrow> None
           | Some (Inl e) \<Rightarrow> Some (Inl e)
           | Some (Inr vm_clusters') \<Rightarrow>
               (case vm_clusters_loop self vm_clusters' [] total_vm_clusters of
                  Inl e \<Rightarrow> Some (Inl e)
                | Inr (vm_clusters_details, total_vm_clusters') \<Rightarrow>
                    infrastructures_loop self comp_id rest
                      (entries @ [\<lparr>details = infra_details,
                                    vm_clusters = vm_clusters_details\<rparr>])
                      total_vm_clusters')))"

text \<open>
  The outer loop, over \<open>compartments_to_scan\<close>.  Its state is the list
  \<open>result["compartments"]\<close> and the two counters.  A compartment with no infrastructure
  takes the \<open>continue\<close>.
\<close>

fun compartments_loop ::
  "fetcher \<Rightarrow> compartment_dict list \<Rightarrow> compartment_data list \<Rightarrow> nat \<Rightarrow> nat
     \<Rightarrow> (error + (compartment_data list \<times> nat \<times> nat)) option"
where
  "compartments_loop self [] result_compartments total_infrastructures total_vm_clusters =
     Some (Inr (result_compartments, total_infrastructures, total_vm_clusters))"
| "compartments_loop self (compartment # rest) result_compartments total_infrastructures
       total_vm_clusters =
     (let comp_id = cd_id compartment; comp_name = cd_name compartment
      in case list_exadata_infrastructures self comp_id of
           None \<Rightarrow> None
         | Some (Inl e) \<Rightarrow> Some (Inl e)
         | Some (Inr infrastructures') \<Rightarrow>
             if infrastructures' = [] then
               compartments_loop self rest result_compartments total_infrastructures
                 total_vm_clusters
             else
               (let total_infrastructures' = total_infrastructures + length infrastructures'
                in case infrastructures_loop self comp_id infrastructures' []
                          total_vm_clusters of
                     None \<Rightarrow> None
                   | Some (Inl e) \<Rightarrow> Some (Inl e)
                   | Some (Inr (entries, total_vm_clusters')) \<Rightarrow>
                       compartments_loop self rest
                         (result_compartments @
                            [\<lparr>compartment_id = comp_id, compartment_name = comp_name,
                              infrastructures = entries\<rparr>])
                         total_infrastructures' total_vm_clusters'))"

text \<open>
  The state of \<open>fetch_all_data\<close> when it reaches its last two statements: the dictionary
  \<open>result\<close> and the local variables \<open>total_infrastructures\<close> and \<open>total_vm_clusters\<close>.
\<close>

definition fetch_all_data_locals :: "fetcher \<Rightarrow> (error + (report \<times> nat \<times> nat)) option" where
  "fetch_all_data_locals self =
     (case list_all_compartments self of
        None \<Rightarrow> None
      | Some (Inl e) \<Rightarrow> Some (Inl e)
      | Some (Inr compartments_to_scan) \<Rightarrow>
          (case compartments_loop self compartments_to_scan [] 0 0 of
             None \<Rightarrow> None
           | Some (Inl e) \<Rightarrow> Some (Inl e)
           | Some (Inr (result_compartments, total_infrastructures, total_vm_clusters)) \<Rightarrow>
               Some (Inr (\<lparr>tenancy_id = self_tenancy_id self,
                            compartments = result_compartments\<rparr>,
                          total_infrastructures, total_vm_clusters))))"

text \<open>The two numbers of the line \<open>Total: ... infrastructure(s), ... VM cluster(s)\<close> that
  \<open>fetch_all_data\<close> prints before it returns.\<close>

definition fetch_all_data_printed_totals :: "fetcher \<Rightarrow> (error + (nat \<times> nat)) option" where
  "fetch_all_data_printed_totals self = map_option (map_sum id snd) (fetch_all_data_locals self)"

text \<open>The value of \<open>fetch_all_data\<close>: \<open>return result\<close>.\<close>

definition fetch_all_data :: "fetcher \<Rightarrow> (error + report) option" where
  "fetch_all_data self = map_option (map_sum id fst) (fetch_all_data_locals self)"

section \<open>Vocabulary of the properties\<close>

text \<open>
  \<open>cursor_chain call pg ds\<close>: starting with the cursor \<open>pg\<close>, every call returns, each
  cursor returned is passed to the next call, and the last response carries no cursor;
  \<open>ds\<close> are the \<open>data\<close> of the responses, in the order of the calls.
\<close>

inductive cursor_chain :: "(page \<Rightarrow> error + 'a response) \<Rightarrow> page \<Rightarrow> 'a list list \<Rightarrow> bool"
  for call :: "page \<Rightarrow> error + 'a response"
where
  last_page: "call pg = Inr r \<Longrightarrow> not_page (next_page r) \<Longrightarrow> cursor_chain call pg [data r]"
| more_pages: "call pg = Inr r \<Longrightarrow> \<not> not_page (next_page r) \<Longrightarrow> cursor_chain call (next_page r) ds
     \<Longrightarrow> cursor_chain call pg (data r # ds)"

text \<open>The dictionary appended for a listed compartment.\<close>

definition compartment_to_dict :: "compartment \<Rightarrow> compartment_dict" where
  "compartment_to_dict c =
     \<lparr>cd_id = c_id c, cd_name = c_name c, cd_lifecycle_state = c_lifecycle_state c,
      cd_is_root = False\<rparr>"


text \<open>
  The relations between what a listing returned and the entries of the report: a cluster
  entry is the detail record of the listed cluster, an infrastructure entry pairs the detail
  record of the listed infrastructure with the entries of its listed clusters, and a
  compartment entry holds the entries of the compartment's listed infrastructures.
\<close>

definition cluster_fetched :: "fetcher \<Rightarrow> vm_cluster_summary \<Rightarrow> cluster_details \<Rightarrow> bool" where
  "cluster_fetched self cl d \<longleftrightarrow> get_vm_cluster_details self (vs_id cl) = Inr d"

definition infra_fetched :: "fetcher \<Rightarrow> string \<Rightarrow> infra_summary \<Rightarrow> infra_entry \<Rightarrow> bool" where
  "infra_fetched self comp_id i e \<longleftrightarrow>
     get_exadata_infrastructure_details self (is_id i) = Inr (details e) \<and>
     (\<exists>cls. list_vm_clusters self comp_id (Some (is_id i)) = Some (Inr cls) \<and>
            list_all2 (cluster_fetched self) cls (vm_clusters e))"

definition compartment_scanned :: "fetcher \<Rightarrow> compartment_dict \<Rightarrow> compartment_data \<Rightarrow> bool" where
  "compartment_scanned self c ce \<longleftrightarrow>
     compartment_id ce = cd_id c \<and> compartment_name ce = cd_name c \<and>
     (\<exists>infras. list_exadata_infrastructures self (cd_id c) = Some (Inr infras) \<and>
            infras \<noteq> [] \<and> list_all2 (infra_fetched self (cd_id c)) infras (infrastructures ce))"

text \<open>The listing of the compartment's infrastructures returned at least one item.\<close>

definition has_infrastructures :: "fetcher \<Rightarrow> compartment_dict \<Rightarrow> bool" where
  "has_infrastructures self c \<longleftrightarrow>
     (case list_exadata_infrastructures self (cd_id c) of
        Some (Inr infras) \<Rightarrow> infras \<noteq> [] | _ \<Rightarrow> False)"

text \<open>The numbers of infrastructure entries and of cluster entries in a report.\<close>

definition count_infrastructures :: "compartment_data list \<Rightarrow> nat" where
  "count_infrastructures ces = sum_list (map (\<lambda>ce. length (infrastructures ce)) ces)"

definition count_vm_clusters_in :: "infra_entry list \<Rightarrow> nat" where
  "count_vm_clusters_in es = sum_list (map (\<lambda>e. length (vm_clusters e)) es)"

definition count_vm_clusters :: "compartment_data list \<Rightarrow> nat" where
  "count_vm_clusters ces = sum_list (map (\<lambda>ce. count_vm_clusters_in (infrastructures ce)) ces)"

section \<open>An example tenancy and the vocabulary of the claims\<close>

text \<open>
  A tenancy \<open>t\<close> named \<open>root\<close> with the active compartments \<open>alpha\<close> and \<open>beta\<close> and a
  deleted one.  \<open>alpha\<close> holds two infrastructures, listed on three pages of which the second
  is empty and the last ends with an empty cursor; the first infrastructure has two VM
  clusters and the second has none.  Some optional records are refused, and the first
  cluster has seven patches.
\<close>

definition not_found :: error where
  "not_found = ServiceError 404 ''NotAuthorizedOrNotFound''"

definition demo_infra :: "string \<Rightarrow> string \<Rightarrow> infra" where
  "demo_infra i n =
     \<lparr>inf_id = i, inf_display_name = n, inf_lifecycle_state = ''ACTIVE'',
      inf_shape = ''ExadataCC.X9M'', inf_cpus_enabled = 8, inf_max_cpu_count = 16\<rparr>"

definition demo_cluster :: "string \<Rightarrow> string \<Rightarrow> vm_cluster" where
  "demo_cluster i n =
     \<lparr>vc_id = i, vc_display_name = n, vc_lifecycle_state = ''AVAILABLE'',
      vc_gi_version = ''19.0.0.0'', vc_cpus_enabled = 4\<rparr>"

definition demo_patches :: "patch list" where
  "demo_patches =
     map (\<lambda>v. \<lparr>patch_id = v, patch_version = v\<rparr>)
       [''p1'', ''p2'', ''p3'', ''p4'', ''p5'', ''p6'', ''p7'']"

definition demo_fetcher :: fetcher where
  "demo_fetcher =
     \<lparr>self_tenancy_id = ''t'',
      identity_get_tenancy =
        (\<lambda>tid. if tid = ''t'' then Inr \<lparr>t_id = ''t'', t_name = ''root''\<rparr> else Inl not_found),
      identity_list_compartments =
        (\<lambda>cid subtree access pg.
           if pg = None then
             Inr \<lparr>data = [\<lparr>c_id = ''a'', c_name = ''alpha'', c_lifecycle_state = ''ACTIVE''\<rparr>],
                  next_page = Some ''2''\<rparr>
           else if pg = Some ''2'' then
             Inr \<lparr>data = [\<lparr>c_id = ''d'', c_name = ''delta'', c_lifecycle_state = ''DELETED''\<rparr>,
                          \<lparr>c_id = ''b'', c_name = ''beta'', c_lifecycle_state = ''ACTIVE''\<rparr>],
                  next_page = None\<rparr>
           else Inl not_found),
      db_list_exadata_infrastructures =
        (\<lambda>cid sort_by sort_order pg.
           if cid = ''a'' then
             (if pg = None then
                Inr \<lparr>data = [\<lparr>is_id = ''i1'', is_display_name = ''exa1'',
                               is_lifecycle_state = ''ACTIVE''\<rparr>],
                     next_page = Some ''2''\<rparr>
              else if pg = Some ''2'' then Inr \<lparr>data = [], next_page = Some ''3''\<rparr>
              else if pg = Some ''3'' then
                Inr \<lparr>data = [\<lparr>is_id = ''i2'', is_display_name = ''exa2'',
                               is_lifecycle_state = ''ACTIVE''\<rparr>],
                     next_page = Some []\<rparr>
              else Inl not_found)
           else Inr \<lparr>data = [], next_page = None\<rparr>),
      db_get_exadata_infrastructure =
        (\<lambda>i. if i = ''i1'' then Inr (demo_infra ''i1'' ''exa1'')
              else if i = ''i2'' then Inr (demo_infra ''i2'' ''exa2'')
              else Inl not_found),
      db_get_exadata_infrastructure_ocpus =
        (\<lambda>i. if i = ''i1'' then Inr \<lparr>total_cpu_count = 16, consumed_cpu_count = 8\<rparr>
              else Inl not_found),
      db_get_exadata_infrastructure_un_allocated_resources =
        (\<lambda>i. if i = ''i2'' then Inr \<lparr>available_cpus = 8\<rparr> else Inl (OtherException ''timeout'')),
      db_list_vm_clusters =
        (\<lambda>cid iid sort_by sort_order pg.
           if cid = ''a'' \<and> iid = Some ''i1'' then
             (if pg = None then
                Inr \<lparr>data = [\<lparr>vs_id = ''k1'', vs_display_name = ''vm1'',
                               vs_lifecycle_state = ''AVAILABLE''\<rparr>],
                     next_page = Some ''2''\<rparr>
              else if pg = Some ''2'' then
                Inr \<lparr>data = [\<lparr>vs_id = ''k2'', vs_display_name = ''vm2'',
                               vs_lifecycle_state = ''AVAILABLE''\<rparr>],
                     next_page = None\<rparr>
              else Inl not_found)
           else Inr \<lparr>data = [], next_page = None\<rparr>),
      db_get_vm_cluster =
        (\<lambda>k. if k = ''k1'' then Inr (demo_cluster ''k1'' ''vm1'')
              else if k = ''k2'' then Inr (demo_cluster ''k2'' ''vm2'')
              else Inl not_found),
      db_get_vm_cluster_iorm_config =
        (\<lambda>k. if k = ''k1'' then
                Inr \<lparr>iorm_lifecycle_state = ''ACTIVE'', iorm_objective = ''AUTO''\<rparr>
              else Inl not_found),
      db_list_vm_cluster_patches =
        (\<lambda>k. if k = ''k1'' then Inr demo_patches else Inl not_found)\<rparr>"

text \<open>The report of that tenancy.\<close>

definition demo_report :: report where
  "demo_report =
     \<lparr>tenancy_id = ''t'',
      compartments =
        [\<lparr>compartment_id = ''a'', compartment_name = ''alpha'',
          infrastructures =
            [\<lparr>details =
                \<lparr>infrastructure = demo_infra ''i1'' ''exa1'',
                 ocpu_info = Some \<lparr>total_cpu_count = 16, consumed_cpu_count = 8\<rparr>,
                 unallocated_resources = None\<rparr>,
              vm_clusters =
                [\<lparr>cluster = demo_cluster ''k1'' ''vm1'',
                  iorm_config =
                    Some \<lparr>iorm_lifecycle_state = ''ACTIVE'', iorm_objective = ''AUTO''\<rparr>,
                  patches = take 5 demo_patches\<rparr>,
                 \<lparr>cluster = demo_cluster ''k2'' ''vm2'', iorm_config = None, patches = []\<rparr>]\<rparr>,
             \<lparr>details =
                \<lparr>infrastructure = demo_infra ''i2'' ''exa2'', ocpu_info = None,
                 unallocated_resources = Some \<lparr>available_cpus = 8\<rparr>\<rparr>,
              vm_clusters = []\<rparr>]\<rparr>]\<rparr>"

subsection \<open>For the discovery of the compartments\<close>

text \<open>The example tenancy with a provider that lists the compartment \<open>alpha\<close> on both pages.\<close>

definition repeating_fetcher :: fetcher where
  "repeating_fetcher =
     demo_fetcher
       \<lparr>identity_list_compartments :=
          (\<lambda>cid subtree access pg.
             if pg = None then
               Inr \<lparr>data = [\<lparr>c_id = ''a'', c_name = ''alpha'', c_lifecycle_state = ''ACTIVE''\<rparr>],
                    next_page = Some ''2''\<rparr>
             else
               Inr \<lparr>data = [\<lparr>c_id = ''a'', c_name = ''alpha'', c_lifecycle_state = ''ACTIVE''\<rparr>],
                    next_page = None\<rparr>)\<rparr>"

subsection \<open>For the order of the entries\<close>

text \<open>
  The provider honours the order the listings ask for: what a listing of infrastructures or
  of VM clusters returns is strictly ascending by display name, and the basic record of a
  listed item carries the display name the listing showed.
\<close>

definition sorted_listings :: "fetcher \<Rightarrow> bool" where
  "sorted_listings self \<longleftrightarrow>
     (\<forall>cid infras. list_exadata_infrastructures self cid = Some (Inr infras) \<longrightarrow>
        sorted_wrt (<) (map is_display_name infras) \<and>
        (\<forall>i\<in>set infras. \<forall>b. db_get_exadata_infrastructure self (is_id i) = Inr b \<longrightarrow>
           inf_display_name b = is_display_name i)) \<and>
     (\<forall>cid iid cls. list_vm_clusters self cid iid = Some (Inr cls) \<longrightarrow>
        sorted_wrt (<) (map vs_display_name cls) \<and>
        (\<forall>cl\<in>set cls. \<forall>b. db_get_vm_cluster self (vs_id cl) = Inr b \<longrightarrow>
           vc_display_name b = vs_display_name cl))"

text \<open>The example tenancy with one more infrastructure, placed in the root compartment.\<close>

definition root_fetcher :: fetcher where
  "root_fetcher =
     demo_fetcher
       \<lparr>db_list_exadata_infrastructures :=
          (\<lambda>cid sort_by sort_order pg.
             if cid = ''t'' then
               Inr \<lparr>data = [\<lparr>is_id = ''i2'', is_display_name = ''exa2'',
                              is_lifecycle_state = ''ACTIVE''\<rparr>],
                    next_page = None\<rparr>
             else db_list_exadata_infrastructures demo_fetcher cid sort_by sort_order pg)\<rparr>"

text \<open>The display names of the compartment entries of a run, in the order of the report.\<close>

definition compartment_names :: "(error + report) option \<Rightarrow> (error + string list) option" where
  "compartment_names run =
     map_option (map_sum id (\<lambda>rep. map compartment_name (compartments rep))) run"

subsection \<open>For the failures of listings and of mandatory fetches\<close>

text \<open>\<open>listed call xs\<close>: the cursor chain of the listing is finite, no call of it fails, and
  \<open>xs\<close> are the items of its pages, in order.\<close>

definition listed :: "(page \<Rightarrow> error + 'a response) \<Rightarrow> 'a list \<Rightarrow> bool" where
  "listed call xs \<longleftrightarrow> (\<exists>ds. cursor_chain call None ds \<and> xs = concat ds)"

text \<open>
  Every listing and every fetch of a basic record that the traversal makes succeeds: the
  tenancy record, the listing of the compartments, and, for the root and for every active
  compartment listed, the listing of its infrastructures, the basic record of each of them,
  the listing of its VM clusters and the basic record of each of those.
\<close>

definition mandatory_calls_succeed :: "fetcher \<Rightarrow> bool" where
  "mandatory_calls_succeed self \<longleftrightarrow>
     (\<exists>t cs.
        identity_get_tenancy self (self_tenancy_id self) = Inr t \<and>
        listed (\<lambda>pg. identity_list_compartments self (self_tenancy_id self) True
                       ''ACCESSIBLE'' pg) cs \<and>
        (\<forall>cid\<in>set (t_id t # map c_id (filter (\<lambda>c. c_lifecycle_state c = ''ACTIVE'') cs)).
           \<exists>infras.
             listed (\<lambda>pg. db_list_exadata_infrastructures self cid ''DISPLAYNAME'' ''ASC'' pg)
               infras \<and>
             (\<forall>i\<in>set infras.
                (\<exists>b. db_get_exadata_infrastructure self (is_id i) = Inr b) \<and>
                (\<exists>cls.
                   listed (\<lambda>pg. db_list_vm_clusters self cid (Some (is_id i))
                                  ''DISPLAYNAME'' ''ASC'' pg) cls \<and>
                   (\<forall>cl\<in>set cls. \<exists>b. db_get_vm_cluster self (vs_id cl) = Inr b)))))"

text \<open>The error \<open>e\<close> is raised by the provider, in a listing or in the fetch of a basic
  record, for arguments of the kind the traversal passes.\<close>

definition raised_by_provider :: "fetcher \<Rightarrow> error \<Rightarrow> bool" where
  "raised_by_provider self e \<longleftrightarrow>
     identity_get_tenancy self (self_tenancy_id self) = Inl e \<or>
     (\<exists>pg. identity_list_compartments self (self_tenancy_id self) True ''ACCESSIBLE'' pg =
             Inl e) \<or>
     (\<exists>cid pg. db_list_exadata_infrastructures self cid ''DISPLAYNAME'' ''ASC'' pg = Inl e) \<or>
     (\<exists>i. db_get_exadata_infrastructure self i = Inl e) \<or>
     (\<exists>cid i pg. db_list_vm_clusters self cid (Some i) ''DISPLAYNAME'' ''ASC'' pg = Inl e) \<or>
     (\<exists>cl. db_get_vm_cluster self cl = Inl e)"

text \<open>The example tenancy when the basic record of the cluster \<open>k2\<close> cannot be fetched.\<close>

definition failing_fetcher :: fetcher where
  "failing_fetcher =
     demo_fetcher
       \<lparr>db_get_vm_cluster :=
          (\<lambda>k. if k = ''k2'' then Inl (ServiceError 500 ''InternalError'')
                else db_get_vm_cluster demo_fetcher k)\<rparr>"

subsection \<open>For determinism\<close>

text \<open>
  Two providers give identical responses to every request that the script can issue: the
  same tenancy identifier, and the same answer to each client operation for the fixed
  keyword arguments the script passes.
\<close>

definition same_responses :: "fetcher \<Rightarrow> fetcher \<Rightarrow> bool" where
  "same_responses self other \<longleftrightarrow>
     self_tenancy_id self = self_tenancy_id other \<and>
     identity_get_tenancy self (self_tenancy_id self) =
       identity_get_tenancy other (self_tenancy_id self) \<and>
     (\<forall>pg. identity_list_compartments self (self_tenancy_id self) True ''ACCESSIBLE'' pg =
             identity_list_compartments other (self_tenancy_id self) True ''ACCESSIBLE'' pg) \<and>
     (\<forall>cid pg. db_list_exadata_infrastructures self cid ''DISPLAYNAME'' ''ASC'' pg =
                 db_list_exadata_infrastructures other cid ''DISPLAYNAME'' ''ASC'' pg) \<and>
     (\<forall>i. db_get_exadata_infrastructure self i = db_get_exadata_infrastructure other i) \<and>
     (\<forall>i. db_get_exadata_infrastructure_ocpus self i =
            db_get_exadata_infrastructure_ocpus other i) \<and>
     (\<forall>i. db_get_exadata_infrastructure_un_allocated_resources self i =
            db_get_exadata_infrastructure_un_allocated_resources other i) \<and>
     (\<forall>cid i pg. db_list_vm_clusters self cid (Some i) ''DISPLAYNAME'' ''ASC'' pg =
                   db_list_vm_clusters other cid (Some i) ''DISPLAYNAME'' ''ASC'' pg) \<and>
     (\<forall>k. db_get_vm_cluster self k = db_get_vm_cluster other k) \<and>
     (\<forall>k. db_get_vm_cluster_iorm_config self k = db_get_vm_cluster_iorm_config other k) \<and>
     (\<forall>k. db_list_vm_cluster_patches self k = db_list_vm_cluster_patches other k)"

text \<open>The example tenancy behind a provider that answers differently to requests the script
  never issues: a descending sort order, and a cluster listing without an infrastructure.\<close>

definition other_fetcher :: fetcher where
  "other_fetcher =
     demo_fetcher
       \<lparr>db_list_exadata_infrastructures :=
          (\<lambda>cid sort_by sort_order pg.
             if sort_order = ''ASC''
             then db_list_exadata_infrastructures demo_fetcher cid sort_by sort_order pg
             else Inl not_found),
        db_list_vm_clusters :=
          (\<lambda>cid iid sort_by sort_order pg.
             if iid = None then Inl not_found
             else db_list_vm_clusters demo_fetcher cid iid sort_by sort_order pg)\<rparr>"

subsection \<open>For the failures of optional fetches\<close>

text \<open>
  The provider \<open>self\<close>, except that the optional fetches are refused with \<open>err\<close> for chosen
  resources: the OCPU record for the infrastructures in \<open>A\<close>, the unallocated resources for
  those in \<open>B\<close>, the IORM configuration for the clusters in \<open>C\<close> and the patch list for those
  in \<open>D\<close>.
\<close>

definition refuse_optional ::
  "string set \<Rightarrow> string set \<Rightarrow> string set \<Rightarrow> string set \<Rightarrow> error \<Rightarrow> fetcher \<Rightarrow> fetcher" where
  "refuse_optional A B C D err self =
     self
       \<lparr>db_get_exadata_infrastructure_ocpus :=
          (\<lambda>i. if i \<in> A then Inl err else db_get_exadata_infrastructure_ocpus self i),
        db_get_exadata_infrastructure_un_allocated_resources :=
          (\<lambda>i. if i \<in> B then Inl err
                else db_get_exadata_infrastructure_un_allocated_resources self i),
        db_get_vm_cluster_iorm_config :=
          (\<lambda>k. if k \<in> C then Inl err else db_get_vm_cluster_iorm_config self k),
        db_list_vm_cluster_patches :=
          (\<lambda>k. if k \<in> D then Inl err else db_list_vm_cluster_patches self k)\<rparr>"

text \<open>The detail records of the infrastructure \<open>i\<close> and of the cluster \<open>k\<close> with the refused
  fields absent and every other field as it was.\<close>

definition absent_in_infra :: "string set \<Rightarrow> string set \<Rightarrow> string \<Rightarrow> infra_details \<Rightarrow> infra_details"
  where
  "absent_in_infra A B i d =
     d\<lparr>ocpu_info := (if i \<in> A then None else ocpu_info d),
       unallocated_resources := (if i \<in> B then None else unallocated_resources d)\<rparr>"

definition absent_in_cluster ::
  "string set \<Rightarrow> string set \<Rightarrow> string \<Rightarrow> cluster_details \<Rightarrow> cluster_details" where
  "absent_in_cluster C D k d =
     d\<lparr>iorm_config := (if k \<in> C then None else iorm_config d),
       patches := (if k \<in> D then [] else patches d)\<rparr>"

text \<open>What the listings of \<open>self\<close> returned: the items that the entries of a report stand for,
  position by position.\<close>

definition infra_listing :: "fetcher \<Rightarrow> string \<Rightarrow> infra_summary list" where
  "infra_listing self cid =
     (case list_exadata_infrastructures self cid of Some (Inr xs) \<Rightarrow> xs | _ \<Rightarrow> [])"

definition cluster_listing :: "fetcher \<Rightarrow> string \<Rightarrow> string \<Rightarrow> vm_cluster_summary list" where
  "cluster_listing self cid i =
     (case list_vm_clusters self cid (Some i) of Some (Inr xs) \<Rightarrow> xs | _ \<Rightarrow> [])"

text \<open>The report with the refused fields absent in the entries of the chosen resources, and
  nothing else changed.\<close>

definition absent_in_entry ::
  "string set \<Rightarrow> string set \<Rightarrow> string set \<Rightarrow> string set \<Rightarrow> fetcher \<Rightarrow> string
     \<Rightarrow> infra_summary \<Rightarrow> infra_entry \<Rightarrow> infra_entry" where
  "absent_in_entry A B C D self cid i e =
     \<lparr>details = absent_in_infra A B (is_id i) (details e),
      vm_clusters =
        map2 (\<lambda>cl d. absent_in_cluster C D (vs_id cl) d)
          (cluster_listing self cid (is_id i)) (vm_clusters e)\<rparr>"

definition absent_in_compartment ::
  "string set \<Rightarrow> string set \<Rightarrow> string set \<Rightarrow> string set \<Rightarrow> fetcher
     \<Rightarrow> compartment_data \<Rightarrow> compartment_data" where
  "absent_in_compartment A B C D self ce =
     ce\<lparr>infrastructures :=
          map2 (absent_in_entry A B C D self (compartment_id ce))
            (infra_listing self (compartment_id ce)) (infrastructures ce)\<rparr>"

definition absent_in_report ::
  "string set \<Rightarrow> string set \<Rightarrow> string set \<Rightarrow> string set \<Rightarrow> fetcher \<Rightarrow> report \<Rightarrow> report" where
  "absent_in_report A B C D self rep =
     rep\<lparr>compartments := map (absent_in_compartment A B C D self) (compartments rep)\<rparr>"

text \<open>The report of the example tenancy when the OCPU record of the infrastructure \<open>i1\<close> and
  the patch list of the cluster \<open>k1\<close> are refused.\<close>

definition refused_report :: report where
  "refused_report =
     \<lparr>tenancy_id = ''t'',
      compartments =
        [\<lparr>compartment_id = ''a'', compartment_name = ''alpha'',
          infrastructures =
            [\<lparr>details =
                \<lparr>infrastructure = demo_infra ''i1'' ''exa1'', ocpu_info = None,
                 unallocated_resources = None\<rparr>,
              vm_clusters =
                [\<lparr>cluster = demo_cluster ''k1'' ''vm1'',
                  iorm_config =
                    Some \<lparr>iorm_lifecycle_state = ''ACTIVE'', iorm_objective = ''AUTO''\<rparr>,
                  patches = []\<rparr>,
                 \<lparr>cluster = demo_cluster ''k2'' ''vm2'', iorm_config = None, patches = []\<rparr>]\<rparr>,
             \<lparr>details =
                \<lparr>infrastructure = demo_infra ''i2'' ''exa2'', ocpu_info = None,
                 unallocated_resources = Some \<lparr>available_cpus = 8\<rparr>\<rparr>,
              vm_clusters = []\<rparr>]\<rparr>]\<rparr>"

subsection \<open>For the first failure of a run\<close>

text \<open>
  \<open>cursor_fails call e pg\<close>: starting with the cursor \<open>pg\<close>, the calls return and hand on
  their cursors until one of them raises \<open>e\<close>.  \<open>listing_fails call e\<close> is that for a listing,
  which starts with no cursor.
\<close>

inductive cursor_fails :: "(page \<Rightarrow> error + 'a response) \<Rightarrow> error \<Rightarrow> page \<Rightarrow> bool"
  for call :: "page \<Rightarrow> error + 'a response" and e :: error
where
  fails_here: "call pg = Inl e \<Longrightarrow> cursor_fails call e pg"
| fails_later: "call pg = Inr r \<Longrightarrow> \<not> not_page (next_page r) \<Longrightarrow>
     cursor_fails call e (next_page r) \<Longrightarrow> cursor_fails call e pg"

definition listing_fails :: "(page \<Rightarrow> error + 'a response) \<Rightarrow> error \<Rightarrow> bool" where
  "listing_fails call e \<longleftrightarrow> cursor_fails call e None"

text \<open>In the list \<open>xs\<close>, taken in order, an item fails after all the items before it went
  well.\<close>

definition first_failing :: "('a \<Rightarrow> bool) \<Rightarrow> ('a \<Rightarrow> bool) \<Rightarrow> 'a list \<Rightarrow> bool" where
  "first_failing ok fails xs \<longleftrightarrow>
     (\<exists>pre x post. xs = pre @ x # post \<and> (\<forall>y\<in>set pre. ok y) \<and> fails x)"

text \<open>
  What the provider answers for one cluster, one infrastructure and one compartment, in the
  order in which the traversal asks.  For a cluster: its basic record.  For an
  infrastructure: its basic record, then the listing of its clusters, then the clusters one
  after the other.  For a compartment: the listing of its infrastructures, then the
  infrastructures one after the other.  \<open>ok\<close> says that nothing raises, \<open>fails e\<close> that the
  first thing to raise raises \<open>e\<close>.
\<close>

definition cluster_ok :: "fetcher \<Rightarrow> vm_cluster_summary \<Rightarrow> bool" where
  "cluster_ok self cl \<longleftrightarrow> (\<exists>b. db_get_vm_cluster self (vs_id cl) = Inr b)"

definition cluster_fails :: "fetcher \<Rightarrow> error \<Rightarrow> vm_cluster_summary \<Rightarrow> bool" where
  "cluster_fails self e cl \<longleftrightarrow> db_get_vm_cluster self (vs_id cl) = Inl e"

definition infra_ok :: "fetcher \<Rightarrow> string \<Rightarrow> infra_summary \<Rightarrow> bool" where
  "infra_ok self cid i \<longleftrightarrow>
     (\<exists>b. db_get_exadata_infrastructure self (is_id i) = Inr b) \<and>
     (\<exists>cls.
        listed (\<lambda>pg. db_list_vm_clusters self cid (Some (is_id i)) ''DISPLAYNAME'' ''ASC'' pg)
          cls \<and>
        (\<forall>cl\<in>set cls. cluster_ok self cl))"

definition infra_fails :: "fetcher \<Rightarrow> string \<Rightarrow> error \<Rightarrow> infra_summary \<Rightarrow> bool" where
  "infra_fails self cid e i \<longleftrightarrow>
     db_get_exadata_infrastructure self (is_id i) = Inl e \<or>
     (\<exists>b. db_get_exadata_infrastructure self (is_id i) = Inr b) \<and>
     (listing_fails
        (\<lambda>pg. db_list_vm_clusters self cid (Some (is_id i)) ''DISPLAYNAME'' ''ASC'' pg) e \<or>
      (\<exists>cls.
         listed (\<lambda>pg. db_list_vm_clusters self cid (Some (is_id i)) ''DISPLAYNAME'' ''ASC'' pg)
           cls \<and>
         first_failing (cluster_ok self) (cluster_fails self e) cls))"

definition compartment_ok :: "fetcher \<Rightarrow> string \<Rightarrow> bool" where
  "compartment_ok self cid \<longleftrightarrow>
     (\<exists>infras.
        listed (\<lambda>pg. db_list_exadata_infrastructures self cid ''DISPLAYNAME'' ''ASC'' pg)
          infras \<and>
        (\<forall>i\<in>set infras. infra_ok self cid i))"

definition compartment_fails :: "fetcher \<Rightarrow> error \<Rightarrow> string \<Rightarrow> bool" where
  "compartment_fails self e cid \<longleftrightarrow>
     listing_fails
       (\<lambda>pg. db_list_exadata_infrastructures self cid ''DISPLAYNAME'' ''ASC'' pg) e \<or>
     (\<exists>infras.
        listed (\<lambda>pg. db_list_exadata_infrastructures self cid ''DISPLAYNAME'' ''ASC'' pg)
          infras \<and>
        first_failing (infra_ok self cid) (infra_fails self cid e) infras)"

text \<open>
  The first listing or fetch of a basic record to raise, in the order of the traversal,
  raises \<open>e\<close>: the tenancy record, or the listing of the compartments, or, going through the
  root and the active compartments listed, the first compartment that fails.
\<close>

definition first_failure :: "fetcher \<Rightarrow> error \<Rightarrow> bool" where
  "first_failure self e \<longleftrightarrow>
     identity_get_tenancy self (self_tenancy_id self) = Inl e \<or>
     (\<exists>t. identity_get_tenancy self (self_tenancy_id self) = Inr t \<and>
        (listing_fails
           (\<lambda>pg. identity_list_compartments self (self_tenancy_id self) True ''ACCESSIBLE'' pg)
           e \<or>
         (\<exists>cs.
            listed (\<lambda>pg. identity_list_compartments self (self_tenancy_id self) True
                           ''ACCESSIBLE'' pg) cs \<and>
            first_failing (compartment_ok self) (compartment_fails self e)
              (t_id t # map c_id (filter (\<lambda>c. c_lifecycle_state c = ''ACTIVE'') cs)))))"

text \<open>The example tenancy when the basic record of the infrastructure \<open>i2\<close> cannot be
  fetched, and when the second page of the cluster listing of \<open>i1\<close> cannot.\<close>

definition failing_record_fetcher :: fetcher where
  "failing_record_fetcher =
     demo_fetcher
       \<lparr>db_get_exadata_infrastructure :=
          (\<lambda>i. if i = ''i2'' then Inl (ServiceError 500 ''InternalError'')
                else db_get_exadata_infrastructure demo_fetcher i)\<rparr>"

definition failing_listing_fetcher :: fetcher where
  "failing_listing_fetcher =
     demo_fetcher
       \<lparr>db_list_vm_clusters :=
          (\<lambda>cid iid sort_by sort_order pg.
             if pg = Some ''2'' then Inl (ServiceError 503 ''ServiceUnavailable'')
             else db_list_vm_clusters demo_fetcher cid iid sort_by sort_order pg)\<rparr>"

section \<open>Facts about the paginated listings\<close>

lemma infra_loop_chain:
  "cursor_chain call pg ds \<Longrightarrow>
     list_exadata_infrastructures_loop call pg acc = Some (Inr (acc @ concat ds))"
proof (induction arbitrary: acc rule: cursor_chain.induct)
  case (last_page pg r)
  then show ?case by (subst list_exadata_infrastructures_loop.simps) simp
next
  case (more_pages pg r ds)
  then show ?case by (subst list_exadata_infrastructures_loop.simps) simp
qed

lemma cluster_loop_chain:
  "cursor_chain call pg ds \<Longrightarrow>
     list_vm_clusters_loop call pg acc = Some (Inr (acc @ concat ds))"
proof (induction arbitrary: acc rule: cursor_chain.induct)
  case (last_page pg r)
  then show ?case by (subst list_vm_clusters_loop.simps) simp
next
  case (more_pages pg r ds)
  then show ?case by (subst list_vm_clusters_loop.simps) simp
qed

lemma compartment_to_dict_fun:
  "(\<lambda>c. \<lparr>cd_id = c_id c, cd_name = c_name c,
          cd_lifecycle_state = c_lifecycle_state c, cd_is_root = False\<rparr>) = compartment_to_dict"
  by (simp add: fun_eq_iff compartment_to_dict_def)

lemma compartment_loop_chain:
  "cursor_chain call pg ds \<Longrightarrow>
     list_compartments_recursive call pg acc =
       Some (Inr (acc @ map compartment_to_dict
                          (filter (\<lambda>c. c_lifecycle_state c = ''ACTIVE'') (concat ds))))"
proof (induction arbitrary: acc rule: cursor_chain.induct)
  case (last_page pg r)
  then show ?case
    by (subst list_compartments_recursive.simps) (simp add: compartment_to_dict_fun)
next
  case (more_pages pg r ds)
  then show ?case
    by (subst list_compartments_recursive.simps) (simp add: compartment_to_dict_fun)
qed

lemma compartment_loop_returns_aux:
  "list_compartments_recursive call pg acc = Some y \<Longrightarrow>
     (\<forall>xs. y = Inr xs \<longrightarrow> (\<exists>ds. cursor_chain call pg ds \<and>
       xs = acc @ map compartment_to_dict
                    (filter (\<lambda>c. c_lifecycle_state c = ''ACTIVE'') (concat ds))))"
proof (induction rule: list_compartments_recursive.raw_induct[rotated, consumes 1])
  case (1 f call pg acc y)
  let ?keep = "\<lambda>cs. map compartment_to_dict (filter (\<lambda>c. c_lifecycle_state c = ''ACTIVE'') cs)"
  show ?case
  proof (intro allI impI)
    fix xs assume y: "y = Inr xs"
    show "\<exists>ds. cursor_chain call pg ds \<and> xs = acc @ ?keep (concat ds)"
    proof (cases "call pg")
      case (Inl e)
      with 1(2) y show ?thesis by simp
    next
      case (Inr r)
      show ?thesis
      proof (cases "not_page (next_page r)")
        case True
        with 1(2) Inr y have "xs = acc @ ?keep (data r)"
          by (simp add: Let_def compartment_to_dict_fun)
        moreover have "cursor_chain call pg [data r]"
          using Inr True by (rule cursor_chain.last_page)
        ultimately show ?thesis by (intro exI[of _ "[data r]"]) simp
      next
        case False
        with 1(2) Inr y have "f call (next_page r) (acc @ ?keep (data r)) = Some (Inr xs)"
          by (simp add: Let_def compartment_to_dict_fun)
        from 1(1)[OF this] obtain ds where
          ds: "cursor_chain call (next_page r) ds"
              "xs = (acc @ ?keep (data r)) @ ?keep (concat ds)"
          by blast
        have "cursor_chain call pg (data r # ds)"
          using Inr False ds(1) by (rule cursor_chain.more_pages)
        with ds(2) show ?thesis by (intro exI[of _ "data r # ds"]) simp
      qed
    qed
  qed
qed

lemma compartment_loop_returns:
  "list_compartments_recursive call pg acc = Some (Inr xs) \<Longrightarrow>
     \<exists>ds. cursor_chain call pg ds \<and>
       xs = acc @ map compartment_to_dict
                    (filter (\<lambda>c. c_lifecycle_state c = ''ACTIVE'') (concat ds))"
  using compartment_loop_returns_aux by blast

lemma infra_loop_returns_aux:
  "list_exadata_infrastructures_loop call pg acc = Some y \<Longrightarrow>
     (\<forall>xs. y = Inr xs \<longrightarrow> (\<exists>ds. cursor_chain call pg ds \<and> xs = acc @ concat ds))"
proof (induction rule: list_exadata_infrastructures_loop.raw_induct[rotated, consumes 1])
  case (1 f call pg acc y)
  show ?case
  proof (intro allI impI)
    fix xs assume y: "y = Inr xs"
    show "\<exists>ds. cursor_chain call pg ds \<and> xs = acc @ concat ds"
    proof (cases "call pg")
      case (Inl e)
      with 1(2) y show ?thesis by simp
    next
      case (Inr r)
      show ?thesis
      proof (cases "not_page (next_page r)")
        case True
        with 1(2) Inr y have "xs = acc @ data r" by (simp add: Let_def)
        moreover have "cursor_chain call pg [data r]"
          using Inr True by (rule cursor_chain.last_page)
        ultimately show ?thesis by (intro exI[of _ "[data r]"]) simp
      next
        case False
        with 1(2) Inr y have "f call (next_page r) (acc @ data r) = Some (Inr xs)"
          by (simp add: Let_def)
        from 1(1)[OF this] obtain ds where
          ds: "cursor_chain call (next_page r) ds" "xs = (acc @ data r) @ concat ds"
          by blast
        have "cursor_chain call pg (data r # ds)"
          using Inr False ds(1) by (rule cursor_chain.more_pages)
        with ds(2) show ?thesis by (intro exI[of _ "data r # ds"]) simp
      qed
    qed
  qed
qed

lemma infra_loop_returns:
  "list_exadata_infrastructures_loop call pg acc = Some (Inr xs) \<Longrightarrow>
     \<exists>ds. cursor_chain call pg ds \<and> xs = acc @ concat ds"
  using infra_loop_returns_aux by blast

lemma infra_loop_raises_aux:
  "list_exadata_infrastructures_loop call pg acc = Some y \<Longrightarrow> (\<forall>e. y = Inl e \<longrightarrow> (\<exists>pg'. call pg' = Inl e))"
proof (induction rule: list_exadata_infrastructures_loop.raw_induct[rotated, consumes 1])
  case (1 f call pg acc y)
  show ?case
  proof (cases "call pg")
    case (Inl e)
    with 1(2) show ?thesis by auto
  next
    case (Inr r)
    show ?thesis
    proof (cases "not_page (next_page r)")
      case True
      with 1(2) Inr show ?thesis by (auto simp: Let_def)
    next
      case False
      with 1(2) Inr obtain acc' where "f call (next_page r) acc' = Some y"
        by (auto simp: Let_def)
      from 1(1)[OF this] show ?thesis .
    qed
  qed
qed

lemma infra_loop_raises:
  "list_exadata_infrastructures_loop call pg acc = Some (Inl e) \<Longrightarrow> \<exists>pg'. call pg' = Inl e"
  using infra_loop_raises_aux by blast

lemma cluster_loop_returns_aux:
  "list_vm_clusters_loop call pg acc = Some y \<Longrightarrow>
     (\<forall>xs. y = Inr xs \<longrightarrow> (\<exists>ds. cursor_chain call pg ds \<and> xs = acc @ concat ds))"
proof (induction rule: list_vm_clusters_loop.raw_induct[rotated, consumes 1])
  case (1 f call pg acc y)
  show ?case
  proof (intro allI impI)
    fix xs assume y: "y = Inr xs"
    show "\<exists>ds. cursor_chain call pg ds \<and> xs = acc @ concat ds"
    proof (cases "call pg")
      case (Inl e)
      with 1(2) y show ?thesis by simp
    next
      case (Inr r)
      show ?thesis
      proof (cases "not_page (next_page r)")
        case True
        with 1(2) Inr y have "xs = acc @ data r" by (simp add: Let_def)
        moreover have "cursor_chain call pg [data r]"
          using Inr True by (rule cursor_chain.last_page)
        ultimately show ?thesis by (intro exI[of _ "[data r]"]) simp
      next
        case False
        with 1(2) Inr y have "f call (next_page r) (acc @ data r) = Some (Inr xs)"
          by (simp add: Let_def)
        from 1(1)[OF this] obtain ds where
          ds: "cursor_chain call (next_page r) ds" "xs = (acc @ data r) @ concat ds"
          by blast
        have "cursor_chain call pg (data r # ds)"
          using Inr False ds(1) by (rule cursor_chain.more_pages)
        with ds(2) show ?thesis by (intro exI[of _ "data r # ds"]) simp
      qed
    qed
  qed
qed

lemma cluster_loop_returns:
  "list_vm_clusters_loop call pg acc = Some (Inr xs) \<Longrightarrow>
     \<exists>ds. cursor_chain call pg ds \<and> xs = acc @ concat ds"
  using cluster_loop_returns_aux by blast

lemma cluster_loop_raises_aux:
  "list_vm_clusters_loop call pg acc = Some y \<Longrightarrow> (\<forall>e. y = Inl e \<longrightarrow> (\<exists>pg'. call pg' = Inl e))"
proof (induction rule: list_vm_clusters_loop.raw_induct[rotated, consumes 1])
  case (1 f call pg acc y)
  show ?case
  proof (cases "call pg")
    case (Inl e)
    with 1(2) show ?thesis by auto
  next
    case (Inr r)
    show ?thesis
    proof (cases "not_page (next_page r)")
      case True
      with 1(2) Inr show ?thesis by (auto simp: Let_def)
    next
      case False
      with 1(2) Inr obtain acc' where "f call (next_page r) acc' = Some y"
        by (auto simp: Let_def)
      from 1(1)[OF this] show ?thesis .
    qed
  qed
qed

lemma cluster_loop_raises:
  "list_vm_clusters_loop call pg acc = Some (Inl e) \<Longrightarrow> \<exists>pg'. call pg' = Inl e"
  using cluster_loop_raises_aux by blast

lemma compartment_loop_raises_aux:
  "list_compartments_recursive call pg acc = Some y \<Longrightarrow> (\<forall>e. y = Inl e \<longrightarrow> (\<exists>pg'. call pg' = Inl e))"
proof (induction rule: list_compartments_recursive.raw_induct[rotated, consumes 1])
  case (1 f call pg acc y)
  show ?case
  proof (cases "call pg")
    case (Inl e)
    with 1(2) show ?thesis by auto
  next
    case (Inr r)
    show ?thesis
    proof (cases "not_page (next_page r)")
      case True
      with 1(2) Inr show ?thesis by (auto simp: Let_def)
    next
      case False
      with 1(2) Inr obtain acc' where "f call (next_page r) acc' = Some y"
        by (auto simp: Let_def)
      from 1(1)[OF this] show ?thesis .
    qed
  qed
qed

lemma compartment_loop_raises:
  "list_compartments_recursive call pg acc = Some (Inl e) \<Longrightarrow> \<exists>pg'. call pg' = Inl e"
  using compartment_loop_raises_aux by blast

section \<open>Facts about the loops of the traversal\<close>

lemma vm_clusters_loop_sound:
  "vm_clusters_loop self cls acc tv = Inr (ds, tv') \<Longrightarrow>
     \<exists>new. ds = acc @ new \<and> list_all2 (cluster_fetched self) cls new \<and> tv' = tv + length cls"
proof (induction cls arbitrary: acc tv)
  case Nil
  then show ?case by simp
next
  case (Cons cl rest)
  from Cons.prems obtain d where
    d: "get_vm_cluster_details self (vs_id cl) = Inr d"
    and r: "vm_clusters_loop self rest (acc @ [d]) (tv + 1) = Inr (ds, tv')"
    by (auto split: sum.splits)
  from Cons.IH[OF r] obtain new where
    "ds = (acc @ [d]) @ new" "list_all2 (cluster_fetched self) rest new"
    "tv' = tv + 1 + length rest"
    by blast
  moreover have "cluster_fetched self cl d"
    using d by (simp add: cluster_fetched_def)
  ultimately show ?case
    by (intro exI[of _ "d # new"]) simp
qed

lemma vm_clusters_loop_complete:
  "list_all2 (cluster_fetched self) cls new \<Longrightarrow>
     vm_clusters_loop self cls acc tv = Inr (acc @ new, tv + length cls)"
proof (induction cls new arbitrary: acc tv rule: list_all2_induct)
  case Nil
  then show ?case by simp
next
  case (Cons cl cls d new)
  then show ?case by (simp add: cluster_fetched_def)
qed

lemma vm_clusters_loop_raises:
  "vm_clusters_loop self cls acc tv = Inl e \<Longrightarrow>
     \<exists>cl\<in>set cls. get_vm_cluster_details self (vs_id cl) = Inl e"
  by (induction cls arbitrary: acc tv) (auto split: sum.splits)

lemma infrastructures_loop_sound:
  "infrastructures_loop self comp_id infras acc tv = Some (Inr (es, tv')) \<Longrightarrow>
     \<exists>new. es = acc @ new \<and> list_all2 (infra_fetched self comp_id) infras new \<and>
           tv' = tv + count_vm_clusters_in new"
proof (induction infras arbitrary: acc tv)
  case Nil
  then show ?case by (simp add: count_vm_clusters_in_def)
next
  case (Cons i rest)
  from Cons.prems obtain d cls vds tv1 where
    d: "get_exadata_infrastructure_details self (is_id i) = Inr d"
    and cls: "list_vm_clusters self comp_id (Some (is_id i)) = Some (Inr cls)"
    and vl: "vm_clusters_loop self cls [] tv = Inr (vds, tv1)"
    and r: "infrastructures_loop self comp_id rest
              (acc @ [\<lparr>details = d, vm_clusters = vds\<rparr>]) tv1 = Some (Inr (es, tv'))"
    by (auto split: sum.splits option.splits prod.splits)
  from vm_clusters_loop_sound[OF vl] have
    v: "list_all2 (cluster_fetched self) cls vds" "tv1 = tv + length cls"
    by auto
  from Cons.IH[OF r] obtain new where
    new: "es = (acc @ [\<lparr>details = d, vm_clusters = vds\<rparr>]) @ new"
      "list_all2 (infra_fetched self comp_id) rest new"
      "tv' = tv1 + count_vm_clusters_in new"
    by blast
  have len: "length vds = length cls" using v(1) by (simp add: list_all2_lengthD)
  have hd: "infra_fetched self comp_id i \<lparr>details = d, vm_clusters = vds\<rparr>"
    using d cls v(1) by (simp add: infra_fetched_def)
  have cnt: "count_vm_clusters_in (\<lparr>details = d, vm_clusters = vds\<rparr> # new) =
               length cls + count_vm_clusters_in new"
    using len by (simp add: count_vm_clusters_in_def)
  show ?case
    using hd new v(2) cnt
    by (intro exI[of _ "\<lparr>details = d, vm_clusters = vds\<rparr> # new"]) simp
qed

lemma infrastructures_loop_complete:
  "list_all2 (infra_fetched self comp_id) infras new \<Longrightarrow>
     infrastructures_loop self comp_id infras acc tv =
       Some (Inr (acc @ new, tv + count_vm_clusters_in new))"
proof (induction infras new arbitrary: acc tv rule: list_all2_induct)
  case Nil
  then show ?case by (simp add: count_vm_clusters_in_def)
next
  case (Cons i infras e new)
  from Cons.hyps(1) obtain cls where
    d: "get_exadata_infrastructure_details self (is_id i) = Inr (details e)"
    and cls: "list_vm_clusters self comp_id (Some (is_id i)) = Some (Inr cls)"
    and v: "list_all2 (cluster_fetched self) cls (vm_clusters e)"
    by (auto simp: infra_fetched_def)
  have len: "length cls = length (vm_clusters e)" using v by (rule list_all2_lengthD)
  have vl: "vm_clusters_loop self cls [] tv = Inr (vm_clusters e, tv + length cls)"
    using vm_clusters_loop_complete[OF v, of "[]" tv] by simp
  have e: "\<lparr>details = details e, vm_clusters = vm_clusters e\<rparr> = e" by simp
  have cnt: "count_vm_clusters_in (e # new) = length cls + count_vm_clusters_in new"
    using len by (simp add: count_vm_clusters_in_def)
  show ?case
    using d cls vl Cons.IH[of "acc @ [e]" "tv + length cls"]
    by (simp add: e cnt)
qed

lemma infrastructures_loop_raises:
  "infrastructures_loop self comp_id infras acc tv = Some (Inl e) \<Longrightarrow>
     \<exists>i\<in>set infras.
        get_exadata_infrastructure_details self (is_id i) = Inl e \<or>
        list_vm_clusters self comp_id (Some (is_id i)) = Some (Inl e) \<or>
        (\<exists>cls. list_vm_clusters self comp_id (Some (is_id i)) = Some (Inr cls) \<and>
           (\<exists>cl\<in>set cls. get_vm_cluster_details self (vs_id cl) = Inl e))"
proof (induction infras arbitrary: acc tv)
  case Nil
  then show ?case by simp
next
  case (Cons i rest)
  show ?case
  proof (cases "get_exadata_infrastructure_details self (is_id i)")
    case (Inl e')
    with Cons.prems show ?thesis by simp
  next
    case (Inr d)
    show ?thesis
    proof (cases "list_vm_clusters self comp_id (Some (is_id i))")
      case None
      with Cons.prems Inr show ?thesis by simp
    next
      case (Some r)
      show ?thesis
      proof (cases r)
        case (Inl e')
        with Cons.prems Inr Some show ?thesis by simp
      next
        case cls: (Inr cls)
        show ?thesis
        proof (cases "vm_clusters_loop self cls [] tv")
          case (Inl e')
          with Cons.prems Inr Some cls have "e' = e" by simp
          with Inl vm_clusters_loop_raises[of self cls "[]" tv e] Some cls
          show ?thesis by auto
        next
          case res: (Inr res)
          obtain vds tv1 where "res = (vds, tv1)" by (cases res)
          with Cons.prems Inr Some cls res have
            "infrastructures_loop self comp_id rest
               ([] @ acc @ [\<lparr>details = d, vm_clusters = vds\<rparr>]) tv1 = Some (Inl e)"
            by simp
          from Cons.IH[OF this] show ?thesis by auto
        qed
      qed
    qed
  qed
qed

lemma compartments_loop_sound:
  "compartments_loop self cs acc ti tv = Some (Inr (res, ti', tv')) \<Longrightarrow>
     (\<forall>c\<in>set cs. \<exists>infras. list_exadata_infrastructures self (cd_id c) = Some (Inr infras)) \<and>
     (\<exists>new. res = acc @ new \<and>
        list_all2 (compartment_scanned self) (filter (has_infrastructures self) cs) new \<and>
        ti' = ti + count_infrastructures new \<and> tv' = tv + count_vm_clusters new)"
proof (induction cs arbitrary: acc ti tv)
  case Nil
  then show ?case by (simp add: count_infrastructures_def count_vm_clusters_def)
next
  case (Cons c rest)
  from Cons.prems obtain infras where
    l: "list_exadata_infrastructures self (cd_id c) = Some (Inr infras)"
    by (auto simp: Let_def split: option.splits sum.splits)
  show ?case
  proof (cases "infras = []")
    case True
    with Cons.prems l have
      r: "compartments_loop self rest acc ti tv = Some (Inr (res, ti', tv'))"
      by (simp add: Let_def)
    have "\<not> has_infrastructures self c" using l True by (simp add: has_infrastructures_def)
    with Cons.IH[OF r] l show ?thesis by auto
  next
    case False
    with Cons.prems l obtain es tv1 where
      il: "infrastructures_loop self (cd_id c) infras [] tv = Some (Inr (es, tv1))"
      and r: "compartments_loop self rest
                (acc @ [\<lparr>compartment_id = cd_id c, compartment_name = cd_name c,
                          infrastructures = es\<rparr>])
                (ti + length infras) tv1 = Some (Inr (res, ti', tv'))"
      by (auto simp: Let_def split: option.splits sum.splits prod.splits)
    let ?ce = "\<lparr>compartment_id = cd_id c, compartment_name = cd_name c, infrastructures = es\<rparr>"
    from infrastructures_loop_sound[OF il] have
      i: "list_all2 (infra_fetched self (cd_id c)) infras es"
         "tv1 = tv + count_vm_clusters_in es"
      by auto
    have len: "length es = length infras" using i(1) by (simp add: list_all2_lengthD)
    have hd: "compartment_scanned self c ?ce"
      using l False i(1) by (simp add: compartment_scanned_def)
    have has: "has_infrastructures self c" using l False by (simp add: has_infrastructures_def)
    from Cons.IH[OF r] obtain new where
      all: "\<forall>c\<in>set rest. \<exists>infras. list_exadata_infrastructures self (cd_id c) = Some (Inr infras)"
      and new: "res = (acc @ [?ce]) @ new"
        "list_all2 (compartment_scanned self) (filter (has_infrastructures self) rest) new"
        "ti' = ti + length infras + count_infrastructures new"
        "tv' = tv1 + count_vm_clusters new"
      by blast
    have c1: "count_infrastructures (?ce # new) = length infras + count_infrastructures new"
      using len by (simp add: count_infrastructures_def)
    have c2: "count_vm_clusters (?ce # new) = count_vm_clusters_in es + count_vm_clusters new"
      by (simp add: count_vm_clusters_def)
    have "res = acc @ ?ce # new \<and>
        list_all2 (compartment_scanned self) (filter (has_infrastructures self) (c # rest))
          (?ce # new) \<and>
        ti' = ti + count_infrastructures (?ce # new) \<and>
        tv' = tv + count_vm_clusters (?ce # new)"
      using new hd has i(2) c1 c2 by simp
    then have "\<exists>new. res = acc @ new \<and>
        list_all2 (compartment_scanned self) (filter (has_infrastructures self) (c # rest)) new \<and>
        ti' = ti + count_infrastructures new \<and> tv' = tv + count_vm_clusters new"
      by (rule exI)
    with all l show ?thesis by simp
  qed
qed

lemma compartments_loop_complete:
  "\<forall>c\<in>set cs. \<exists>infras. list_exadata_infrastructures self (cd_id c) = Some (Inr infras) \<Longrightarrow>
   list_all2 (compartment_scanned self) (filter (has_infrastructures self) cs) new \<Longrightarrow>
     compartments_loop self cs acc ti tv =
       Some (Inr (acc @ new, ti + count_infrastructures new, tv + count_vm_clusters new))"
proof (induction cs arbitrary: acc ti tv new)
  case Nil
  then show ?case by (simp add: count_infrastructures_def count_vm_clusters_def)
next
  case (Cons c rest)
  from Cons.prems(1) obtain infras where
    l: "list_exadata_infrastructures self (cd_id c) = Some (Inr infras)"
    by auto
  from Cons.prems(1) have
    all: "\<forall>c\<in>set rest. \<exists>infras. list_exadata_infrastructures self (cd_id c) = Some (Inr infras)"
    by simp
  show ?case
  proof (cases "infras = []")
    case True
    then have "\<not> has_infrastructures self c" using l by (simp add: has_infrastructures_def)
    with Cons.prems(2) have
      "list_all2 (compartment_scanned self) (filter (has_infrastructures self) rest) new"
      by simp
    from Cons.IH[OF all this] l True show ?thesis by (simp add: Let_def)
  next
    case False
    then have "has_infrastructures self c" using l by (simp add: has_infrastructures_def)
    with Cons.prems(2) obtain ce new' where
      new: "new = ce # new'" "compartment_scanned self c ce"
        "list_all2 (compartment_scanned self) (filter (has_infrastructures self) rest) new'"
      by (auto simp: list_all2_Cons1)
    from new(2) l have
      ce: "compartment_id ce = cd_id c" "compartment_name ce = cd_name c"
        "list_all2 (infra_fetched self (cd_id c)) infras (infrastructures ce)"
      by (auto simp: compartment_scanned_def)
    have len: "length (infrastructures ce) = length infras"
      using ce(3) by (simp add: list_all2_lengthD)
    have il: "infrastructures_loop self (cd_id c) infras [] tv =
                Some (Inr (infrastructures ce, tv + count_vm_clusters_in (infrastructures ce)))"
      using infrastructures_loop_complete[OF ce(3), of "[]" tv] by simp
    have eq: "\<lparr>compartment_id = cd_id c, compartment_name = cd_name c,
               infrastructures = infrastructures ce\<rparr> = ce"
      using ce(1,2) by simp
    have c1: "count_infrastructures (ce # new') = length infras + count_infrastructures new'"
      using len by (simp add: count_infrastructures_def)
    have c2: "count_vm_clusters (ce # new') =
                count_vm_clusters_in (infrastructures ce) + count_vm_clusters new'"
      by (simp add: count_vm_clusters_def)
    show ?thesis
      using l False il
        Cons.IH[OF all new(3), of "acc @ [ce]" "ti + length infras"
                  "tv + count_vm_clusters_in (infrastructures ce)"]
      by (simp add: Let_def eq new(1) c1 c2)
  qed
qed

lemma compartments_loop_raises:
  "compartments_loop self cs acc ti tv = Some (Inl e) \<Longrightarrow>
     \<exists>c\<in>set cs.
        list_exadata_infrastructures self (cd_id c) = Some (Inl e) \<or>
        (\<exists>infras acc' tv'. list_exadata_infrastructures self (cd_id c) = Some (Inr infras) \<and>
           infrastructures_loop self (cd_id c) infras acc' tv' = Some (Inl e))"
proof (induction cs arbitrary: acc ti tv)
  case Nil
  then show ?case by simp
next
  case (Cons c rest)
  show ?case
  proof (cases "list_exadata_infrastructures self (cd_id c)")
    case None
    with Cons.prems show ?thesis by (simp add: Let_def)
  next
    case (Some r)
    show ?thesis
    proof (cases r)
      case (Inl e')
      with Cons.prems Some show ?thesis by (simp add: Let_def)
    next
      case infras: (Inr infras)
      show ?thesis
      proof (cases "infras = []")
        case True
        with Cons.prems Some infras have
          "compartments_loop self rest acc ti tv = Some (Inl e)"
          by (simp add: Let_def)
        from Cons.IH[OF this] show ?thesis by auto
      next
        case False
        show ?thesis
        proof (cases "infrastructures_loop self (cd_id c) infras [] tv")
          case None
          with Cons.prems Some infras False show ?thesis by (simp add: Let_def)
        next
          case il: (Some r')
          show ?thesis
          proof (cases r')
            case (Inl e')
            with Cons.prems Some infras False il have "e' = e" by (simp add: Let_def)
            with Inl il Some infras show ?thesis by auto
          next
            case res: (Inr res)
            obtain es tv1 where "res = (es, tv1)" by (cases res)
            with Cons.prems Some infras False il res obtain acc' ti' where
              "compartments_loop self rest acc' ti' tv1 = Some (Inl e)"
              by (simp add: Let_def)
            from Cons.IH[OF this] show ?thesis by auto
          qed
        qed
      qed
    qed
  qed
qed

section \<open>Facts about the example tenancy\<close>

lemma demo_infra_chain:
  "cursor_chain (\<lambda>pg. db_list_exadata_infrastructures demo_fetcher ''a'' ''DISPLAYNAME'' ''ASC'' pg)
     None
     [[\<lparr>is_id = ''i1'', is_display_name = ''exa1'', is_lifecycle_state = ''ACTIVE''\<rparr>], [],
      [\<lparr>is_id = ''i2'', is_display_name = ''exa2'', is_lifecycle_state = ''ACTIVE''\<rparr>]]"
proof -
  let ?call = "\<lambda>pg. db_list_exadata_infrastructures demo_fetcher ''a'' ''DISPLAYNAME'' ''ASC'' pg"
  let ?i1 = "\<lparr>is_id = ''i1'', is_display_name = ''exa1'', is_lifecycle_state = ''ACTIVE''\<rparr>"
  let ?i2 = "\<lparr>is_id = ''i2'', is_display_name = ''exa2'', is_lifecycle_state = ''ACTIVE''\<rparr>"
  have 3: "cursor_chain ?call (Some ''3'') [[?i2]]"
    using cursor_chain.last_page[of ?call "Some ''3''" "\<lparr>data = [?i2], next_page = Some []\<rparr>"]
    by (simp add: demo_fetcher_def not_page_def)
  have 2: "cursor_chain ?call (Some ''2'') [[], [?i2]]"
    using cursor_chain.more_pages[of ?call "Some ''2''" "\<lparr>data = [], next_page = Some ''3''\<rparr>"
            "[[?i2]]"] 3
    by (simp add: demo_fetcher_def not_page_def)
  show ?thesis
    using cursor_chain.more_pages[of ?call None "\<lparr>data = [?i1], next_page = Some ''2''\<rparr>"
            "[[], [?i2]]"] 2
    by (simp add: demo_fetcher_def not_page_def)
qed

lemma demo_cluster_chain:
  "cursor_chain
     (\<lambda>pg. db_list_vm_clusters demo_fetcher ''a'' (Some ''i1'') ''DISPLAYNAME'' ''ASC'' pg) None
     [[\<lparr>vs_id = ''k1'', vs_display_name = ''vm1'', vs_lifecycle_state = ''AVAILABLE''\<rparr>],
      [\<lparr>vs_id = ''k2'', vs_display_name = ''vm2'', vs_lifecycle_state = ''AVAILABLE''\<rparr>]]"
proof -
  let ?call = "\<lambda>pg. db_list_vm_clusters demo_fetcher ''a'' (Some ''i1'') ''DISPLAYNAME'' ''ASC'' pg"
  let ?k1 = "\<lparr>vs_id = ''k1'', vs_display_name = ''vm1'', vs_lifecycle_state = ''AVAILABLE''\<rparr>"
  let ?k2 = "\<lparr>vs_id = ''k2'', vs_display_name = ''vm2'', vs_lifecycle_state = ''AVAILABLE''\<rparr>"
  have 2: "cursor_chain ?call (Some ''2'') [[?k2]]"
    using cursor_chain.last_page[of ?call "Some ''2''" "\<lparr>data = [?k2], next_page = None\<rparr>"]
    by (simp add: demo_fetcher_def not_page_def)
  show ?thesis
    using cursor_chain.more_pages[of ?call None "\<lparr>data = [?k1], next_page = Some ''2''\<rparr>"
            "[[?k2]]"] 2
    by (simp add: demo_fetcher_def not_page_def)
qed

lemma take_min_length: "take n xs = take (min n (length xs)) xs"
  by (cases "n \<le> length xs") (simp_all add: min_def)

section \<open>The paginated listings return the pages in order\<close>

text \<open>
  Claim C8.  When the cursor chain of a scope is finite, that is, when following the cursors
  from the first call reaches a response without a cursor, the loops of
  \<open>list_exadata_infrastructures\<close> and of \<open>list_vm_clusters\<close> end and return the items of all
  the pages, concatenated in the order of the pages.  Nothing is assumed about the sizes of
  the pages, and a page may be empty.
\<close>

theorem paginated_listing_concatenates_pages:
  "(cursor_chain (\<lambda>pg. db_list_exadata_infrastructures self cid ''DISPLAYNAME'' ''ASC'' pg)
       None ds \<longrightarrow>
      list_exadata_infrastructures self cid = Some (Inr (concat ds))) \<and>
   (cursor_chain (\<lambda>pg. db_list_vm_clusters self cid iid ''DISPLAYNAME'' ''ASC'' pg)
       None ds' \<longrightarrow>
      list_vm_clusters self cid iid = Some (Inr (concat ds')))"
  using infra_loop_chain[of _ None ds "[]"] cluster_loop_chain[of _ None ds' "[]"]
  by (simp add: list_exadata_infrastructures_def list_vm_clusters_def)

theorem paginated_listing_concatenates_pages_witness:
  "cursor_chain (\<lambda>pg. db_list_exadata_infrastructures demo_fetcher ''a'' ''DISPLAYNAME'' ''ASC'' pg)
     None
     [[\<lparr>is_id = ''i1'', is_display_name = ''exa1'', is_lifecycle_state = ''ACTIVE''\<rparr>], [],
      [\<lparr>is_id = ''i2'', is_display_name = ''exa2'', is_lifecycle_state = ''ACTIVE''\<rparr>]] \<and>
   list_exadata_infrastructures demo_fetcher ''a'' =
     Some (Inr [\<lparr>is_id = ''i1'', is_display_name = ''exa1'', is_lifecycle_state = ''ACTIVE''\<rparr>,
                \<lparr>is_id = ''i2'', is_display_name = ''exa2'', is_lifecycle_state = ''ACTIVE''\<rparr>]) \<and>
   cursor_chain
     (\<lambda>pg. db_list_vm_clusters demo_fetcher ''a'' (Some ''i1'') ''DISPLAYNAME'' ''ASC'' pg) None
     [[\<lparr>vs_id = ''k1'', vs_display_name = ''vm1'', vs_lifecycle_state = ''AVAILABLE''\<rparr>],
      [\<lparr>vs_id = ''k2'', vs_display_name = ''vm2'', vs_lifecycle_state = ''AVAILABLE''\<rparr>]] \<and>
   list_vm_clusters demo_fetcher ''a'' (Some ''i1'') =
     Some (Inr [\<lparr>vs_id = ''k1'', vs_display_name = ''vm1'', vs_lifecycle_state = ''AVAILABLE''\<rparr>,
                \<lparr>vs_id = ''k2'', vs_display_name = ''vm2'', vs_lifecycle_state = ''AVAILABLE''\<rparr>])"
  using demo_infra_chain demo_cluster_chain
    paginated_listing_concatenates_pages[of demo_fetcher "''a''"
      "[[\<lparr>is_id = ''i1'', is_display_name = ''exa1'', is_lifecycle_state = ''ACTIVE''\<rparr>], [],
        [\<lparr>is_id = ''i2'', is_display_name = ''exa2'', is_lifecycle_state = ''ACTIVE''\<rparr>]]"
      "Some ''i1''"
      "[[\<lparr>vs_id = ''k1'', vs_display_name = ''vm1'', vs_lifecycle_state = ''AVAILABLE''\<rparr>],
        [\<lparr>vs_id = ''k2'', vs_display_name = ''vm2'', vs_lifecycle_state = ''AVAILABLE''\<rparr>]]"]
  by simp

section \<open>The patch list of a VM cluster\<close>

text \<open>
  Claim C6.  For every VM cluster whose basic record can be fetched, the detail fetcher
  returns a record, whatever the listing of the patches does.  The patch list of that record
  has at most five entries: it is the first \<open>min 5 n\<close> of the \<open>n\<close> entries the provider
  returned, in the provider's order, and it is the empty list when the listing of the
  patches fails.
\<close>

theorem vm_cluster_patches_truncated:
  "db_get_vm_cluster self vm_cluster_id = Inr c \<Longrightarrow>
     \<exists>d. get_vm_cluster_details self vm_cluster_id = Inr d \<and> cluster d = c \<and>
       length (patches d) \<le> 5 \<and>
       (\<forall>ps. db_list_vm_cluster_patches self vm_cluster_id = Inr ps \<longrightarrow>
          patches d = take (min 5 (length ps)) ps) \<and>
       (\<forall>e. db_list_vm_cluster_patches self vm_cluster_id = Inl e \<longrightarrow> patches d = [])"
  using take_min_length[of 5]
  by (cases "db_list_vm_cluster_patches self vm_cluster_id")
     (simp_all add: get_vm_cluster_details_def Let_def)

theorem vm_cluster_patches_truncated_witness:
  "db_get_vm_cluster demo_fetcher ''k1'' = Inr (demo_cluster ''k1'' ''vm1'') \<and>
   db_list_vm_cluster_patches demo_fetcher ''k1'' = Inr demo_patches \<and>
   length demo_patches = 7 \<and>
   get_vm_cluster_details demo_fetcher ''k1'' =
     Inr \<lparr>cluster = demo_cluster ''k1'' ''vm1'',
          iorm_config = Some \<lparr>iorm_lifecycle_state = ''ACTIVE'', iorm_objective = ''AUTO''\<rparr>,
          patches = take 5 demo_patches\<rparr> \<and>
   length (take 5 demo_patches) = 5 \<and>
   db_get_vm_cluster demo_fetcher ''k2'' = Inr (demo_cluster ''k2'' ''vm2'') \<and>
   db_list_vm_cluster_patches demo_fetcher ''k2'' = Inl not_found \<and>
   get_vm_cluster_details demo_fetcher ''k2'' =
     Inr \<lparr>cluster = demo_cluster ''k2'' ''vm2'', iorm_config = None, patches = []\<rparr>"
proof -
  have b1: "db_get_vm_cluster demo_fetcher ''k1'' = Inr (demo_cluster ''k1'' ''vm1'')"
    and p1: "db_list_vm_cluster_patches demo_fetcher ''k1'' = Inr demo_patches"
    and b2: "db_get_vm_cluster demo_fetcher ''k2'' = Inr (demo_cluster ''k2'' ''vm2'')"
    and p2: "db_list_vm_cluster_patches demo_fetcher ''k2'' = Inl not_found"
    by (simp_all add: demo_fetcher_def)
  have l: "length demo_patches = 7" by (simp add: demo_patches_def)
  from vm_cluster_patches_truncated[OF b1] p1 obtain d1 where
    d1: "get_vm_cluster_details demo_fetcher ''k1'' = Inr d1"
      "cluster d1 = demo_cluster ''k1'' ''vm1''"
      "patches d1 = take (min 5 (length demo_patches)) demo_patches"
    by blast
  from vm_cluster_patches_truncated[OF b2] p2 obtain d2 where
    d2: "get_vm_cluster_details demo_fetcher ''k2'' = Inr d2"
      "cluster d2 = demo_cluster ''k2'' ''vm2''" "patches d2 = []"
    by blast
  have i1: "iorm_config d1 = Some \<lparr>iorm_lifecycle_state = ''ACTIVE'', iorm_objective = ''AUTO''\<rparr>"
    using d1(1) by (auto simp: get_vm_cluster_details_def demo_fetcher_def)
  have i2: "iorm_config d2 = None"
    using d2(1) by (auto simp: get_vm_cluster_details_def demo_fetcher_def)
  have e1: "d1 = \<lparr>cluster = demo_cluster ''k1'' ''vm1'',
          iorm_config = Some \<lparr>iorm_lifecycle_state = ''ACTIVE'', iorm_objective = ''AUTO''\<rparr>,
          patches = take 5 demo_patches\<rparr>"
    using d1(2,3) i1 l by (cases d1) simp
  have e2: "d2 = \<lparr>cluster = demo_cluster ''k2'' ''vm2'', iorm_config = None, patches = []\<rparr>"
    using d2(2,3) i2 by (cases d2) simp
  show ?thesis using b1 p1 b2 p2 l d1(1) d2(1) e1 e2 by simp
qed

lemma demo_compartment_chain:
  "cursor_chain
     (\<lambda>pg. identity_list_compartments demo_fetcher (self_tenancy_id demo_fetcher) True
              ''ACCESSIBLE'' pg)
     None
     [[\<lparr>c_id = ''a'', c_name = ''alpha'', c_lifecycle_state = ''ACTIVE''\<rparr>],
      [\<lparr>c_id = ''d'', c_name = ''delta'', c_lifecycle_state = ''DELETED''\<rparr>,
       \<lparr>c_id = ''b'', c_name = ''beta'', c_lifecycle_state = ''ACTIVE''\<rparr>]]"
proof -
  let ?call = "\<lambda>pg. identity_list_compartments demo_fetcher (self_tenancy_id demo_fetcher) True
                 ''ACCESSIBLE'' pg"
  let ?a = "\<lparr>c_id = ''a'', c_name = ''alpha'', c_lifecycle_state = ''ACTIVE''\<rparr>"
  let ?d = "\<lparr>c_id = ''d'', c_name = ''delta'', c_lifecycle_state = ''DELETED''\<rparr>"
  let ?b = "\<lparr>c_id = ''b'', c_name = ''beta'', c_lifecycle_state = ''ACTIVE''\<rparr>"
  have 2: "cursor_chain ?call (Some ''2'') [[?d, ?b]]"
    using cursor_chain.last_page[of ?call "Some ''2''" "\<lparr>data = [?d, ?b], next_page = None\<rparr>"]
    by (simp add: demo_fetcher_def not_page_def)
  show ?thesis
    using cursor_chain.more_pages[of ?call None "\<lparr>data = [?a], next_page = Some ''2''\<rparr>"
            "[[?d, ?b]]"] 2
    by (simp add: demo_fetcher_def not_page_def)
qed

section \<open>Container discovery\<close>

text \<open>
  Claim C5, as amended.  When the tenancy record can be fetched and the cursor chain of the
  compartment listing is finite, \<open>list_all_compartments\<close> returns the root first, with the
  synthetic state \<open>ACTIVE\<close> and \<open>is_root\<close> true, followed by exactly the \<open>ACTIVE\<close> compartments of
  the provider's subtree listing, in the provider's order, each with \<open>is_root\<close> false.  The
  result is not deduplicated: it repeats what the provider repeats.
\<close>

theorem list_all_compartments_root_then_active:
  assumes "identity_get_tenancy self (self_tenancy_id self) = Inr t"
    and "cursor_chain
           (\<lambda>pg. identity_list_compartments self (self_tenancy_id self) True ''ACCESSIBLE'' pg)
           None ds"
  shows "list_all_compartments self =
           Some (Inr (\<lparr>cd_id = t_id t, cd_name = t_name t, cd_lifecycle_state = ''ACTIVE'',
                        cd_is_root = True\<rparr> #
                      map compartment_to_dict
                        (filter (\<lambda>c. c_lifecycle_state c = ''ACTIVE'') (concat ds)))) \<and>
         (\<forall>c\<in>set (map compartment_to_dict
                      (filter (\<lambda>c. c_lifecycle_state c = ''ACTIVE'') (concat ds))).
            cd_lifecycle_state c = ''ACTIVE'' \<and> \<not> cd_is_root c)"
proof
  show "list_all_compartments self =
           Some (Inr (\<lparr>cd_id = t_id t, cd_name = t_name t, cd_lifecycle_state = ''ACTIVE'',
                        cd_is_root = True\<rparr> #
                      map compartment_to_dict
                        (filter (\<lambda>c. c_lifecycle_state c = ''ACTIVE'') (concat ds))))"
    using assms(1) compartment_loop_chain[OF assms(2)]
    by (simp add: list_all_compartments_def)
  show "\<forall>c\<in>set (map compartment_to_dict
                      (filter (\<lambda>c. c_lifecycle_state c = ''ACTIVE'') (concat ds))).
            cd_lifecycle_state c = ''ACTIVE'' \<and> \<not> cd_is_root c"
    by (auto simp: compartment_to_dict_def)
qed

theorem list_all_compartments_root_then_active_witness:
  "identity_get_tenancy demo_fetcher (self_tenancy_id demo_fetcher) =
     Inr \<lparr>t_id = ''t'', t_name = ''root''\<rparr> \<and>
   cursor_chain
     (\<lambda>pg. identity_list_compartments demo_fetcher (self_tenancy_id demo_fetcher) True
              ''ACCESSIBLE'' pg)
     None
     [[\<lparr>c_id = ''a'', c_name = ''alpha'', c_lifecycle_state = ''ACTIVE''\<rparr>],
      [\<lparr>c_id = ''d'', c_name = ''delta'', c_lifecycle_state = ''DELETED''\<rparr>,
       \<lparr>c_id = ''b'', c_name = ''beta'', c_lifecycle_state = ''ACTIVE''\<rparr>]] \<and>
   list_all_compartments demo_fetcher =
     Some (Inr [\<lparr>cd_id = ''t'', cd_name = ''root'', cd_lifecycle_state = ''ACTIVE'',
                 cd_is_root = True\<rparr>,
                \<lparr>cd_id = ''a'', cd_name = ''alpha'', cd_lifecycle_state = ''ACTIVE'',
                 cd_is_root = False\<rparr>,
                \<lparr>cd_id = ''b'', cd_name = ''beta'', cd_lifecycle_state = ''ACTIVE'',
                 cd_is_root = False\<rparr>])"
proof -
  have t: "identity_get_tenancy demo_fetcher (self_tenancy_id demo_fetcher) =
             Inr \<lparr>t_id = ''t'', t_name = ''root''\<rparr>"
    by (simp add: demo_fetcher_def)
  from list_all_compartments_root_then_active[OF t demo_compartment_chain] t
    demo_compartment_chain
  show ?thesis by (simp add: compartment_to_dict_def)
qed

text \<open>
  The claim as first stated asks for identifiers without repetition.  A provider that lists
  one compartment on two pages gets it twice in the result.
\<close>

theorem list_all_compartments_not_deduplicated:
  "list_all_compartments repeating_fetcher =
     Some (Inr [\<lparr>cd_id = ''t'', cd_name = ''root'', cd_lifecycle_state = ''ACTIVE'',
                 cd_is_root = True\<rparr>,
                \<lparr>cd_id = ''a'', cd_name = ''alpha'', cd_lifecycle_state = ''ACTIVE'',
                 cd_is_root = False\<rparr>,
                \<lparr>cd_id = ''a'', cd_name = ''alpha'', cd_lifecycle_state = ''ACTIVE'',
                 cd_is_root = False\<rparr>]) \<and>
   \<not> distinct (map cd_id
        [\<lparr>cd_id = ''t'', cd_name = ''root'', cd_lifecycle_state = ''ACTIVE'', cd_is_root = True\<rparr>,
         \<lparr>cd_id = ''a'', cd_name = ''alpha'', cd_lifecycle_state = ''ACTIVE'', cd_is_root = False\<rparr>,
         \<lparr>cd_id = ''a'', cd_name = ''alpha'', cd_lifecycle_state = ''ACTIVE'',
          cd_is_root = False\<rparr>])"
  by (simp add: list_all_compartments_def list_compartments_recursive.simps
        repeating_fetcher_def demo_fetcher_def not_page_def Let_def)

section \<open>Facts about the whole traversal\<close>

lemma fetch_all_data_locals_sound:
  assumes "fetch_all_data_locals self = Some (Inr (rep, ti, tv))"
  shows "\<exists>comps. list_all_compartments self = Some (Inr comps) \<and>
           (\<forall>c\<in>set comps. \<exists>infras.
               list_exadata_infrastructures self (cd_id c) = Some (Inr infras)) \<and>
           list_all2 (compartment_scanned self) (filter (has_infrastructures self) comps)
             (compartments rep)"
    and "tenancy_id rep = self_tenancy_id self"
    and "ti = count_infrastructures (compartments rep)"
    and "tv = count_vm_clusters (compartments rep)"
proof -
  from assms obtain comps ces where
    comps: "list_all_compartments self = Some (Inr comps)"
    and loop: "compartments_loop self comps [] 0 0 = Some (Inr (ces, ti, tv))"
    and rep: "rep = \<lparr>tenancy_id = self_tenancy_id self, compartments = ces\<rparr>"
    by (auto simp: fetch_all_data_locals_def split: option.splits sum.splits prod.splits)
  from compartments_loop_sound[OF loop] have
    all: "\<forall>c\<in>set comps. \<exists>infras. list_exadata_infrastructures self (cd_id c) = Some (Inr infras)"
    and rel: "list_all2 (compartment_scanned self) (filter (has_infrastructures self) comps) ces"
    and cnt: "ti = count_infrastructures ces" "tv = count_vm_clusters ces"
    by auto
  show "\<exists>comps. list_all_compartments self = Some (Inr comps) \<and>
           (\<forall>c\<in>set comps. \<exists>infras.
               list_exadata_infrastructures self (cd_id c) = Some (Inr infras)) \<and>
           list_all2 (compartment_scanned self) (filter (has_infrastructures self) comps)
             (compartments rep)"
    using comps all rel rep by auto
  show "tenancy_id rep = self_tenancy_id self" using rep by simp
  show "ti = count_infrastructures (compartments rep)" using cnt rep by simp
  show "tv = count_vm_clusters (compartments rep)" using cnt rep by simp
qed

lemma fetch_all_data_locals_of_report:
  "fetch_all_data self = Some (Inr rep) \<Longrightarrow>
     \<exists>ti tv. fetch_all_data_locals self = Some (Inr (rep, ti, tv))"
  by (cases "fetch_all_data_locals self")
     (auto simp: fetch_all_data_def map_sum_def split: sum.splits)

lemma fetch_all_data_sound:
  assumes "fetch_all_data self = Some (Inr rep)"
  shows "\<exists>comps. list_all_compartments self = Some (Inr comps) \<and>
           (\<forall>c\<in>set comps. \<exists>infras.
               list_exadata_infrastructures self (cd_id c) = Some (Inr infras)) \<and>
           list_all2 (compartment_scanned self) (filter (has_infrastructures self) comps)
             (compartments rep)"
  using fetch_all_data_locals_of_report[OF assms] fetch_all_data_locals_sound(1) by blast

lemma fetch_all_data_locals_complete:
  assumes "list_all_compartments self = Some (Inr comps)"
    and "\<forall>c\<in>set comps. \<exists>infras. list_exadata_infrastructures self (cd_id c) = Some (Inr infras)"
    and "list_all2 (compartment_scanned self) (filter (has_infrastructures self) comps) ces"
  shows "fetch_all_data_locals self =
           Some (Inr (\<lparr>tenancy_id = self_tenancy_id self, compartments = ces\<rparr>,
                      count_infrastructures ces, count_vm_clusters ces))"
  using assms(1) compartments_loop_complete[OF assms(2,3), of "[]" 0 0]
  by (simp add: fetch_all_data_locals_def)

lemma list_all2_in_right:
  "list_all2 P xs ys \<Longrightarrow> y \<in> set ys \<Longrightarrow> \<exists>x\<in>set xs. P x y"
  by (induction rule: list_all2_induct) auto

lemma list_all2_in_left:
  "list_all2 P xs ys \<Longrightarrow> x \<in> set xs \<Longrightarrow> \<exists>y\<in>set ys. P x y"
  by (induction rule: list_all2_induct) auto

lemma list_all2_map_eq:
  "list_all2 P xs ys \<Longrightarrow> (\<And>x y. P x y \<Longrightarrow> f x = g y) \<Longrightarrow> map f xs = map g ys"
  by (induction rule: list_all2_induct) auto

lemma report_entries_scanned:
  assumes "fetch_all_data self = Some (Inr rep)" and "ce \<in> set (compartments rep)"
  shows "\<exists>infras. list_exadata_infrastructures self (compartment_id ce) = Some (Inr infras) \<and>
           infras \<noteq> [] \<and>
           list_all2 (infra_fetched self (compartment_id ce)) infras (infrastructures ce)"
proof -
  from fetch_all_data_sound[OF assms(1)] obtain comps where
    "list_all2 (compartment_scanned self) (filter (has_infrastructures self) comps)
       (compartments rep)"
    by blast
  from list_all2_in_right[OF this assms(2)] obtain c where "compartment_scanned self c ce"
    by blast
  then show ?thesis by (auto simp: compartment_scanned_def)
qed

lemma demo_locals: "fetch_all_data_locals demo_fetcher = Some (Inr (demo_report, 2, 2))"
  by (simp add: fetch_all_data_locals_def list_all_compartments_def
        list_compartments_recursive.simps list_exadata_infrastructures_def
        list_exadata_infrastructures_loop.simps list_vm_clusters_def list_vm_clusters_loop.simps
        get_exadata_infrastructure_details_def get_vm_cluster_details_def
        demo_fetcher_def demo_report_def not_page_def demo_patches_def Let_def)

lemma demo_run: "fetch_all_data demo_fetcher = Some (Inr demo_report)"
  by (simp add: fetch_all_data_def demo_locals)

lemma demo_infra_listing:
  "list_exadata_infrastructures demo_fetcher cid =
     Some (Inr (if cid = ''a'' then
        [\<lparr>is_id = ''i1'', is_display_name = ''exa1'', is_lifecycle_state = ''ACTIVE''\<rparr>,
         \<lparr>is_id = ''i2'', is_display_name = ''exa2'', is_lifecycle_state = ''ACTIVE''\<rparr>]
        else []))"
  by (simp add: list_exadata_infrastructures_def demo_fetcher_def
        list_exadata_infrastructures_loop.simps not_page_def)

lemma demo_cluster_listing:
  "list_vm_clusters demo_fetcher cid iid =
     Some (Inr (if cid = ''a'' \<and> iid = Some ''i1'' then
        [\<lparr>vs_id = ''k1'', vs_display_name = ''vm1'', vs_lifecycle_state = ''AVAILABLE''\<rparr>,
         \<lparr>vs_id = ''k2'', vs_display_name = ''vm2'', vs_lifecycle_state = ''AVAILABLE''\<rparr>]
        else []))"
  by (simp add: list_vm_clusters_def demo_fetcher_def list_vm_clusters_loop.simps not_page_def)

lemma demo_compartments:
  "list_all_compartments demo_fetcher =
     Some (Inr [\<lparr>cd_id = ''t'', cd_name = ''root'', cd_lifecycle_state = ''ACTIVE'',
                 cd_is_root = True\<rparr>,
                \<lparr>cd_id = ''a'', cd_name = ''alpha'', cd_lifecycle_state = ''ACTIVE'',
                 cd_is_root = False\<rparr>,
                \<lparr>cd_id = ''b'', cd_name = ''beta'', cd_lifecycle_state = ''ACTIVE'',
                 cd_is_root = False\<rparr>])"
  by (simp add: list_all_compartments_def list_compartments_recursive.simps
        demo_fetcher_def not_page_def Let_def)

lemma infra_details_base:
  "get_exadata_infrastructure_details self x = Inr d \<Longrightarrow>
     db_get_exadata_infrastructure self x = Inr (infrastructure d)"
  by (auto simp: get_exadata_infrastructure_details_def Let_def split: sum.splits)

lemma cluster_details_base:
  "get_vm_cluster_details self x = Inr d \<Longrightarrow> db_get_vm_cluster self x = Inr (cluster d)"
  by (auto simp: get_vm_cluster_details_def Let_def split: sum.splits)

lemma infra_fetched_base:
  assumes "infra_fetched self comp_id i e"
  shows "db_get_exadata_infrastructure self (is_id i) = Inr (infrastructure (details e)) \<and>
         (\<exists>cls. list_vm_clusters self comp_id (Some (is_id i)) = Some (Inr cls) \<and>
            list_all2 (\<lambda>cl d. db_get_vm_cluster self (vs_id cl) = Inr (cluster d))
              cls (vm_clusters e))"
proof -
  from assms obtain cls where
    d: "get_exadata_infrastructure_details self (is_id i) = Inr (details e)"
    and cls: "list_vm_clusters self comp_id (Some (is_id i)) = Some (Inr cls)"
    and rel: "list_all2 (cluster_fetched self) cls (vm_clusters e)"
    by (auto simp: infra_fetched_def)
  have "list_all2 (\<lambda>cl d. db_get_vm_cluster self (vs_id cl) = Inr (cluster d))
          cls (vm_clusters e)"
    using rel by (rule list_all2_mono) (simp add: cluster_fetched_def cluster_details_base)
  with infra_details_base[OF d] cls show ?thesis by blast
qed

lemma demo_sorted_listings: "sorted_listings demo_fetcher"
  unfolding sorted_listings_def
proof (intro conjI allI impI ballI)
  fix cid infras
  assume "list_exadata_infrastructures demo_fetcher cid = Some (Inr infras)"
  then have infras: "infras = (if cid = ''a'' then
        [\<lparr>is_id = ''i1'', is_display_name = ''exa1'', is_lifecycle_state = ''ACTIVE''\<rparr>,
         \<lparr>is_id = ''i2'', is_display_name = ''exa2'', is_lifecycle_state = ''ACTIVE''\<rparr>]
        else [])"
    by (simp add: demo_infra_listing)
  then show "sorted_wrt (<) (map is_display_name infras)" by simp
  fix i b
  assume "i \<in> set infras" "db_get_exadata_infrastructure demo_fetcher (is_id i) = Inr b"
  with infras show "inf_display_name b = is_display_name i"
    by (auto simp: demo_fetcher_def demo_infra_def split: if_splits)
next
  fix cid iid cls
  assume "list_vm_clusters demo_fetcher cid iid = Some (Inr cls)"
  then have cls: "cls = (if cid = ''a'' \<and> iid = Some ''i1'' then
        [\<lparr>vs_id = ''k1'', vs_display_name = ''vm1'', vs_lifecycle_state = ''AVAILABLE''\<rparr>,
         \<lparr>vs_id = ''k2'', vs_display_name = ''vm2'', vs_lifecycle_state = ''AVAILABLE''\<rparr>]
        else [])"
    by (simp add: demo_cluster_listing)
  then show "sorted_wrt (<) (map vs_display_name cls)" by simp
  fix cl b
  assume "cl \<in> set cls" "db_get_vm_cluster demo_fetcher (vs_id cl) = Inr b"
  with cls show "vc_display_name b = vs_display_name cl"
    by (auto simp: demo_fetcher_def demo_cluster_def split: if_splits)
qed

section \<open>Order of the entries of the report\<close>

text \<open>
  Claim C1, as amended.  The report keeps the order in which the provider answered; the
  script sorts nothing itself.  The compartment entries follow the order of discovery: the
  root first, then the provider's listing, without the compartments that hold no
  infrastructure.  The infrastructure entries of a compartment and the VM-cluster entries of
  an infrastructure follow the listings of the provider, position by position.  Hence, for a
  provider that returns its listings strictly ascending by display name, as the script
  requests, the infrastructure entries and the VM-cluster entries are strictly ascending by
  display name (lexicographic by byte value).
\<close>

theorem report_follows_listing_order:
  assumes "fetch_all_data self = Some (Inr rep)"
  shows "(\<exists>comps. list_all_compartments self = Some (Inr comps) \<and>
            map compartment_name (compartments rep) =
              map cd_name (filter (has_infrastructures self) comps)) \<and>
         (\<forall>ce\<in>set (compartments rep).
            \<exists>infras. list_exadata_infrastructures self (compartment_id ce) = Some (Inr infras) \<and>
              list_all2
                (\<lambda>i e. db_get_exadata_infrastructure self (is_id i) =
                          Inr (infrastructure (details e)) \<and>
                   (\<exists>cls. list_vm_clusters self (compartment_id ce) (Some (is_id i)) =
                             Some (Inr cls) \<and>
                      list_all2 (\<lambda>cl d. db_get_vm_cluster self (vs_id cl) = Inr (cluster d))
                        cls (vm_clusters e)))
                infras (infrastructures ce)) \<and>
         (sorted_listings self \<longrightarrow>
            (\<forall>ce\<in>set (compartments rep).
               sorted_wrt (<)
                 (map (\<lambda>e. inf_display_name (infrastructure (details e))) (infrastructures ce)) \<and>
               (\<forall>e\<in>set (infrastructures ce).
                  sorted_wrt (<) (map (\<lambda>d. vc_display_name (cluster d)) (vm_clusters e)))))"
proof (intro conjI)
  from fetch_all_data_sound[OF assms] obtain comps where
    comps: "list_all_compartments self = Some (Inr comps)"
    and rel: "list_all2 (compartment_scanned self) (filter (has_infrastructures self) comps)
                (compartments rep)"
    by blast
  have "map cd_name (filter (has_infrastructures self) comps) =
          map compartment_name (compartments rep)"
    using rel by (rule list_all2_map_eq) (simp add: compartment_scanned_def)
  with comps show "\<exists>comps. list_all_compartments self = Some (Inr comps) \<and>
            map compartment_name (compartments rep) =
              map cd_name (filter (has_infrastructures self) comps)"
    by auto
  have order: "\<exists>infras. list_exadata_infrastructures self (compartment_id ce) = Some (Inr infras) \<and>
              list_all2
                (\<lambda>i e. db_get_exadata_infrastructure self (is_id i) =
                          Inr (infrastructure (details e)) \<and>
                   (\<exists>cls. list_vm_clusters self (compartment_id ce) (Some (is_id i)) =
                             Some (Inr cls) \<and>
                      list_all2 (\<lambda>cl d. db_get_vm_cluster self (vs_id cl) = Inr (cluster d))
                        cls (vm_clusters e)))
                infras (infrastructures ce)"
    if "ce \<in> set (compartments rep)" for ce
  proof -
    from report_entries_scanned[OF assms that] obtain infras where
      l: "list_exadata_infrastructures self (compartment_id ce) = Some (Inr infras)"
      and r: "list_all2 (infra_fetched self (compartment_id ce)) infras (infrastructures ce)"
      by blast
    have "list_all2
            (\<lambda>i e. db_get_exadata_infrastructure self (is_id i) =
                      Inr (infrastructure (details e)) \<and>
               (\<exists>cls. list_vm_clusters self (compartment_id ce) (Some (is_id i)) =
                         Some (Inr cls) \<and>
                  list_all2 (\<lambda>cl d. db_get_vm_cluster self (vs_id cl) = Inr (cluster d))
                    cls (vm_clusters e)))
            infras (infrastructures ce)"
      using r by (rule list_all2_mono) (rule infra_fetched_base)
    with l show ?thesis by blast
  qed
  then show "\<forall>ce\<in>set (compartments rep).
            \<exists>infras. list_exadata_infrastructures self (compartment_id ce) = Some (Inr infras) \<and>
              list_all2
                (\<lambda>i e. db_get_exadata_infrastructure self (is_id i) =
                          Inr (infrastructure (details e)) \<and>
                   (\<exists>cls. list_vm_clusters self (compartment_id ce) (Some (is_id i)) =
                             Some (Inr cls) \<and>
                      list_all2 (\<lambda>cl d. db_get_vm_cluster self (vs_id cl) = Inr (cluster d))
                        cls (vm_clusters e)))
                infras (infrastructures ce)"
    by blast
  show "sorted_listings self \<longrightarrow>
            (\<forall>ce\<in>set (compartments rep).
               sorted_wrt (<)
                 (map (\<lambda>e. inf_display_name (infrastructure (details e))) (infrastructures ce)) \<and>
               (\<forall>e\<in>set (infrastructures ce).
                  sorted_wrt (<) (map (\<lambda>d. vc_display_name (cluster d)) (vm_clusters e))))"
  proof (intro impI ballI conjI)
    fix ce assume sl: "sorted_listings self" and ce: "ce \<in> set (compartments rep)"
    from order[OF ce] obtain infras where
      l: "list_exadata_infrastructures self (compartment_id ce) = Some (Inr infras)"
      and r: "list_all2
                (\<lambda>i e. db_get_exadata_infrastructure self (is_id i) =
                          Inr (infrastructure (details e)) \<and>
                   (\<exists>cls. list_vm_clusters self (compartment_id ce) (Some (is_id i)) =
                             Some (Inr cls) \<and>
                      list_all2 (\<lambda>cl d. db_get_vm_cluster self (vs_id cl) = Inr (cluster d))
                        cls (vm_clusters e)))
                infras (infrastructures ce)"
      by blast
    from sl l have s: "sorted_wrt (<) (map is_display_name infras)"
      and n: "\<And>i b. i \<in> set infras \<Longrightarrow> db_get_exadata_infrastructure self (is_id i) = Inr b \<Longrightarrow>
                inf_display_name b = is_display_name i"
      by (auto simp: sorted_listings_def)
    have r': "list_all2
                (\<lambda>i e. i \<in> set infras \<and> db_get_exadata_infrastructure self (is_id i) =
                          Inr (infrastructure (details e)))
                infras (infrastructures ce)"
      using r by (auto simp: list_all2_conv_all_nth)
    have "map is_display_name infras =
            map (\<lambda>e. inf_display_name (infrastructure (details e))) (infrastructures ce)"
      using r' by (rule list_all2_map_eq) (auto dest: n)
    with s show "sorted_wrt (<)
                 (map (\<lambda>e. inf_display_name (infrastructure (details e))) (infrastructures ce))"
      by simp
    fix e assume e: "e \<in> set (infrastructures ce)"
    from list_all2_in_right[OF r e] obtain i :: infra_summary and cls where
      cl: "list_vm_clusters self (compartment_id ce) (Some (is_id i)) = Some (Inr cls)"
      and cr: "list_all2 (\<lambda>cl d. db_get_vm_cluster self (vs_id cl) = Inr (cluster d))
                 cls (vm_clusters e)"
      by blast
    from sl cl have cs: "sorted_wrt (<) (map vs_display_name cls)"
      and cn: "\<And>cl b. cl \<in> set cls \<Longrightarrow> db_get_vm_cluster self (vs_id cl) = Inr b \<Longrightarrow>
                 vc_display_name b = vs_display_name cl"
      by (auto simp: sorted_listings_def)
    have cr': "list_all2 (\<lambda>cl d. cl \<in> set cls \<and> db_get_vm_cluster self (vs_id cl) = Inr (cluster d))
                 cls (vm_clusters e)"
      using cr by (auto simp: list_all2_conv_all_nth)
    have "map vs_display_name cls = map (\<lambda>d. vc_display_name (cluster d)) (vm_clusters e)"
      using cr' by (rule list_all2_map_eq) (auto dest: cn)
    with cs show "sorted_wrt (<) (map (\<lambda>d. vc_display_name (cluster d)) (vm_clusters e))"
      by simp
  qed
qed

theorem report_follows_listing_order_witness:
  "fetch_all_data demo_fetcher = Some (Inr demo_report) \<and>
   sorted_listings demo_fetcher \<and>
   map (\<lambda>e. inf_display_name (infrastructure (details e)))
     (infrastructures (hd (compartments demo_report))) = [''exa1'', ''exa2''] \<and>
   sorted_wrt (<)
     (map (\<lambda>e. inf_display_name (infrastructure (details e)))
        (infrastructures (hd (compartments demo_report)))) \<and>
   map (\<lambda>d. vc_display_name (cluster d))
     (vm_clusters (hd (infrastructures (hd (compartments demo_report))))) = [''vm1'', ''vm2''] \<and>
   sorted_wrt (<)
     (map (\<lambda>d. vc_display_name (cluster d))
        (vm_clusters (hd (infrastructures (hd (compartments demo_report))))))"
proof -
  have ce: "hd (compartments demo_report) \<in> set (compartments demo_report)"
    by (simp add: demo_report_def)
  have e: "hd (infrastructures (hd (compartments demo_report)))
             \<in> set (infrastructures (hd (compartments demo_report)))"
    by (simp add: demo_report_def)
  from report_follows_listing_order[OF demo_run] demo_sorted_listings ce e
  have "sorted_wrt (<)
     (map (\<lambda>e. inf_display_name (infrastructure (details e)))
        (infrastructures (hd (compartments demo_report))))"
    and "sorted_wrt (<)
     (map (\<lambda>d. vc_display_name (cluster d))
        (vm_clusters (hd (infrastructures (hd (compartments demo_report))))))"
    by blast+
  moreover have "map (\<lambda>e. inf_display_name (infrastructure (details e)))
     (infrastructures (hd (compartments demo_report))) = [''exa1'', ''exa2'']"
    by (simp add: demo_report_def demo_infra_def)
  moreover have "map (\<lambda>d. vc_display_name (cluster d))
     (vm_clusters (hd (infrastructures (hd (compartments demo_report))))) = [''vm1'', ''vm2'']"
    by (simp add: demo_report_def demo_cluster_def)
  ultimately show ?thesis using demo_run demo_sorted_listings by simp
qed

text \<open>
  The claim as first stated also orders the compartment entries by display name.  With an
  infrastructure in the root compartment, the entry of \<open>root\<close> precedes that of \<open>alpha\<close>.
\<close>

theorem compartments_not_in_name_order:
  "compartment_names (fetch_all_data root_fetcher) = Some (Inr [''root'', ''alpha'']) \<and>
   \<not> sorted_wrt (<) [''root'', ''alpha'']"
  by (simp add: compartment_names_def fetch_all_data_def fetch_all_data_locals_def
        list_all_compartments_def
        list_compartments_recursive.simps list_exadata_infrastructures_def
        list_exadata_infrastructures_loop.simps list_vm_clusters_def list_vm_clusters_loop.simps
        get_exadata_infrastructure_details_def get_vm_cluster_details_def
        root_fetcher_def demo_fetcher_def not_page_def demo_patches_def Let_def)

section \<open>Empty compartments and empty infrastructures\<close>



section \<open>Mandatory records\<close>

text \<open>
  Claim C10.  The field \<open>infrastructure\<close> of every infrastructure entry of the report is the
  record that the provider returned for a listed infrastructure of that compartment, and the
  field \<open>cluster\<close> of every VM-cluster entry is the record returned for a listed cluster of
  that infrastructure.  When the fetch of a basic record fails, the detail fetcher fails with
  the same error and builds no entry.
\<close>

theorem mandatory_records_present:
  "(fetch_all_data self = Some (Inr rep) \<longrightarrow>
      (\<forall>ce\<in>set (compartments rep).
         \<exists>infras. list_exadata_infrastructures self (compartment_id ce) = Some (Inr infras) \<and>
           (\<forall>e\<in>set (infrastructures ce).
              \<exists>i\<in>set infras.
                db_get_exadata_infrastructure self (is_id i) = Inr (infrastructure (details e)) \<and>
                (\<exists>cls. list_vm_clusters self (compartment_id ce) (Some (is_id i)) =
                          Some (Inr cls) \<and>
                   (\<forall>d\<in>set (vm_clusters e).
                      \<exists>cl\<in>set cls. db_get_vm_cluster self (vs_id cl) = Inr (cluster d)))))) \<and>
   (db_get_exadata_infrastructure self x = Inl err \<longrightarrow>
      get_exadata_infrastructure_details self x = Inl err) \<and>
   (db_get_vm_cluster self y = Inl err' \<longrightarrow> get_vm_cluster_details self y = Inl err')"
proof (intro conjI impI ballI)
  fix ce assume run: "fetch_all_data self = Some (Inr rep)" and "ce \<in> set (compartments rep)"
  from report_entries_scanned[OF this] obtain infras where
    l: "list_exadata_infrastructures self (compartment_id ce) = Some (Inr infras)"
    and rel: "list_all2 (infra_fetched self (compartment_id ce)) infras (infrastructures ce)"
    by blast
  have "\<exists>i\<in>set infras.
          db_get_exadata_infrastructure self (is_id i) = Inr (infrastructure (details e)) \<and>
          (\<exists>cls. list_vm_clusters self (compartment_id ce) (Some (is_id i)) = Some (Inr cls) \<and>
             (\<forall>d\<in>set (vm_clusters e).
                \<exists>cl\<in>set cls. db_get_vm_cluster self (vs_id cl) = Inr (cluster d)))"
    if "e \<in> set (infrastructures ce)" for e
  proof -
    from list_all2_in_right[OF rel that] obtain i where
      i: "i \<in> set infras" "infra_fetched self (compartment_id ce) i e"
      by blast
    from infra_fetched_base[OF i(2)] obtain cls where
      base: "db_get_exadata_infrastructure self (is_id i) = Inr (infrastructure (details e))"
      and cls: "list_vm_clusters self (compartment_id ce) (Some (is_id i)) = Some (Inr cls)"
      and crel: "list_all2 (\<lambda>cl d. db_get_vm_cluster self (vs_id cl) = Inr (cluster d))
                   cls (vm_clusters e)"
      by blast
    have "\<forall>d\<in>set (vm_clusters e).
            \<exists>cl\<in>set cls. db_get_vm_cluster self (vs_id cl) = Inr (cluster d)"
      using list_all2_in_right[OF crel] by blast
    with i(1) base cls show ?thesis by blast
  qed
  with l show "\<exists>infras. list_exadata_infrastructures self (compartment_id ce) =
                  Some (Inr infras) \<and>
           (\<forall>e\<in>set (infrastructures ce).
              \<exists>i\<in>set infras.
                db_get_exadata_infrastructure self (is_id i) = Inr (infrastructure (details e)) \<and>
                (\<exists>cls. list_vm_clusters self (compartment_id ce) (Some (is_id i)) =
                          Some (Inr cls) \<and>
                   (\<forall>d\<in>set (vm_clusters e).
                      \<exists>cl\<in>set cls. db_get_vm_cluster self (vs_id cl) = Inr (cluster d))))"
    by blast
next
  assume "db_get_exadata_infrastructure self x = Inl err"
  then show "get_exadata_infrastructure_details self x = Inl err"
    by (simp add: get_exadata_infrastructure_details_def)
next
  assume "db_get_vm_cluster self y = Inl err'"
  then show "get_vm_cluster_details self y = Inl err'"
    by (simp add: get_vm_cluster_details_def)
qed

theorem mandatory_records_present_witness:
  "fetch_all_data demo_fetcher = Some (Inr demo_report) \<and>
   map (\<lambda>e. infrastructure (details e)) (infrastructures (hd (compartments demo_report))) =
     [demo_infra ''i1'' ''exa1'', demo_infra ''i2'' ''exa2''] \<and>
   db_get_exadata_infrastructure demo_fetcher ''i1'' = Inr (demo_infra ''i1'' ''exa1'') \<and>
   db_get_exadata_infrastructure demo_fetcher ''i2'' = Inr (demo_infra ''i2'' ''exa2'') \<and>
   db_get_exadata_infrastructure demo_fetcher ''i3'' = Inl not_found \<and>
   get_exadata_infrastructure_details demo_fetcher ''i3'' = Inl not_found \<and>
   db_get_vm_cluster demo_fetcher ''k3'' = Inl not_found \<and>
   get_vm_cluster_details demo_fetcher ''k3'' = Inl not_found"
proof -
  have i: "db_get_exadata_infrastructure demo_fetcher ''i3'' = Inl not_found"
    and k: "db_get_vm_cluster demo_fetcher ''k3'' = Inl not_found"
    by (simp_all add: demo_fetcher_def)
  from mandatory_records_present[of demo_fetcher demo_report "''i3''" not_found "''k3''" not_found]
    i k
  have "get_exadata_infrastructure_details demo_fetcher ''i3'' = Inl not_found"
    and "get_vm_cluster_details demo_fetcher ''k3'' = Inl not_found"
    by blast+
  moreover have
    "map (\<lambda>e. infrastructure (details e)) (infrastructures (hd (compartments demo_report))) =
       [demo_infra ''i1'' ''exa1'', demo_infra ''i2'' ''exa2'']"
    by (simp add: demo_report_def)
  moreover have "db_get_exadata_infrastructure demo_fetcher ''i1'' = Inr (demo_infra ''i1'' ''exa1'')"
    and "db_get_exadata_infrastructure demo_fetcher ''i2'' = Inr (demo_infra ''i2'' ''exa2'')"
    by (simp_all add: demo_fetcher_def)
  ultimately show ?thesis using demo_run i k by simp
qed

section \<open>The value of the traversal and its counters\<close>

text \<open>
  Claim C7, as amended.  \<open>fetch_all_data\<close> takes nothing but \<open>self\<close>.  It returns the report
  alone; the two counters are printed in its last line and are not part of the value.  They
  are the number of infrastructure entries and the number of VM-cluster entries of the
  report.
\<close>

theorem fetch_all_data_prints_totals:
  assumes "fetch_all_data self = Some (Inr rep)"
  shows "fetch_all_data_printed_totals self =
           Some (Inr (count_infrastructures (compartments rep),
                      count_vm_clusters (compartments rep)))"
proof -
  from fetch_all_data_locals_of_report[OF assms] obtain ti tv where
    l: "fetch_all_data_locals self = Some (Inr (rep, ti, tv))"
    by blast
  from fetch_all_data_locals_sound(3,4)[OF l] l show ?thesis
    by (simp add: fetch_all_data_printed_totals_def)
qed

theorem fetch_all_data_prints_totals_witness:
  "fetch_all_data demo_fetcher = Some (Inr demo_report) \<and>
   fetch_all_data_printed_totals demo_fetcher = Some (Inr (2, 2)) \<and>
   count_infrastructures (compartments demo_report) = 2 \<and>
   count_vm_clusters (compartments demo_report) = 2"
proof -
  have "count_infrastructures (compartments demo_report) = 2"
    and "count_vm_clusters (compartments demo_report) = 2"
    by (simp_all add: count_infrastructures_def count_vm_clusters_def count_vm_clusters_in_def
          demo_report_def)
  with fetch_all_data_prints_totals[OF demo_run] demo_run show ?thesis by simp
qed

text \<open>
  The claim as first stated has the counters in the returned value.  On the example tenancy
  the value is the report, and the pair \<open>(2, 2)\<close> is only printed.
\<close>

theorem fetch_all_data_returns_report_only:
  "fetch_all_data demo_fetcher = Some (Inr demo_report) \<and>
   fetch_all_data_printed_totals demo_fetcher = Some (Inr (2, 2))"
  by (simp add: fetch_all_data_def fetch_all_data_printed_totals_def demo_locals)

section \<open>Failures of listings and of mandatory fetches\<close>

lemma list_exadata_infrastructures_listed:
  "list_exadata_infrastructures self cid = Some (Inr xs) \<longleftrightarrow>
     listed (\<lambda>pg. db_list_exadata_infrastructures self cid ''DISPLAYNAME'' ''ASC'' pg) xs"
  unfolding listed_def list_exadata_infrastructures_def
  using infra_loop_chain[of _ None _ "[]"] infra_loop_returns[of _ None "[]" xs]
  by auto

lemma list_vm_clusters_listed:
  "list_vm_clusters self cid iid = Some (Inr xs) \<longleftrightarrow>
     listed (\<lambda>pg. db_list_vm_clusters self cid iid ''DISPLAYNAME'' ''ASC'' pg) xs"
  unfolding listed_def list_vm_clusters_def
  using cluster_loop_chain[of _ None _ "[]"] cluster_loop_returns[of _ None "[]" xs]
  by auto

lemma list_all_compartments_listed:
  "list_all_compartments self = Some (Inr comps) \<longleftrightarrow>
     (\<exists>t cs. identity_get_tenancy self (self_tenancy_id self) = Inr t \<and>
        listed (\<lambda>pg. identity_list_compartments self (self_tenancy_id self) True
                       ''ACCESSIBLE'' pg) cs \<and>
        comps = \<lparr>cd_id = t_id t, cd_name = t_name t, cd_lifecycle_state = ''ACTIVE'',
                  cd_is_root = True\<rparr> #
                map compartment_to_dict (filter (\<lambda>c. c_lifecycle_state c = ''ACTIVE'') cs))"
proof
  assume l: "list_all_compartments self = Some (Inr comps)"
  then obtain t where t: "identity_get_tenancy self (self_tenancy_id self) = Inr t"
    by (cases "identity_get_tenancy self (self_tenancy_id self)")
       (auto simp: list_all_compartments_def)
  with l have "list_compartments_recursive
            (\<lambda>pg. identity_list_compartments self (self_tenancy_id self) True ''ACCESSIBLE'' pg)
            None
            [\<lparr>cd_id = t_id t, cd_name = t_name t,
              cd_lifecycle_state = ''ACTIVE'', cd_is_root = True\<rparr>] = Some (Inr comps)"
    by (simp add: list_all_compartments_def)
  from compartment_loop_returns[OF this] t
  show "\<exists>t cs. identity_get_tenancy self (self_tenancy_id self) = Inr t \<and>
        listed (\<lambda>pg. identity_list_compartments self (self_tenancy_id self) True
                       ''ACCESSIBLE'' pg) cs \<and>
        comps = \<lparr>cd_id = t_id t, cd_name = t_name t, cd_lifecycle_state = ''ACTIVE'',
                  cd_is_root = True\<rparr> #
                map compartment_to_dict (filter (\<lambda>c. c_lifecycle_state c = ''ACTIVE'') cs)"
    unfolding listed_def by auto
next
  assume "\<exists>t cs. identity_get_tenancy self (self_tenancy_id self) = Inr t \<and>
        listed (\<lambda>pg. identity_list_compartments self (self_tenancy_id self) True
                       ''ACCESSIBLE'' pg) cs \<and>
        comps = \<lparr>cd_id = t_id t, cd_name = t_name t, cd_lifecycle_state = ''ACTIVE'',
                  cd_is_root = True\<rparr> #
                map compartment_to_dict (filter (\<lambda>c. c_lifecycle_state c = ''ACTIVE'') cs)"
  then obtain t ds where
    t: "identity_get_tenancy self (self_tenancy_id self) = Inr t"
    and ch: "cursor_chain
               (\<lambda>pg. identity_list_compartments self (self_tenancy_id self) True
                        ''ACCESSIBLE'' pg) None ds"
    and comps: "comps = \<lparr>cd_id = t_id t, cd_name = t_name t, cd_lifecycle_state = ''ACTIVE'',
                  cd_is_root = True\<rparr> #
                map compartment_to_dict
                  (filter (\<lambda>c. c_lifecycle_state c = ''ACTIVE'') (concat ds))"
    unfolding listed_def by auto
  show "list_all_compartments self = Some (Inr comps)"
    using t compartment_loop_chain[OF ch] comps by (simp add: list_all_compartments_def)
qed

lemma list_all2_exists:
  "\<forall>x\<in>set xs. \<exists>y. P x y \<Longrightarrow> \<exists>ys. list_all2 P xs ys"
proof (induction xs)
  case Nil
  then show ?case by simp
next
  case (Cons x xs)
  then obtain y ys where "P x y" "list_all2 P xs ys" by auto
  then have "list_all2 P (x # xs) (y # ys)" by simp
  then show ?case by blast
qed

lemma get_exadata_infrastructure_details_total:
  "db_get_exadata_infrastructure self x = Inr b \<Longrightarrow>
     \<exists>d. get_exadata_infrastructure_details self x = Inr d"
  by (simp add: get_exadata_infrastructure_details_def Let_def)

lemma get_vm_cluster_details_total:
  "db_get_vm_cluster self x = Inr b \<Longrightarrow> \<exists>d. get_vm_cluster_details self x = Inr d"
  by (simp add: get_vm_cluster_details_def Let_def)

lemma compartment_calls_succeed_scanned:
  assumes l: "list_exadata_infrastructures self cid = Some (Inr infras)"
    and ok: "\<forall>i\<in>set infras.
                (\<exists>b. db_get_exadata_infrastructure self (is_id i) = Inr b) \<and>
                (\<exists>cls. list_vm_clusters self cid (Some (is_id i)) = Some (Inr cls) \<and>
                   (\<forall>cl\<in>set cls. \<exists>b. db_get_vm_cluster self (vs_id cl) = Inr b))"
  shows "\<exists>es. list_all2 (infra_fetched self cid) infras es"
proof (rule list_all2_exists, rule ballI)
  fix i assume "i \<in> set infras"
  with ok obtain b cls where
    b: "db_get_exadata_infrastructure self (is_id i) = Inr b"
    and cls: "list_vm_clusters self cid (Some (is_id i)) = Some (Inr cls)"
    and cok: "\<forall>cl\<in>set cls. \<exists>b. db_get_vm_cluster self (vs_id cl) = Inr b"
    by blast
  from get_exadata_infrastructure_details_total[OF b] obtain d where
    d: "get_exadata_infrastructure_details self (is_id i) = Inr d"
    by blast
  have "\<forall>cl\<in>set cls. \<exists>d. cluster_fetched self cl d"
    using cok get_vm_cluster_details_total by (fastforce simp: cluster_fetched_def)
  from list_all2_exists[OF this] obtain ds where
    ds: "list_all2 (cluster_fetched self) cls ds"
    by blast
  have "infra_fetched self cid i \<lparr>details = d, vm_clusters = ds\<rparr>"
    using d cls ds by (auto simp: infra_fetched_def)
  then show "\<exists>e. infra_fetched self cid i e" by blast
qed

lemma infra_fetched_calls_succeed:
  assumes "list_all2 (infra_fetched self cid) infras es"
  shows "\<forall>i\<in>set infras.
           (\<exists>b. db_get_exadata_infrastructure self (is_id i) = Inr b) \<and>
           (\<exists>cls. list_vm_clusters self cid (Some (is_id i)) = Some (Inr cls) \<and>
              (\<forall>cl\<in>set cls. \<exists>b. db_get_vm_cluster self (vs_id cl) = Inr b))"
proof
  fix i assume "i \<in> set infras"
  from list_all2_in_left[OF assms this] obtain e where "infra_fetched self cid i e"
    by blast
  from infra_fetched_base[OF this] obtain cls where
    base: "db_get_exadata_infrastructure self (is_id i) = Inr (infrastructure (details e))"
    and cls: "list_vm_clusters self cid (Some (is_id i)) = Some (Inr cls)"
    and crel: "list_all2 (\<lambda>cl d. db_get_vm_cluster self (vs_id cl) = Inr (cluster d))
                 cls (vm_clusters e)"
    by blast
  have "\<forall>cl\<in>set cls. \<exists>b. db_get_vm_cluster self (vs_id cl) = Inr b"
    using list_all2_in_left[OF crel] by blast
  with base cls show
    "(\<exists>b. db_get_exadata_infrastructure self (is_id i) = Inr b) \<and>
     (\<exists>cls. list_vm_clusters self cid (Some (is_id i)) = Some (Inr cls) \<and>
        (\<forall>cl\<in>set cls. \<exists>b. db_get_vm_cluster self (vs_id cl) = Inr b))"
    by blast
qed

lemma get_exadata_infrastructure_details_raises:
  "get_exadata_infrastructure_details self x = Inl e \<Longrightarrow>
     db_get_exadata_infrastructure self x = Inl e"
  by (auto simp: get_exadata_infrastructure_details_def Let_def split: sum.splits)

lemma get_vm_cluster_details_raises:
  "get_vm_cluster_details self x = Inl e \<Longrightarrow> db_get_vm_cluster self x = Inl e"
  by (auto simp: get_vm_cluster_details_def Let_def split: sum.splits)

lemma report_iff_functions_succeed:
  "(\<exists>rep. fetch_all_data self = Some (Inr rep)) \<longleftrightarrow>
     (\<exists>comps. list_all_compartments self = Some (Inr comps) \<and>
        (\<forall>c\<in>set comps.
           \<exists>infras. list_exadata_infrastructures self (cd_id c) = Some (Inr infras) \<and>
             (\<forall>i\<in>set infras.
                (\<exists>b. db_get_exadata_infrastructure self (is_id i) = Inr b) \<and>
                (\<exists>cls. list_vm_clusters self (cd_id c) (Some (is_id i)) = Some (Inr cls) \<and>
                   (\<forall>cl\<in>set cls. \<exists>b. db_get_vm_cluster self (vs_id cl) = Inr b)))))"
  (is "?L \<longleftrightarrow> ?R")
proof
  assume ?L
  then obtain rep where run: "fetch_all_data self = Some (Inr rep)" by blast
  from fetch_all_data_sound[OF run] obtain comps where
    comps: "list_all_compartments self = Some (Inr comps)"
    and all: "\<forall>c\<in>set comps. \<exists>infras.
                list_exadata_infrastructures self (cd_id c) = Some (Inr infras)"
    and rel: "list_all2 (compartment_scanned self) (filter (has_infrastructures self) comps)
                (compartments rep)"
    by blast
  have "\<exists>infras. list_exadata_infrastructures self (cd_id c) = Some (Inr infras) \<and>
             (\<forall>i\<in>set infras.
                (\<exists>b. db_get_exadata_infrastructure self (is_id i) = Inr b) \<and>
                (\<exists>cls. list_vm_clusters self (cd_id c) (Some (is_id i)) = Some (Inr cls) \<and>
                   (\<forall>cl\<in>set cls. \<exists>b. db_get_vm_cluster self (vs_id cl) = Inr b)))"
    if c: "c \<in> set comps" for c
  proof -
    from all c obtain infras where
      l: "list_exadata_infrastructures self (cd_id c) = Some (Inr infras)"
      by blast
    show ?thesis
    proof (cases "infras = []")
      case True
      with l show ?thesis by simp
    next
      case False
      with l have "has_infrastructures self c" by (simp add: has_infrastructures_def)
      with c have "c \<in> set (filter (has_infrastructures self) comps)" by simp
      from list_all2_in_left[OF rel this] obtain ce where "compartment_scanned self c ce"
        by blast
      with l have "list_all2 (infra_fetched self (cd_id c)) infras (infrastructures ce)"
        by (auto simp: compartment_scanned_def)
      from infra_fetched_calls_succeed[OF this] l show ?thesis by blast
    qed
  qed
  with comps show ?R by blast
next
  assume ?R
  then obtain comps where
    comps: "list_all_compartments self = Some (Inr comps)"
    and ok: "\<forall>c\<in>set comps.
           \<exists>infras. list_exadata_infrastructures self (cd_id c) = Some (Inr infras) \<and>
             (\<forall>i\<in>set infras.
                (\<exists>b. db_get_exadata_infrastructure self (is_id i) = Inr b) \<and>
                (\<exists>cls. list_vm_clusters self (cd_id c) (Some (is_id i)) = Some (Inr cls) \<and>
                   (\<forall>cl\<in>set cls. \<exists>b. db_get_vm_cluster self (vs_id cl) = Inr b)))"
    by blast
  have all: "\<forall>c\<in>set comps. \<exists>infras.
               list_exadata_infrastructures self (cd_id c) = Some (Inr infras)"
    using ok by blast
  have "\<forall>c\<in>set (filter (has_infrastructures self) comps). \<exists>ce. compartment_scanned self c ce"
  proof
    fix c assume "c \<in> set (filter (has_infrastructures self) comps)"
    then have c: "c \<in> set comps" and has: "has_infrastructures self c" by auto
    from ok c obtain infras where
      l: "list_exadata_infrastructures self (cd_id c) = Some (Inr infras)"
      and iok: "\<forall>i\<in>set infras.
                (\<exists>b. db_get_exadata_infrastructure self (is_id i) = Inr b) \<and>
                (\<exists>cls. list_vm_clusters self (cd_id c) (Some (is_id i)) = Some (Inr cls) \<and>
                   (\<forall>cl\<in>set cls. \<exists>b. db_get_vm_cluster self (vs_id cl) = Inr b))"
      by blast
    from compartment_calls_succeed_scanned[OF l iok] obtain es where
      es: "list_all2 (infra_fetched self (cd_id c)) infras es"
      by blast
    from has l have "infras \<noteq> []" by (simp add: has_infrastructures_def)
    with l es have "compartment_scanned self c
        \<lparr>compartment_id = cd_id c, compartment_name = cd_name c, infrastructures = es\<rparr>"
      by (simp add: compartment_scanned_def)
    then show "\<exists>ce. compartment_scanned self c ce" by blast
  qed
  from list_all2_exists[OF this] obtain ces where
    "list_all2 (compartment_scanned self) (filter (has_infrastructures self) comps) ces"
    by blast
  from fetch_all_data_locals_complete[OF comps all this] show ?L
    by (simp add: fetch_all_data_def)
qed

lemma mandatory_calls_succeed_functions:
  "mandatory_calls_succeed self \<longleftrightarrow>
     (\<exists>t cs.
        identity_get_tenancy self (self_tenancy_id self) = Inr t \<and>
        listed (\<lambda>pg. identity_list_compartments self (self_tenancy_id self) True
                       ''ACCESSIBLE'' pg) cs \<and>
        (\<forall>cid\<in>set (t_id t # map c_id (filter (\<lambda>c. c_lifecycle_state c = ''ACTIVE'') cs)).
           \<exists>infras. list_exadata_infrastructures self cid = Some (Inr infras) \<and>
             (\<forall>i\<in>set infras.
                (\<exists>b. db_get_exadata_infrastructure self (is_id i) = Inr b) \<and>
                (\<exists>cls. list_vm_clusters self cid (Some (is_id i)) = Some (Inr cls) \<and>
                   (\<forall>cl\<in>set cls. \<exists>b. db_get_vm_cluster self (vs_id cl) = Inr b)))))"
  by (simp only: mandatory_calls_succeed_def list_exadata_infrastructures_listed
        list_vm_clusters_listed)

lemma functions_succeed_iff_mandatory_calls:
  "(\<exists>comps. list_all_compartments self = Some (Inr comps) \<and>
        (\<forall>c\<in>set comps.
           \<exists>infras. list_exadata_infrastructures self (cd_id c) = Some (Inr infras) \<and>
             (\<forall>i\<in>set infras.
                (\<exists>b. db_get_exadata_infrastructure self (is_id i) = Inr b) \<and>
                (\<exists>cls. list_vm_clusters self (cd_id c) (Some (is_id i)) = Some (Inr cls) \<and>
                   (\<forall>cl\<in>set cls. \<exists>b. db_get_vm_cluster self (vs_id cl) = Inr b))))) \<longleftrightarrow>
   mandatory_calls_succeed self"
  (is "(\<exists>comps. ?C comps \<and> (\<forall>c\<in>set comps. ?S (cd_id c))) \<longleftrightarrow> _")
proof
  assume "\<exists>comps. ?C comps \<and> (\<forall>c\<in>set comps. ?S (cd_id c))"
  then obtain comps where c: "?C comps" and ok: "\<forall>c\<in>set comps. ?S (cd_id c)"
    by blast
  from c obtain t cs where
    t: "identity_get_tenancy self (self_tenancy_id self) = Inr t"
    and ls: "listed (\<lambda>pg. identity_list_compartments self (self_tenancy_id self) True
                       ''ACCESSIBLE'' pg) cs"
    and comps: "comps = \<lparr>cd_id = t_id t, cd_name = t_name t, cd_lifecycle_state = ''ACTIVE'',
                  cd_is_root = True\<rparr> #
                map compartment_to_dict (filter (\<lambda>c. c_lifecycle_state c = ''ACTIVE'') cs)"
    unfolding list_all_compartments_listed by blast
  have "\<forall>cid\<in>set (t_id t # map c_id (filter (\<lambda>c. c_lifecycle_state c = ''ACTIVE'') cs)).
          ?S cid"
  proof
    fix cid
    assume "cid \<in> set (t_id t # map c_id (filter (\<lambda>c. c_lifecycle_state c = ''ACTIVE'') cs))"
    then have "cid \<in> cd_id ` set comps"
      unfolding comps by (auto simp: compartment_to_dict_def image_iff)
    then obtain c where "c \<in> set comps" "cd_id c = cid" by auto
    with ok show "?S cid" by blast
  qed
  with t ls show "mandatory_calls_succeed self"
    unfolding mandatory_calls_succeed_functions by blast
next
  assume "mandatory_calls_succeed self"
  then obtain t cs where
    t: "identity_get_tenancy self (self_tenancy_id self) = Inr t"
    and ls: "listed (\<lambda>pg. identity_list_compartments self (self_tenancy_id self) True
                       ''ACCESSIBLE'' pg) cs"
    and ok: "\<forall>cid\<in>set (t_id t # map c_id (filter (\<lambda>c. c_lifecycle_state c = ''ACTIVE'') cs)).
               ?S cid"
    unfolding mandatory_calls_succeed_functions by blast
  let ?comps = "\<lparr>cd_id = t_id t, cd_name = t_name t, cd_lifecycle_state = ''ACTIVE'',
                  cd_is_root = True\<rparr> #
                map compartment_to_dict (filter (\<lambda>c. c_lifecycle_state c = ''ACTIVE'') cs)"
  have c: "?C ?comps"
    unfolding list_all_compartments_listed using t ls by blast
  have "\<forall>c\<in>set ?comps. ?S (cd_id c)"
  proof
    fix c assume "c \<in> set ?comps"
    then have "cd_id c \<in> set (t_id t #
                 map c_id (filter (\<lambda>c. c_lifecycle_state c = ''ACTIVE'') cs))"
      by (auto simp: compartment_to_dict_def)
    with ok show "?S (cd_id c)" by blast
  qed
  with c show "\<exists>comps. ?C comps \<and> (\<forall>c\<in>set comps. ?S (cd_id c))" by blast
qed

lemma fetch_all_data_error_raised:
  assumes "fetch_all_data self = Some (Inl e)"
  shows "raised_by_provider self e"
proof -
  from assms have loc: "fetch_all_data_locals self = Some (Inl e)"
    by (cases "fetch_all_data_locals self")
       (auto simp: fetch_all_data_def map_sum_def split: sum.splits)
  show ?thesis
  proof (cases "list_all_compartments self")
    case None
    with loc show ?thesis by (simp add: fetch_all_data_locals_def)
  next
    case (Some r)
    show ?thesis
    proof (cases r)
      case (Inl e')
      with loc Some have lc: "list_all_compartments self = Some (Inl e)"
        by (simp add: fetch_all_data_locals_def)
      show ?thesis
      proof (cases "identity_get_tenancy self (self_tenancy_id self)")
        case (Inl e'')
        with lc show ?thesis by (simp add: list_all_compartments_def raised_by_provider_def)
      next
        case (Inr t)
        with lc compartment_loop_raises
        have "\<exists>pg. identity_list_compartments self (self_tenancy_id self) True
                     ''ACCESSIBLE'' pg = Inl e"
          by (fastforce simp: list_all_compartments_def)
        then show ?thesis by (simp add: raised_by_provider_def)
      qed
    next
      case (Inr comps)
      with loc Some have "compartments_loop self comps [] 0 0 = Some (Inl e)"
        by (auto simp: fetch_all_data_locals_def split: option.splits sum.splits)
      from compartments_loop_raises[OF this] obtain c :: compartment_dict where
        c: "list_exadata_infrastructures self (cd_id c) = Some (Inl e) \<or>
            (\<exists>infras acc' tv'.
               list_exadata_infrastructures self (cd_id c) = Some (Inr infras) \<and>
               infrastructures_loop self (cd_id c) infras acc' tv' = Some (Inl e))"
        by blast
      then show ?thesis
      proof
        assume "list_exadata_infrastructures self (cd_id c) = Some (Inl e)"
        with infra_loop_raises
        have "\<exists>pg. db_list_exadata_infrastructures self (cd_id c) ''DISPLAYNAME'' ''ASC'' pg =
                 Inl e"
          by (fastforce simp: list_exadata_infrastructures_def)
        then show ?thesis by (auto simp: raised_by_provider_def)
      next
        assume "\<exists>infras acc' tv'.
               list_exadata_infrastructures self (cd_id c) = Some (Inr infras) \<and>
               infrastructures_loop self (cd_id c) infras acc' tv' = Some (Inl e)"
        then obtain infras acc' tv' where
          "infrastructures_loop self (cd_id c) infras acc' tv' = Some (Inl e)"
          by blast
        from infrastructures_loop_raises[OF this] obtain i :: infra_summary where
          i: "get_exadata_infrastructure_details self (is_id i) = Inl e \<or>
              list_vm_clusters self (cd_id c) (Some (is_id i)) = Some (Inl e) \<or>
              (\<exists>cls. list_vm_clusters self (cd_id c) (Some (is_id i)) = Some (Inr cls) \<and>
                 (\<exists>cl\<in>set cls. get_vm_cluster_details self (vs_id cl) = Inl e))"
          by blast
        then consider
          (base) "get_exadata_infrastructure_details self (is_id i) = Inl e"
          | (listing) "list_vm_clusters self (cd_id c) (Some (is_id i)) = Some (Inl e)"
          | (cluster) cl :: vm_cluster_summary
              where "get_vm_cluster_details self (vs_id cl) = Inl e"
          by blast
        then show ?thesis
        proof cases
          case base
          from get_exadata_infrastructure_details_raises[OF this] show ?thesis
            by (auto simp: raised_by_provider_def)
        next
          case listing
          with cluster_loop_raises
          have "\<exists>pg. db_list_vm_clusters self (cd_id c) (Some (is_id i))
                       ''DISPLAYNAME'' ''ASC'' pg = Inl e"
            by (fastforce simp: list_vm_clusters_def)
          then show ?thesis by (auto simp: raised_by_provider_def)
        next
          case cluster
          from get_vm_cluster_details_raises[OF this] show ?thesis
            by (auto simp: raised_by_provider_def)
        qed
      qed
    qed
  qed
qed

lemma failing_run:
  "fetch_all_data failing_fetcher = Some (Inl (ServiceError 500 ''InternalError''))"
  by (simp add: fetch_all_data_def fetch_all_data_locals_def list_all_compartments_def
        list_compartments_recursive.simps list_exadata_infrastructures_def
        list_exadata_infrastructures_loop.simps list_vm_clusters_def list_vm_clusters_loop.simps
        get_exadata_infrastructure_details_def get_vm_cluster_details_def
        failing_fetcher_def demo_fetcher_def not_page_def demo_patches_def Let_def)

section \<open>Determinism\<close>

lemma same_responses_compartments:
  assumes "same_responses self other"
  shows "list_all_compartments self = list_all_compartments other"
proof -
  have eq:
    "identity_list_compartments self (self_tenancy_id self) True ''ACCESSIBLE'' =
       identity_list_compartments other (self_tenancy_id other) True ''ACCESSIBLE''"
    "identity_get_tenancy self (self_tenancy_id self) =
       identity_get_tenancy other (self_tenancy_id other)"
    using assms by (auto simp: same_responses_def)
  show ?thesis unfolding list_all_compartments_def eq ..
qed

lemma same_responses_infrastructures:
  assumes "same_responses self other"
  shows "list_exadata_infrastructures self cid = list_exadata_infrastructures other cid"
proof -
  have "(\<lambda>pg. db_list_exadata_infrastructures self cid ''DISPLAYNAME'' ''ASC'' pg) =
        (\<lambda>pg. db_list_exadata_infrastructures other cid ''DISPLAYNAME'' ''ASC'' pg)"
    using assms by (auto simp: same_responses_def)
  then show ?thesis by (simp add: list_exadata_infrastructures_def)
qed

lemma same_responses_clusters:
  assumes "same_responses self other"
  shows "list_vm_clusters self cid (Some i) = list_vm_clusters other cid (Some i)"
proof -
  have "(\<lambda>pg. db_list_vm_clusters self cid (Some i) ''DISPLAYNAME'' ''ASC'' pg) =
        (\<lambda>pg. db_list_vm_clusters other cid (Some i) ''DISPLAYNAME'' ''ASC'' pg)"
    using assms by (auto simp: same_responses_def)
  then show ?thesis by (simp add: list_vm_clusters_def)
qed

lemma same_responses_infra_details:
  assumes "same_responses self other"
  shows "get_exadata_infrastructure_details self i =
           get_exadata_infrastructure_details other i"
proof -
  from assms have eq:
    "db_get_exadata_infrastructure self i = db_get_exadata_infrastructure other i"
    "db_get_exadata_infrastructure_ocpus self i = db_get_exadata_infrastructure_ocpus other i"
    "db_get_exadata_infrastructure_un_allocated_resources self i =
       db_get_exadata_infrastructure_un_allocated_resources other i"
    unfolding same_responses_def by blast+
  show ?thesis unfolding get_exadata_infrastructure_details_def eq ..
qed

lemma same_responses_cluster_details:
  assumes "same_responses self other"
  shows "get_vm_cluster_details self k = get_vm_cluster_details other k"
proof -
  from assms have eq:
    "db_get_vm_cluster self k = db_get_vm_cluster other k"
    "db_get_vm_cluster_iorm_config self k = db_get_vm_cluster_iorm_config other k"
    "db_list_vm_cluster_patches self k = db_list_vm_cluster_patches other k"
    unfolding same_responses_def by blast+
  show ?thesis unfolding get_vm_cluster_details_def eq ..
qed

lemma same_responses_vm_clusters_loop:
  "same_responses self other \<Longrightarrow>
     vm_clusters_loop self cls acc tv = vm_clusters_loop other cls acc tv"
  by (induction cls arbitrary: acc tv)
     (simp_all add: same_responses_cluster_details split: sum.splits)

lemma same_responses_infrastructures_loop:
  assumes "same_responses self other"
  shows "infrastructures_loop self cid infras acc tv =
           infrastructures_loop other cid infras acc tv"
proof (induction infras arbitrary: acc tv)
  case Nil
  show ?case by simp
next
  case (Cons i rest)
  show ?case
    by (simp add: same_responses_infra_details[OF assms] same_responses_clusters[OF assms]
          same_responses_vm_clusters_loop[OF assms] Cons.IH
        split: sum.splits option.splits prod.splits)
qed

lemma same_responses_compartments_loop:
  assumes "same_responses self other"
  shows "compartments_loop self comps acc ti tv = compartments_loop other comps acc ti tv"
proof (induction comps arbitrary: acc ti tv)
  case Nil
  show ?case by simp
next
  case (Cons c rest)
  show ?case
    by (simp add: same_responses_infrastructures[OF assms]
          same_responses_infrastructures_loop[OF assms] Cons.IH Let_def
        split: sum.splits option.splits prod.splits)
qed

lemma demo_other_same: "same_responses demo_fetcher other_fetcher"
  by (simp add: same_responses_def other_fetcher_def)

text \<open>
  Claim C9.  Two runs against identical provider responses give identical outcomes: the
  value of \<open>fetch_all_data\<close> is a function of the tenancy identifier and of the responses to
  the requests the script issues, and of nothing else.  In particular two runs against the
  same provider return the same report.
\<close>

theorem fetch_all_data_deterministic:
  assumes "same_responses self other"
  shows "fetch_all_data self = fetch_all_data other"
proof -
  have "self_tenancy_id self = self_tenancy_id other"
    using assms by (simp add: same_responses_def)
  then have "fetch_all_data_locals self = fetch_all_data_locals other"
    by (simp add: fetch_all_data_locals_def same_responses_compartments[OF assms]
          same_responses_compartments_loop[OF assms]
        split: sum.splits option.splits prod.splits)
  then show ?thesis by (simp add: fetch_all_data_def)
qed

theorem fetch_all_data_deterministic_witness:
  "same_responses demo_fetcher other_fetcher \<and>
   same_responses demo_fetcher demo_fetcher \<and>
   db_list_vm_clusters demo_fetcher ''a'' None ''DISPLAYNAME'' ''ASC'' None \<noteq>
     db_list_vm_clusters other_fetcher ''a'' None ''DISPLAYNAME'' ''ASC'' None \<and>
   fetch_all_data demo_fetcher = Some (Inr demo_report) \<and>
   fetch_all_data other_fetcher = Some (Inr demo_report)"
proof -
  have "same_responses demo_fetcher demo_fetcher" by (simp add: same_responses_def)
  moreover have "db_list_vm_clusters demo_fetcher ''a'' None ''DISPLAYNAME'' ''ASC'' None \<noteq>
     db_list_vm_clusters other_fetcher ''a'' None ''DISPLAYNAME'' ''ASC'' None"
    by (simp add: other_fetcher_def demo_fetcher_def)
  ultimately show ?thesis
    using fetch_all_data_deterministic[OF demo_other_same] demo_other_same demo_run by simp
qed

section \<open>The loops without their accumulators\<close>

lemma vm_clusters_loop_acc:
  "vm_clusters_loop self cls acc tv =
     map_sum id (\<lambda>(ds, n). (acc @ ds, tv + n)) (vm_clusters_loop self cls [] 0)"
proof (induction cls arbitrary: acc tv)
  case Nil
  show ?case by simp
next
  case (Cons cl rest)
  show ?case
  proof (cases "get_vm_cluster_details self (vs_id cl)")
    case (Inl e)
    then show ?thesis by simp
  next
    case (Inr d)
    have 1: "vm_clusters_loop self rest (acc @ [d]) (tv + 1) =
               map_sum id (\<lambda>(ds, n). ((acc @ [d]) @ ds, (tv + 1) + n))
                 (vm_clusters_loop self rest [] 0)"
      by (rule Cons.IH)
    have 2: "vm_clusters_loop self rest [d] 1 =
               map_sum id (\<lambda>(ds, n). ([d] @ ds, 1 + n)) (vm_clusters_loop self rest [] 0)"
      by (rule Cons.IH)
    show ?thesis
      using Inr 1 2 by (cases "vm_clusters_loop self rest [] 0") auto
  qed
qed

lemma vm_clusters_loop_step:
  "vm_clusters_loop self (cl # rest) [] 0 =
     (case get_vm_cluster_details self (vs_id cl) of
        Inl e \<Rightarrow> Inl e
      | Inr d \<Rightarrow> map_sum id (\<lambda>(ds, n). (d # ds, Suc n)) (vm_clusters_loop self rest [] 0))"
proof (cases "get_vm_cluster_details self (vs_id cl)")
  case (Inl e)
  then show ?thesis by simp
next
  case (Inr d)
  with vm_clusters_loop_acc[of self rest "[d]" 1] show ?thesis
    by (cases "vm_clusters_loop self rest [] 0") auto
qed

lemma infrastructures_loop_acc:
  "infrastructures_loop self cid infras acc tv =
     map_option (map_sum id (\<lambda>(es, n). (acc @ es, tv + n)))
       (infrastructures_loop self cid infras [] 0)"
proof (induction infras arbitrary: acc tv)
  case Nil
  show ?case by simp
next
  case (Cons i rest)
  show ?case
  proof (cases "get_exadata_infrastructure_details self (is_id i)")
    case (Inl e)
    then show ?thesis by simp
  next
    case d: (Inr d)
    show ?thesis
    proof (cases "list_vm_clusters self cid (Some (is_id i))")
      case None
      with d show ?thesis by simp
    next
      case (Some r)
      show ?thesis
      proof (cases r)
        case (Inl e)
        with d Some show ?thesis by simp
      next
        case cls: (Inr cls)
        show ?thesis
        proof (cases "vm_clusters_loop self cls [] 0")
          case (Inl e)
          with vm_clusters_loop_acc[of self cls "[]" tv]
          have "vm_clusters_loop self cls [] tv = Inl e" by simp
          with d Some cls Inl show ?thesis by simp
        next
          case (Inr res)
          obtain vds m where res: "res = (vds, m)" by (cases res)
          with Inr vm_clusters_loop_acc[of self cls "[]" tv]
          have v: "vm_clusters_loop self cls [] tv = Inr (vds, tv + m)" by simp
          let ?E = "\<lparr>details = d, vm_clusters = vds\<rparr>"
          have 1: "infrastructures_loop self cid rest (acc @ [?E]) (tv + m) =
                     map_option (map_sum id (\<lambda>(es, n). ((acc @ [?E]) @ es, (tv + m) + n)))
                       (infrastructures_loop self cid rest [] 0)"
            by (rule Cons.IH)
          have 2: "infrastructures_loop self cid rest [?E] m =
                     map_option (map_sum id (\<lambda>(es, n). ([?E] @ es, m + n)))
                       (infrastructures_loop self cid rest [] 0)"
            by (rule Cons.IH)
          show ?thesis
          proof (cases "infrastructures_loop self cid rest [] 0")
            case None
            with d Some cls Inr res v 1 2 show ?thesis by simp
          next
            case r0: (Some r0)
            with d Some cls Inr res v 1 2 show ?thesis by (cases r0) auto
          qed
        qed
      qed
    qed
  qed
qed

lemma infrastructures_loop_step:
  "infrastructures_loop self cid (i # rest) [] 0 =
     (case get_exadata_infrastructure_details self (is_id i) of
        Inl e \<Rightarrow> Some (Inl e)
      | Inr d \<Rightarrow>
          (case list_vm_clusters self cid (Some (is_id i)) of
             None \<Rightarrow> None
           | Some (Inl e) \<Rightarrow> Some (Inl e)
           | Some (Inr cls) \<Rightarrow>
               (case vm_clusters_loop self cls [] 0 of
                  Inl e \<Rightarrow> Some (Inl e)
                | Inr (vds, m) \<Rightarrow>
                    map_option
                      (map_sum id (\<lambda>(es, n). (\<lparr>details = d, vm_clusters = vds\<rparr> # es, m + n)))
                      (infrastructures_loop self cid rest [] 0))))"
proof -
  have "infrastructures_loop self cid rest [E] m =
          map_option (map_sum id (\<lambda>(es, n). (E # es, m + n)))
            (infrastructures_loop self cid rest [] 0)" for E m
    using infrastructures_loop_acc[of self cid rest "[E]" m] by simp
  then show ?thesis
    by (simp split: sum.splits option.splits prod.splits)
qed

lemma compartments_loop_acc:
  "compartments_loop self comps acc ti tv =
     map_option (map_sum id (\<lambda>(ces, a, b). (acc @ ces, ti + a, tv + b)))
       (compartments_loop self comps [] 0 0)"
proof (induction comps arbitrary: acc ti tv)
  case Nil
  show ?case by simp
next
  case (Cons c rest)
  show ?case
  proof (cases "list_exadata_infrastructures self (cd_id c)")
    case None
    then show ?thesis by (simp add: Let_def)
  next
    case (Some r)
    show ?thesis
    proof (cases r)
      case (Inl e)
      with Some show ?thesis by (simp add: Let_def)
    next
      case infras: (Inr infras)
      show ?thesis
      proof (cases "infras = []")
        case True
        with Some infras Cons.IH[of acc ti tv] show ?thesis by (simp add: Let_def)
      next
        case False
        show ?thesis
        proof (cases "infrastructures_loop self (cd_id c) infras [] 0")
          case None
          with infrastructures_loop_acc[of self "cd_id c" infras "[]" tv]
          have "infrastructures_loop self (cd_id c) infras [] tv = None" by simp
          with Some infras False None show ?thesis by (simp add: Let_def)
        next
          case il: (Some r')
          show ?thesis
          proof (cases r')
            case (Inl e)
            with il infrastructures_loop_acc[of self "cd_id c" infras "[]" tv]
            have "infrastructures_loop self (cd_id c) infras [] tv = Some (Inl e)" by simp
            with Some infras False il Inl show ?thesis by (simp add: Let_def)
          next
            case (Inr res)
            obtain es m where res: "res = (es, m)" by (cases res)
            with il Inr infrastructures_loop_acc[of self "cd_id c" infras "[]" tv]
            have v: "infrastructures_loop self (cd_id c) infras [] tv = Some (Inr (es, tv + m))"
              by simp
            let ?E = "\<lparr>compartment_id = cd_id c, compartment_name = cd_name c,
                        infrastructures = es\<rparr>"
            have 1: "compartments_loop self rest (acc @ [?E]) (ti + length infras) (tv + m) =
                       map_option
                         (map_sum id (\<lambda>(ces, a, b).
                            ((acc @ [?E]) @ ces, (ti + length infras) + a, (tv + m) + b)))
                         (compartments_loop self rest [] 0 0)"
              by (rule Cons.IH)
            have 2: "compartments_loop self rest [?E] (length infras) m =
                       map_option
                         (map_sum id (\<lambda>(ces, a, b). ([?E] @ ces, length infras + a, m + b)))
                         (compartments_loop self rest [] 0 0)"
              by (rule Cons.IH)
            show ?thesis
            proof (cases "compartments_loop self rest [] 0 0")
              case None
              with Some infras False il Inr res v 1 2 show ?thesis by (simp add: Let_def)
            next
              case r0: (Some r0)
              with Some infras False il Inr res v 1 2 show ?thesis
                by (cases r0) (auto simp: Let_def)
            qed
          qed
        qed
      qed
    qed
  qed
qed

lemma compartments_loop_step:
  "compartments_loop self (c # rest) [] 0 0 =
     (case list_exadata_infrastructures self (cd_id c) of
        None \<Rightarrow> None
      | Some (Inl e) \<Rightarrow> Some (Inl e)
      | Some (Inr infras) \<Rightarrow>
          if infras = [] then compartments_loop self rest [] 0 0
          else
            (case infrastructures_loop self (cd_id c) infras [] 0 of
               None \<Rightarrow> None
             | Some (Inl e) \<Rightarrow> Some (Inl e)
             | Some (Inr (es, m)) \<Rightarrow>
                 map_option
                   (map_sum id (\<lambda>(ces, a, b).
                      (\<lparr>compartment_id = cd_id c, compartment_name = cd_name c,
                        infrastructures = es\<rparr> # ces, length infras + a, m + b)))
                   (compartments_loop self rest [] 0 0)))"
proof -
  have "compartments_loop self rest [E] k m =
          map_option (map_sum id (\<lambda>(ces, a, b). (E # ces, k + a, m + b)))
            (compartments_loop self rest [] 0 0)" for E k m
    using compartments_loop_acc[of self rest "[E]" k m] by simp
  then show ?thesis
    by (simp add: Let_def split: sum.splits option.splits prod.splits)
qed

section \<open>Failures of optional fetches\<close>

lemma refuse_optional_fields:
  "self_tenancy_id (refuse_optional A B C D err self) = self_tenancy_id self"
  "identity_get_tenancy (refuse_optional A B C D err self) = identity_get_tenancy self"
  "identity_list_compartments (refuse_optional A B C D err self) =
     identity_list_compartments self"
  "db_list_exadata_infrastructures (refuse_optional A B C D err self) =
     db_list_exadata_infrastructures self"
  "db_get_exadata_infrastructure (refuse_optional A B C D err self) =
     db_get_exadata_infrastructure self"
  "db_list_vm_clusters (refuse_optional A B C D err self) = db_list_vm_clusters self"
  "db_get_vm_cluster (refuse_optional A B C D err self) = db_get_vm_cluster self"
  by (simp_all add: refuse_optional_def)

lemma refuse_optional_listings:
  "list_all_compartments (refuse_optional A B C D err self) = list_all_compartments self"
  "list_exadata_infrastructures (refuse_optional A B C D err self) cid =
     list_exadata_infrastructures self cid"
  "list_vm_clusters (refuse_optional A B C D err self) cid iid = list_vm_clusters self cid iid"
  unfolding list_all_compartments_def list_exadata_infrastructures_def list_vm_clusters_def
    refuse_optional_fields
  by (rule refl)+

lemma refuse_optional_infra_details:
  "get_exadata_infrastructure_details (refuse_optional A B C D err self) i =
     map_sum id (absent_in_infra A B i) (get_exadata_infrastructure_details self i)"
  by (cases "db_get_exadata_infrastructure self i")
     (simp_all add: get_exadata_infrastructure_details_def refuse_optional_def
        absent_in_infra_def Let_def split: sum.splits)

lemma refuse_optional_cluster_details:
  "get_vm_cluster_details (refuse_optional A B C D err self) k =
     map_sum id (absent_in_cluster C D k) (get_vm_cluster_details self k)"
  by (cases "db_get_vm_cluster self k")
     (simp_all add: get_vm_cluster_details_def refuse_optional_def
        absent_in_cluster_def Let_def split: sum.splits)

lemma refuse_optional_vm_clusters_loop:
  "vm_clusters_loop (refuse_optional A B C D err self) cls [] 0 =
     map_sum id (\<lambda>(ds, n). (map2 (\<lambda>cl d. absent_in_cluster C D (vs_id cl) d) cls ds, n))
       (vm_clusters_loop self cls [] 0)"
proof (induction cls)
  case Nil
  show ?case by simp
next
  case (Cons cl rest)
  show ?case
  proof (cases "get_vm_cluster_details self (vs_id cl)")
    case (Inl e)
    then show ?thesis
      by (simp add: vm_clusters_loop_step refuse_optional_cluster_details
            del: vm_clusters_loop.simps)
  next
    case (Inr d)
    then show ?thesis
      using Cons.IH
      by (cases "vm_clusters_loop self rest [] 0")
         (auto simp add: vm_clusters_loop_step refuse_optional_cluster_details
            simp del: vm_clusters_loop.simps)
  qed
qed

lemma refuse_optional_infrastructures_loop:
  "infrastructures_loop (refuse_optional A B C D err self) cid infras [] 0 =
     map_option
       (map_sum id (\<lambda>(es, n). (map2 (absent_in_entry A B C D self cid) infras es, n)))
       (infrastructures_loop self cid infras [] 0)"
proof (induction infras)
  case Nil
  show ?case by simp
next
  case (Cons i rest)
  note step = infrastructures_loop_step refuse_optional_infra_details
    refuse_optional_listings refuse_optional_vm_clusters_loop
  show ?case
  proof (cases "get_exadata_infrastructure_details self (is_id i)")
    case (Inl e)
    then show ?thesis by (simp add: step del: infrastructures_loop.simps)
  next
    case d: (Inr d)
    show ?thesis
    proof (cases "list_vm_clusters self cid (Some (is_id i))")
      case None
      with d show ?thesis by (simp add: step del: infrastructures_loop.simps)
    next
      case (Some r)
      show ?thesis
      proof (cases r)
        case (Inl e)
        with d Some show ?thesis by (simp add: step del: infrastructures_loop.simps)
      next
        case cls: (Inr cls)
        have listing: "cluster_listing self cid (is_id i) = cls"
          using Some cls by (simp add: cluster_listing_def)
        show ?thesis
        proof (cases "vm_clusters_loop self cls [] 0")
          case (Inl e)
          with d Some cls show ?thesis by (simp add: step del: infrastructures_loop.simps)
        next
          case (Inr res)
          obtain vds m where res: "res = (vds, m)" by (cases res)
          show ?thesis
          proof (cases "infrastructures_loop self cid rest [] 0")
            case None
            with d Some cls Inr res Cons.IH show ?thesis
              by (simp add: step del: infrastructures_loop.simps)
          next
            case r0: (Some r0)
            with d Some cls Inr res Cons.IH listing show ?thesis
              by (cases r0)
                 (auto simp add: step absent_in_entry_def simp del: infrastructures_loop.simps)
          qed
        qed
      qed
    qed
  qed
qed

lemma refuse_optional_compartments_loop:
  "compartments_loop (refuse_optional A B C D err self) comps [] 0 0 =
     map_option
       (map_sum id (\<lambda>(ces, a, b). (map (absent_in_compartment A B C D self) ces, a, b)))
       (compartments_loop self comps [] 0 0)"
proof (induction comps)
  case Nil
  show ?case by simp
next
  case (Cons c rest)
  note step = compartments_loop_step refuse_optional_listings
    refuse_optional_infrastructures_loop
  show ?case
  proof (cases "list_exadata_infrastructures self (cd_id c)")
    case None
    then show ?thesis by (simp add: step del: compartments_loop.simps)
  next
    case (Some r)
    show ?thesis
    proof (cases r)
      case (Inl e)
      with Some show ?thesis by (simp add: step del: compartments_loop.simps)
    next
      case infras: (Inr infras)
      have listing: "infra_listing self (cd_id c) = infras"
        using Some infras by (simp add: infra_listing_def)
      show ?thesis
      proof (cases "infras = []")
        case True
        with Some infras Cons.IH show ?thesis
          by (simp add: step del: compartments_loop.simps)
      next
        case False
        show ?thesis
        proof (cases "infrastructures_loop self (cd_id c) infras [] 0")
          case None
          with Some infras False show ?thesis
            by (simp add: step del: compartments_loop.simps)
        next
          case il: (Some r')
          show ?thesis
          proof (cases r')
            case (Inl e)
            with Some infras False il show ?thesis
              by (simp add: step del: compartments_loop.simps)
          next
            case (Inr res)
            obtain es m where res: "res = (es, m)" by (cases res)
            have len: "length (map2 (absent_in_entry A B C D self (cd_id c)) infras es) =
                         min (length infras) (length es)"
              by simp
            show ?thesis
            proof (cases "compartments_loop self rest [] 0 0")
              case None
              with Some infras False il Inr res Cons.IH show ?thesis
                by (simp add: step del: compartments_loop.simps)
            next
              case r0: (Some r0)
              with Some infras False il Inr res Cons.IH listing show ?thesis
                by (cases r0)
                   (auto simp add: step absent_in_compartment_def
                      simp del: compartments_loop.simps)
            qed
          qed
        qed
      qed
    qed
  qed
qed

lemma refuse_optional_fetch_all_data:
  "fetch_all_data (refuse_optional A B C D err self) =
     map_option (map_sum id (absent_in_report A B C D self)) (fetch_all_data self)"
proof -
  have "fetch_all_data_locals (refuse_optional A B C D err self) =
          map_option (map_sum id (\<lambda>(rep, a, b). (absent_in_report A B C D self rep, a, b)))
            (fetch_all_data_locals self)"
  proof (cases "list_all_compartments self")
    case None
    then show ?thesis by (simp add: fetch_all_data_locals_def refuse_optional_listings)
  next
    case (Some r)
    show ?thesis
    proof (cases r)
      case (Inl e)
      with Some show ?thesis by (simp add: fetch_all_data_locals_def refuse_optional_listings)
    next
      case (Inr comps)
      show ?thesis
      proof (cases "compartments_loop self comps [] 0 0")
        case None
        with Some Inr show ?thesis
          by (simp add: fetch_all_data_locals_def refuse_optional_listings
                refuse_optional_compartments_loop)
      next
        case r0: (Some r0)
        with Some Inr show ?thesis
          by (cases r0)
             (auto simp: fetch_all_data_locals_def refuse_optional_listings
                refuse_optional_compartments_loop refuse_optional_fields
                absent_in_report_def)
      qed
    qed
  qed
  then show ?thesis
    by (cases "fetch_all_data_locals self")
       (auto simp: fetch_all_data_def map_sum_def split: sum.splits)
qed

lemma demo_absent_in_report:
  "absent_in_report {''i1''} {} {} {''k1''} demo_fetcher demo_report = refused_report"
  by (simp add: absent_in_report_def absent_in_compartment_def absent_in_entry_def
        absent_in_infra_def absent_in_cluster_def infra_listing_def cluster_listing_def
        demo_infra_listing demo_cluster_listing demo_report_def refused_report_def)

text \<open>
  Claim C3.  A detail fetcher whose basic record is fetched returns a record in which each
  optional field is the answer to its own fetch, and is absent (\<open>None\<close>, or \<open>[]\<close> for the
  patches) when that fetch fails.  For the whole run: refusing optional fetches for chosen
  resources changes neither whether \<open>fetch_all_data\<close> returns nor the error it ends with, and
  the report it returns is the report of the undisturbed run with exactly the refused
  fields absent in the entries of the chosen resources; these entries keep their place and
  their other fields, and the entries of all other resources are the same.
\<close>

theorem optional_failures_leave_absent_fields:
  "(db_get_exadata_infrastructure self i = Inr b \<longrightarrow>
      get_exadata_infrastructure_details self i =
        Inr \<lparr>infrastructure = b,
             ocpu_info =
               (case db_get_exadata_infrastructure_ocpus self i of
                  Inl _ \<Rightarrow> None | Inr v \<Rightarrow> Some v),
             unallocated_resources =
               (case db_get_exadata_infrastructure_un_allocated_resources self i of
                  Inl _ \<Rightarrow> None | Inr v \<Rightarrow> Some v)\<rparr>) \<and>
   (db_get_vm_cluster self k = Inr c \<longrightarrow>
      get_vm_cluster_details self k =
        Inr \<lparr>cluster = c,
             iorm_config =
               (case db_get_vm_cluster_iorm_config self k of Inl _ \<Rightarrow> None | Inr v \<Rightarrow> Some v),
             patches =
               (case db_list_vm_cluster_patches self k of Inl _ \<Rightarrow> [] | Inr ps \<Rightarrow> take 5 ps)\<rparr>) \<and>
   fetch_all_data (refuse_optional A B C D err self) =
     map_option (map_sum id (absent_in_report A B C D self)) (fetch_all_data self)"
  by (simp add: get_exadata_infrastructure_details_def get_vm_cluster_details_def Let_def
        refuse_optional_fetch_all_data)

theorem optional_failures_leave_absent_fields_witness:
  "db_get_exadata_infrastructure_ocpus
     (refuse_optional {''i1''} {} {} {''k1''} not_found demo_fetcher) ''i1'' = Inl not_found \<and>
   db_list_vm_cluster_patches
     (refuse_optional {''i1''} {} {} {''k1''} not_found demo_fetcher) ''k1'' = Inl not_found \<and>
   fetch_all_data demo_fetcher = Some (Inr demo_report) \<and>
   fetch_all_data (refuse_optional {''i1''} {} {} {''k1''} not_found demo_fetcher) =
     Some (Inr refused_report) \<and>
   db_get_exadata_infrastructure demo_fetcher ''i2'' = Inr (demo_infra ''i2'' ''exa2'') \<and>
   get_exadata_infrastructure_details demo_fetcher ''i2'' =
     Inr \<lparr>infrastructure = demo_infra ''i2'' ''exa2'', ocpu_info = None,
          unallocated_resources = Some \<lparr>available_cpus = 8\<rparr>\<rparr> \<and>
   db_get_vm_cluster demo_fetcher ''k2'' = Inr (demo_cluster ''k2'' ''vm2'') \<and>
   get_vm_cluster_details demo_fetcher ''k2'' =
     Inr \<lparr>cluster = demo_cluster ''k2'' ''vm2'', iorm_config = None, patches = []\<rparr>"
proof -
  have i: "db_get_exadata_infrastructure demo_fetcher ''i2'' = Inr (demo_infra ''i2'' ''exa2'')"
    and k: "db_get_vm_cluster demo_fetcher ''k2'' = Inr (demo_cluster ''k2'' ''vm2'')"
    by (simp_all add: demo_fetcher_def)
  have o: "db_get_exadata_infrastructure_ocpus demo_fetcher ''i2'' = Inl not_found"
    "db_get_exadata_infrastructure_un_allocated_resources demo_fetcher ''i2'' =
       Inr \<lparr>available_cpus = 8\<rparr>"
    "db_get_vm_cluster_iorm_config demo_fetcher ''k2'' = Inl not_found"
    "db_list_vm_cluster_patches demo_fetcher ''k2'' = Inl not_found"
    by (simp_all add: demo_fetcher_def)
  have r: "db_get_exadata_infrastructure_ocpus
     (refuse_optional {''i1''} {} {} {''k1''} not_found demo_fetcher) ''i1'' = Inl not_found"
    "db_list_vm_cluster_patches
     (refuse_optional {''i1''} {} {} {''k1''} not_found demo_fetcher) ''k1'' = Inl not_found"
    by (simp_all add: refuse_optional_def)
  from optional_failures_leave_absent_fields[of demo_fetcher "''i2''" "demo_infra ''i2'' ''exa2''"
         "''k2''" "demo_cluster ''k2'' ''vm2''" "{''i1''}" "{}" "{}" "{''k1''}" not_found]
    i k o r demo_run demo_absent_in_report
  show ?thesis by simp
qed

section \<open>The first failure ends the run\<close>

lemma first_failing_Nil [simp]: "\<not> first_failing ok fails []"
  by (simp add: first_failing_def)

lemma first_failing_Cons:
  "first_failing ok fails (x # xs) \<longleftrightarrow> fails x \<or> (ok x \<and> first_failing ok fails xs)"
proof
  assume "first_failing ok fails (x # xs)"
  then obtain pre y post where
    eq: "x # xs = pre @ y # post" and ok: "\<forall>z\<in>set pre. ok z" and f: "fails y"
    unfolding first_failing_def by blast
  show "fails x \<or> (ok x \<and> first_failing ok fails xs)"
  proof (cases pre)
    case Nil
    with eq f show ?thesis by simp
  next
    case (Cons p pre')
    with eq ok f have "ok x" "xs = pre' @ y # post" "\<forall>z\<in>set pre'. ok z" by auto
    with f show ?thesis unfolding first_failing_def by blast
  qed
next
  assume "fails x \<or> (ok x \<and> first_failing ok fails xs)"
  then show "first_failing ok fails (x # xs)"
  proof
    assume "fails x"
    then have "x # xs = [] @ x # xs \<and> (\<forall>z\<in>set []. ok z) \<and> fails x" by simp
    then show ?thesis unfolding first_failing_def by blast
  next
    assume "ok x \<and> first_failing ok fails xs"
    then obtain pre y post where
      "xs = pre @ y # post" "\<forall>z\<in>set pre. ok z" "fails y" "ok x"
      unfolding first_failing_def by blast
    then have "x # xs = (x # pre) @ y # post \<and> (\<forall>z\<in>set (x # pre). ok z) \<and> fails y"
      by simp
    then show ?thesis unfolding first_failing_def by blast
  qed
qed

lemma first_failing_map:
  "first_failing ok fails (map f xs) \<longleftrightarrow>
     first_failing (\<lambda>x. ok (f x)) (\<lambda>x. fails (f x)) xs"
  by (induction xs) (simp_all add: first_failing_Cons)

lemma first_failing_cong:
  "(\<And>x. x \<in> set xs \<Longrightarrow> ok x = ok' x) \<Longrightarrow> (\<And>x. x \<in> set xs \<Longrightarrow> fails x = fails' x) \<Longrightarrow>
     first_failing ok fails xs = first_failing ok' fails' xs"
  by (induction xs) (simp_all add: first_failing_Cons)

lemma infra_loop_fails:
  "cursor_fails call e pg \<Longrightarrow> list_exadata_infrastructures_loop call pg acc = Some (Inl e)"
proof (induction arbitrary: acc rule: cursor_fails.induct)
  case (fails_here pg)
  then show ?case by (subst list_exadata_infrastructures_loop.simps) simp
next
  case (fails_later pg r)
  then show ?case by (subst list_exadata_infrastructures_loop.simps) simp
qed

lemma infra_loop_raises_cursor_aux:
  "list_exadata_infrastructures_loop call pg acc = Some y \<Longrightarrow> (\<forall>e. y = Inl e \<longrightarrow> cursor_fails call e pg)"
proof (induction rule: list_exadata_infrastructures_loop.raw_induct[rotated, consumes 1])
  case (1 f call pg acc y)
  show ?case
  proof (cases "call pg")
    case (Inl e)
    with 1(2) show ?thesis by (auto intro: cursor_fails.fails_here)
  next
    case (Inr r)
    show ?thesis
    proof (cases "not_page (next_page r)")
      case True
      with 1(2) Inr show ?thesis by (auto simp: Let_def)
    next
      case False
      with 1(2) Inr obtain acc' where "f call (next_page r) acc' = Some y"
        by (auto simp: Let_def)
      from 1(1)[OF this] Inr False show ?thesis
        by (auto intro: cursor_fails.fails_later)
    qed
  qed
qed

lemma infra_loop_fails_iff:
  "list_exadata_infrastructures_loop call pg acc = Some (Inl e) \<longleftrightarrow> cursor_fails call e pg"
  using infra_loop_fails infra_loop_raises_cursor_aux by blast

lemma cluster_loop_fails:
  "cursor_fails call e pg \<Longrightarrow> list_vm_clusters_loop call pg acc = Some (Inl e)"
proof (induction arbitrary: acc rule: cursor_fails.induct)
  case (fails_here pg)
  then show ?case by (subst list_vm_clusters_loop.simps) simp
next
  case (fails_later pg r)
  then show ?case by (subst list_vm_clusters_loop.simps) simp
qed

lemma cluster_loop_raises_cursor_aux:
  "list_vm_clusters_loop call pg acc = Some y \<Longrightarrow> (\<forall>e. y = Inl e \<longrightarrow> cursor_fails call e pg)"
proof (induction rule: list_vm_clusters_loop.raw_induct[rotated, consumes 1])
  case (1 f call pg acc y)
  show ?case
  proof (cases "call pg")
    case (Inl e)
    with 1(2) show ?thesis by (auto intro: cursor_fails.fails_here)
  next
    case (Inr r)
    show ?thesis
    proof (cases "not_page (next_page r)")
      case True
      with 1(2) Inr show ?thesis by (auto simp: Let_def)
    next
      case False
      with 1(2) Inr obtain acc' where "f call (next_page r) acc' = Some y"
        by (auto simp: Let_def)
      from 1(1)[OF this] Inr False show ?thesis
        by (auto intro: cursor_fails.fails_later)
    qed
  qed
qed

lemma cluster_loop_fails_iff:
  "list_vm_clusters_loop call pg acc = Some (Inl e) \<longleftrightarrow> cursor_fails call e pg"
  using cluster_loop_fails cluster_loop_raises_cursor_aux by blast

lemma compartment_loop_fails:
  "cursor_fails call e pg \<Longrightarrow> list_compartments_recursive call pg acc = Some (Inl e)"
proof (induction arbitrary: acc rule: cursor_fails.induct)
  case (fails_here pg)
  then show ?case by (subst list_compartments_recursive.simps) simp
next
  case (fails_later pg r)
  then show ?case by (subst list_compartments_recursive.simps) simp
qed

lemma compartment_loop_raises_cursor_aux:
  "list_compartments_recursive call pg acc = Some y \<Longrightarrow> (\<forall>e. y = Inl e \<longrightarrow> cursor_fails call e pg)"
proof (induction rule: list_compartments_recursive.raw_induct[rotated, consumes 1])
  case (1 f call pg acc y)
  show ?case
  proof (cases "call pg")
    case (Inl e)
    with 1(2) show ?thesis by (auto intro: cursor_fails.fails_here)
  next
    case (Inr r)
    show ?thesis
    proof (cases "not_page (next_page r)")
      case True
      with 1(2) Inr show ?thesis by (auto simp: Let_def)
    next
      case False
      with 1(2) Inr obtain acc' where "f call (next_page r) acc' = Some y"
        by (auto simp: Let_def)
      from 1(1)[OF this] Inr False show ?thesis
        by (auto intro: cursor_fails.fails_later)
    qed
  qed
qed

lemma compartment_loop_fails_iff:
  "list_compartments_recursive call pg acc = Some (Inl e) \<longleftrightarrow> cursor_fails call e pg"
  using compartment_loop_fails compartment_loop_raises_cursor_aux by blast

lemma list_exadata_infrastructures_fails:
  "list_exadata_infrastructures self cid = Some (Inl e) \<longleftrightarrow>
     listing_fails (\<lambda>pg. db_list_exadata_infrastructures self cid ''DISPLAYNAME'' ''ASC'' pg) e"
  by (simp add: list_exadata_infrastructures_def listing_fails_def infra_loop_fails_iff)

lemma list_vm_clusters_fails:
  "list_vm_clusters self cid iid = Some (Inl e) \<longleftrightarrow>
     listing_fails (\<lambda>pg. db_list_vm_clusters self cid iid ''DISPLAYNAME'' ''ASC'' pg) e"
  by (simp add: list_vm_clusters_def listing_fails_def cluster_loop_fails_iff)

lemma list_all_compartments_fails:
  "list_all_compartments self = Some (Inl e) \<longleftrightarrow>
     identity_get_tenancy self (self_tenancy_id self) = Inl e \<or>
     (\<exists>t. identity_get_tenancy self (self_tenancy_id self) = Inr t \<and>
        listing_fails
          (\<lambda>pg. identity_list_compartments self (self_tenancy_id self) True ''ACCESSIBLE'' pg)
          e)"
  by (cases "identity_get_tenancy self (self_tenancy_id self)")
     (simp_all add: list_all_compartments_def listing_fails_def compartment_loop_fails_iff)

lemma get_vm_cluster_details_fails:
  "get_vm_cluster_details self x = Inl e \<longleftrightarrow> db_get_vm_cluster self x = Inl e"
  by (cases "db_get_vm_cluster self x") (simp_all add: get_vm_cluster_details_def Let_def)

lemma get_vm_cluster_details_returns:
  "(\<exists>d. get_vm_cluster_details self x = Inr d) \<longleftrightarrow> (\<exists>b. db_get_vm_cluster self x = Inr b)"
  by (cases "db_get_vm_cluster self x") (simp_all add: get_vm_cluster_details_def Let_def)

lemma get_exadata_infrastructure_details_fails:
  "get_exadata_infrastructure_details self x = Inl e \<longleftrightarrow>
     db_get_exadata_infrastructure self x = Inl e"
  by (cases "db_get_exadata_infrastructure self x")
     (simp_all add: get_exadata_infrastructure_details_def Let_def)

lemma get_exadata_infrastructure_details_returns:
  "(\<exists>d. get_exadata_infrastructure_details self x = Inr d) \<longleftrightarrow>
     (\<exists>b. db_get_exadata_infrastructure self x = Inr b)"
  by (cases "db_get_exadata_infrastructure self x")
     (simp_all add: get_exadata_infrastructure_details_def Let_def)

lemma vm_clusters_loop_first_failing:
  "vm_clusters_loop self cls acc tv = Inl e \<longleftrightarrow>
     first_failing (cluster_ok self) (cluster_fails self e) cls"
proof (induction cls arbitrary: acc tv)
  case Nil
  show ?case by simp
next
  case (Cons cl rest)
  show ?case
  proof (cases "get_vm_cluster_details self (vs_id cl)")
    case (Inl e')
    then have "db_get_vm_cluster self (vs_id cl) = Inl e'"
      by (simp add: get_vm_cluster_details_fails)
    with Inl show ?thesis
      by (auto simp: first_failing_Cons cluster_ok_def cluster_fails_def)
  next
    case (Inr d)
    then have "db_get_vm_cluster self (vs_id cl) = Inr (cluster d)"
      by (rule cluster_details_base)
    with Inr Cons.IH[of "acc @ [d]" "tv + 1"] show ?thesis
      by (simp add: first_failing_Cons cluster_ok_def cluster_fails_def)
  qed
qed

lemma vm_clusters_loop_all_ok:
  "(\<exists>r. vm_clusters_loop self cls acc tv = Inr r) \<longleftrightarrow> (\<forall>cl\<in>set cls. cluster_ok self cl)"
proof (induction cls arbitrary: acc tv)
  case Nil
  show ?case by simp
next
  case (Cons cl rest)
  show ?case
  proof (cases "get_vm_cluster_details self (vs_id cl)")
    case (Inl e')
    then have "db_get_vm_cluster self (vs_id cl) = Inl e'"
      by (simp add: get_vm_cluster_details_fails)
    with Inl show ?thesis by (simp add: cluster_ok_def)
  next
    case (Inr d)
    then have "db_get_vm_cluster self (vs_id cl) = Inr (cluster d)"
      by (rule cluster_details_base)
    with Inr Cons.IH[of "acc @ [d]" "tv + 1"] show ?thesis
      by (simp add: cluster_ok_def)
  qed
qed

lemma infra_ok_functions:
  "infra_ok self cid i \<longleftrightarrow>
     (\<exists>b. db_get_exadata_infrastructure self (is_id i) = Inr b) \<and>
     (\<exists>cls. list_vm_clusters self cid (Some (is_id i)) = Some (Inr cls) \<and>
        (\<forall>cl\<in>set cls. cluster_ok self cl))"
  by (simp only: infra_ok_def list_vm_clusters_listed)

lemma infra_fails_functions:
  "infra_fails self cid e i \<longleftrightarrow>
     db_get_exadata_infrastructure self (is_id i) = Inl e \<or>
     (\<exists>b. db_get_exadata_infrastructure self (is_id i) = Inr b) \<and>
     (list_vm_clusters self cid (Some (is_id i)) = Some (Inl e) \<or>
      (\<exists>cls. list_vm_clusters self cid (Some (is_id i)) = Some (Inr cls) \<and>
         first_failing (cluster_ok self) (cluster_fails self e) cls))"
  by (simp only: infra_fails_def list_vm_clusters_listed list_vm_clusters_fails)

lemma compartment_ok_functions:
  "compartment_ok self cid \<longleftrightarrow>
     (\<exists>infras. list_exadata_infrastructures self cid = Some (Inr infras) \<and>
        (\<forall>i\<in>set infras. infra_ok self cid i))"
  by (simp only: compartment_ok_def list_exadata_infrastructures_listed)

lemma compartment_fails_functions:
  "compartment_fails self e cid \<longleftrightarrow>
     list_exadata_infrastructures self cid = Some (Inl e) \<or>
     (\<exists>infras. list_exadata_infrastructures self cid = Some (Inr infras) \<and>
        first_failing (infra_ok self cid) (infra_fails self cid e) infras)"
  by (simp only: compartment_fails_def list_exadata_infrastructures_listed
        list_exadata_infrastructures_fails)

lemma infrastructures_loop_step_ok:
  assumes "infra_ok self cid i"
  shows "\<exists>acc' tv'. infrastructures_loop self cid (i # rest) acc tv =
           infrastructures_loop self cid rest acc' tv'"
proof -
  from assms obtain b cls where
    b: "db_get_exadata_infrastructure self (is_id i) = Inr b"
    and cls: "list_vm_clusters self cid (Some (is_id i)) = Some (Inr cls)"
    and ok: "\<forall>cl\<in>set cls. cluster_ok self cl"
    unfolding infra_ok_functions by blast
  from b get_exadata_infrastructure_details_returns[of self "is_id i"] obtain d where
    d: "get_exadata_infrastructure_details self (is_id i) = Inr d"
    by blast
  from ok vm_clusters_loop_all_ok[of self cls "[]" tv] obtain vds tv' where
    v: "vm_clusters_loop self cls [] tv = Inr (vds, tv')"
    by (cases "vm_clusters_loop self cls [] tv") auto
  from d cls v have "infrastructures_loop self cid (i # rest) acc tv =
      infrastructures_loop self cid rest (acc @ [\<lparr>details = d, vm_clusters = vds\<rparr>]) tv'"
    by simp
  then show ?thesis by blast
qed

lemma infrastructures_loop_step_not_ok:
  assumes "\<not> infra_ok self cid i"
  shows "infrastructures_loop self cid (i # rest) acc tv = None \<or>
         (\<exists>e. infrastructures_loop self cid (i # rest) acc tv = Some (Inl e))"
proof (cases "get_exadata_infrastructure_details self (is_id i)")
  case (Inl e)
  then show ?thesis by simp
next
  case d: (Inr d)
  then have b: "db_get_exadata_infrastructure self (is_id i) = Inr (infrastructure d)"
    by (rule infra_details_base)
  show ?thesis
  proof (cases "list_vm_clusters self cid (Some (is_id i))")
    case None
    with d show ?thesis by simp
  next
    case (Some r)
    show ?thesis
    proof (cases r)
      case (Inl e)
      with d Some show ?thesis by simp
    next
      case cls: (Inr cls)
      with assms b Some have "\<not> (\<forall>cl\<in>set cls. cluster_ok self cl)"
        unfolding infra_ok_functions by auto
      with vm_clusters_loop_all_ok[of self cls "[]" tv] obtain e where
        "vm_clusters_loop self cls [] tv = Inl e"
        by (cases "vm_clusters_loop self cls [] tv") auto
      with d Some cls show ?thesis by simp
    qed
  qed
qed

lemma infrastructures_loop_step_fails:
  "infrastructures_loop self cid (i # rest) acc tv = Some (Inl e) \<longleftrightarrow>
     infra_fails self cid e i \<or>
     (infra_ok self cid i \<and>
      (\<exists>acc' tv'. infrastructures_loop self cid (i # rest) acc tv =
                    infrastructures_loop self cid rest acc' tv' \<and>
                  infrastructures_loop self cid rest acc' tv' = Some (Inl e)))"
proof (cases "get_exadata_infrastructure_details self (is_id i)")
  case (Inl e')
  then have b: "db_get_exadata_infrastructure self (is_id i) = Inl e'"
    by (simp add: get_exadata_infrastructure_details_fails)
  with Inl show ?thesis
    unfolding infra_fails_functions infra_ok_functions by auto
next
  case d: (Inr d)
  then have b: "db_get_exadata_infrastructure self (is_id i) = Inr (infrastructure d)"
    by (rule infra_details_base)
  show ?thesis
  proof (cases "list_vm_clusters self cid (Some (is_id i))")
    case None
    with d b show ?thesis
      unfolding infra_fails_functions infra_ok_functions by auto
  next
    case (Some r)
    show ?thesis
    proof (cases r)
      case (Inl e')
      with d b Some show ?thesis
        unfolding infra_fails_functions infra_ok_functions by auto
    next
      case cls: (Inr cls)
      show ?thesis
      proof (cases "vm_clusters_loop self cls [] tv")
        case (Inl e')
        then have nok: "\<not> (\<forall>cl\<in>set cls. cluster_ok self cl)"
          using vm_clusters_loop_all_ok[of self cls "[]" tv] by auto
        from Inl have ff: "first_failing (cluster_ok self) (cluster_fails self e) cls \<longleftrightarrow> e' = e"
          using vm_clusters_loop_first_failing[of self cls "[]" tv e] by auto
        from d b Some cls Inl nok ff show ?thesis
          unfolding infra_fails_functions infra_ok_functions by auto
      next
        case (Inr res)
        obtain vds tv' where res: "res = (vds, tv')" by (cases res)
        from Inr have ok: "\<forall>cl\<in>set cls. cluster_ok self cl"
          using vm_clusters_loop_all_ok[of self cls "[]" tv] by auto
        from Inr have ff: "\<not> first_failing (cluster_ok self) (cluster_fails self e) cls"
          using vm_clusters_loop_first_failing[of self cls "[]" tv e] by auto
        have fails: "\<not> infra_fails self cid e i"
          unfolding infra_fails_functions using b Some cls ff by auto
        have iok: "infra_ok self cid i"
          unfolding infra_ok_functions using b Some cls ok by auto
        have step: "infrastructures_loop self cid (i # rest) acc tv =
                infrastructures_loop self cid rest
                  (acc @ [\<lparr>details = d, vm_clusters = vds\<rparr>]) tv'"
          using d Some cls Inr res by simp
        show ?thesis
        proof
          assume "infrastructures_loop self cid (i # rest) acc tv = Some (Inl e)"
          with step iok show "infra_fails self cid e i \<or>
             (infra_ok self cid i \<and>
              (\<exists>acc' tv'. infrastructures_loop self cid (i # rest) acc tv =
                            infrastructures_loop self cid rest acc' tv' \<and>
                          infrastructures_loop self cid rest acc' tv' = Some (Inl e)))"
            by metis
        next
          assume "infra_fails self cid e i \<or>
             (infra_ok self cid i \<and>
              (\<exists>acc' tv'. infrastructures_loop self cid (i # rest) acc tv =
                            infrastructures_loop self cid rest acc' tv' \<and>
                          infrastructures_loop self cid rest acc' tv' = Some (Inl e)))"
          with fails show "infrastructures_loop self cid (i # rest) acc tv = Some (Inl e)"
            by auto
        qed
      qed
    qed
  qed
qed

lemma infrastructures_loop_first_failing:
  "infrastructures_loop self cid infras acc tv = Some (Inl e) \<longleftrightarrow>
     first_failing (infra_ok self cid) (infra_fails self cid e) infras"
proof (induction infras arbitrary: acc tv)
  case Nil
  show ?case by simp
next
  case (Cons i rest)
  let ?eq = "\<lambda>acc' tv'. infrastructures_loop self cid (i # rest) acc tv =
                infrastructures_loop self cid rest acc' tv'"
  have A: "infrastructures_loop self cid (i # rest) acc tv = Some (Inl e) \<longleftrightarrow>
       infra_fails self cid e i \<or>
       (infra_ok self cid i \<and>
        (\<exists>acc' tv'. ?eq acc' tv' \<and>
           infrastructures_loop self cid rest acc' tv' = Some (Inl e)))"
    by (rule infrastructures_loop_step_fails)
  have B: "(\<exists>acc' tv'. ?eq acc' tv' \<and>
              infrastructures_loop self cid rest acc' tv' = Some (Inl e)) \<longleftrightarrow>
           (\<exists>acc' tv'. ?eq acc' tv') \<and>
           first_failing (infra_ok self cid) (infra_fails self cid e) rest"
    using Cons.IH by blast
  have C: "infra_ok self cid i \<Longrightarrow> \<exists>acc' tv'. ?eq acc' tv'"
    by (rule infrastructures_loop_step_ok)
  show ?case
    unfolding first_failing_Cons using A B C by blast
qed

lemma infrastructures_loop_all_ok:
  "(\<exists>r. infrastructures_loop self cid infras acc tv = Some (Inr r)) \<longleftrightarrow>
     (\<forall>i\<in>set infras. infra_ok self cid i)"
proof (induction infras arbitrary: acc tv)
  case Nil
  show ?case by simp
next
  case (Cons i rest)
  show ?case
  proof (cases "infra_ok self cid i")
    case True
    from infrastructures_loop_step_ok[OF True, of rest acc tv] obtain acc' tv' where
      "infrastructures_loop self cid (i # rest) acc tv =
         infrastructures_loop self cid rest acc' tv'"
      by blast
    then have "(\<exists>r. infrastructures_loop self cid (i # rest) acc tv = Some (Inr r)) \<longleftrightarrow>
               (\<forall>i\<in>set rest. infra_ok self cid i)"
      using Cons.IH[of acc' tv'] by (simp only:)
    with True show ?thesis by simp
  next
    case False
    from infrastructures_loop_step_not_ok[OF False, of rest acc tv]
    have "\<not> (\<exists>r. infrastructures_loop self cid (i # rest) acc tv = Some (Inr r))"
      by (elim disjE exE) (simp_all only: option.distinct option.inject sum.distinct
           not_False_eq_True not_ex simp_thms)
    with False show ?thesis by simp
  qed
qed

lemma compartments_loop_step_ok:
  assumes "compartment_ok self (cd_id c)"
  shows "\<exists>acc' ti' tv'. compartments_loop self (c # rest) acc ti tv =
           compartments_loop self rest acc' ti' tv'"
proof -
  from assms obtain infras where
    l: "list_exadata_infrastructures self (cd_id c) = Some (Inr infras)"
    and ok: "\<forall>i\<in>set infras. infra_ok self (cd_id c) i"
    unfolding compartment_ok_functions by blast
  show ?thesis
  proof (cases "infras = []")
    case True
    with l have "compartments_loop self (c # rest) acc ti tv =
                   compartments_loop self rest acc ti tv"
      by (simp add: Let_def)
    then show ?thesis by blast
  next
    case False
    from ok infrastructures_loop_all_ok[of self "cd_id c" infras "[]" tv] obtain es tv' where
      "infrastructures_loop self (cd_id c) infras [] tv = Some (Inr (es, tv'))"
      by auto
    with l False have "compartments_loop self (c # rest) acc ti tv =
        compartments_loop self rest
          (acc @ [\<lparr>compartment_id = cd_id c, compartment_name = cd_name c,
                    infrastructures = es\<rparr>])
          (ti + length infras) tv'"
      by (simp add: Let_def)
    then show ?thesis by blast
  qed
qed

lemma compartments_loop_step_fails:
  "compartments_loop self (c # rest) acc ti tv = Some (Inl e) \<longleftrightarrow>
     compartment_fails self e (cd_id c) \<or>
     (compartment_ok self (cd_id c) \<and>
      (\<exists>acc' ti' tv'. compartments_loop self (c # rest) acc ti tv =
                        compartments_loop self rest acc' ti' tv' \<and>
                      compartments_loop self rest acc' ti' tv' = Some (Inl e)))"
proof (cases "list_exadata_infrastructures self (cd_id c)")
  case None
  then show ?thesis
    unfolding compartment_fails_functions compartment_ok_functions by (auto simp: Let_def)
next
  case (Some r)
  show ?thesis
  proof (cases r)
    case (Inl e')
    with Some show ?thesis
      unfolding compartment_fails_functions compartment_ok_functions by (auto simp: Let_def)
  next
    case infras: (Inr infras)
    show ?thesis
    proof (cases "infras = []")
      case True
      have step: "compartments_loop self (c # rest) acc ti tv =
                    compartments_loop self rest acc ti tv"
        using Some infras True by (simp add: Let_def)
      have fails: "\<not> compartment_fails self e (cd_id c)"
        unfolding compartment_fails_functions using Some infras True by simp
      have ok: "compartment_ok self (cd_id c)"
        unfolding compartment_ok_functions using Some infras True by simp
      show ?thesis
      proof
        assume "compartments_loop self (c # rest) acc ti tv = Some (Inl e)"
        with step ok show "compartment_fails self e (cd_id c) \<or>
           (compartment_ok self (cd_id c) \<and>
            (\<exists>acc' ti' tv'. compartments_loop self (c # rest) acc ti tv =
                              compartments_loop self rest acc' ti' tv' \<and>
                            compartments_loop self rest acc' ti' tv' = Some (Inl e)))"
          by metis
      next
        assume "compartment_fails self e (cd_id c) \<or>
           (compartment_ok self (cd_id c) \<and>
            (\<exists>acc' ti' tv'. compartments_loop self (c # rest) acc ti tv =
                              compartments_loop self rest acc' ti' tv' \<and>
                            compartments_loop self rest acc' ti' tv' = Some (Inl e)))"
        with fails show "compartments_loop self (c # rest) acc ti tv = Some (Inl e)"
          by auto
      qed
    next
      case False
      show ?thesis
      proof (cases "infrastructures_loop self (cd_id c) infras [] tv")
        case None
        then have nok: "\<not> (\<forall>i\<in>set infras. infra_ok self (cd_id c) i)"
          using infrastructures_loop_all_ok[of self "cd_id c" infras "[]" tv] by auto
        from None have ff:
          "\<not> first_failing (infra_ok self (cd_id c)) (infra_fails self (cd_id c) e) infras"
          using infrastructures_loop_first_failing[of self "cd_id c" infras "[]" tv e] by auto
        from Some infras False None nok ff show ?thesis
          unfolding compartment_fails_functions compartment_ok_functions
          by (auto simp: Let_def)
      next
        case il: (Some r')
        show ?thesis
        proof (cases r')
          case (Inl e')
          with il have nok: "\<not> (\<forall>i\<in>set infras. infra_ok self (cd_id c) i)"
            using infrastructures_loop_all_ok[of self "cd_id c" infras "[]" tv] by auto
          from il Inl have ff:
            "first_failing (infra_ok self (cd_id c)) (infra_fails self (cd_id c) e) infras
               \<longleftrightarrow> e' = e"
            using infrastructures_loop_first_failing[of self "cd_id c" infras "[]" tv e]
            by auto
          from Some infras False il Inl nok ff show ?thesis
            unfolding compartment_fails_functions compartment_ok_functions
            by (auto simp: Let_def)
        next
          case (Inr res)
          obtain es tv' where res: "res = (es, tv')" by (cases res)
          from il Inr have ok: "\<forall>i\<in>set infras. infra_ok self (cd_id c) i"
            using infrastructures_loop_all_ok[of self "cd_id c" infras "[]" tv] by auto
          from il Inr have ff:
            "\<not> first_failing (infra_ok self (cd_id c)) (infra_fails self (cd_id c) e) infras"
            using infrastructures_loop_first_failing[of self "cd_id c" infras "[]" tv e]
            by auto
          have fails: "\<not> compartment_fails self e (cd_id c)"
            unfolding compartment_fails_functions using Some infras ff by auto
          have cok: "compartment_ok self (cd_id c)"
            unfolding compartment_ok_functions using Some infras ok by auto
          have step: "compartments_loop self (c # rest) acc ti tv =
              compartments_loop self rest
                (acc @ [\<lparr>compartment_id = cd_id c, compartment_name = cd_name c,
                          infrastructures = es\<rparr>])
                (ti + length infras) tv'"
            using Some infras False il Inr res by (simp add: Let_def)
          show ?thesis
          proof
            assume "compartments_loop self (c # rest) acc ti tv = Some (Inl e)"
            with step cok show "compartment_fails self e (cd_id c) \<or>
               (compartment_ok self (cd_id c) \<and>
                (\<exists>acc' ti' tv'. compartments_loop self (c # rest) acc ti tv =
                                  compartments_loop self rest acc' ti' tv' \<and>
                                compartments_loop self rest acc' ti' tv' = Some (Inl e)))"
              by metis
          next
            assume "compartment_fails self e (cd_id c) \<or>
               (compartment_ok self (cd_id c) \<and>
                (\<exists>acc' ti' tv'. compartments_loop self (c # rest) acc ti tv =
                                  compartments_loop self rest acc' ti' tv' \<and>
                                compartments_loop self rest acc' ti' tv' = Some (Inl e)))"
            with fails show "compartments_loop self (c # rest) acc ti tv = Some (Inl e)"
              by auto
          qed
        qed
      qed
    qed
  qed
qed

lemma compartments_loop_first_failing:
  "compartments_loop self comps acc ti tv = Some (Inl e) \<longleftrightarrow>
     first_failing (\<lambda>c. compartment_ok self (cd_id c)) (\<lambda>c. compartment_fails self e (cd_id c))
       comps"
proof (induction comps arbitrary: acc ti tv)
  case Nil
  show ?case by simp
next
  case (Cons c rest)
  let ?eq = "\<lambda>acc' ti' tv'. compartments_loop self (c # rest) acc ti tv =
                compartments_loop self rest acc' ti' tv'"
  have A: "compartments_loop self (c # rest) acc ti tv = Some (Inl e) \<longleftrightarrow>
       compartment_fails self e (cd_id c) \<or>
       (compartment_ok self (cd_id c) \<and>
        (\<exists>acc' ti' tv'. ?eq acc' ti' tv' \<and>
           compartments_loop self rest acc' ti' tv' = Some (Inl e)))"
    by (rule compartments_loop_step_fails)
  have B: "(\<exists>acc' ti' tv'. ?eq acc' ti' tv' \<and>
              compartments_loop self rest acc' ti' tv' = Some (Inl e)) \<longleftrightarrow>
           (\<exists>acc' ti' tv'. ?eq acc' ti' tv') \<and>
           first_failing (\<lambda>c. compartment_ok self (cd_id c))
             (\<lambda>c. compartment_fails self e (cd_id c)) rest"
    using Cons.IH by blast
  have C: "compartment_ok self (cd_id c) \<Longrightarrow> \<exists>acc' ti' tv'. ?eq acc' ti' tv'"
    by (rule compartments_loop_step_ok)
  show ?case
    unfolding first_failing_Cons using A B C by blast
qed

lemma fetch_all_data_first_failure:
  "fetch_all_data self = Some (Inl e) \<longleftrightarrow> first_failure self e"
proof -
  have 1: "fetch_all_data self = Some (Inl e) \<longleftrightarrow>
             list_all_compartments self = Some (Inl e) \<or>
             (\<exists>comps. list_all_compartments self = Some (Inr comps) \<and>
                compartments_loop self comps [] 0 0 = Some (Inl e))"
    by (auto simp: fetch_all_data_def fetch_all_data_locals_def
          split: option.splits sum.splits prod.splits)
  have 2: "(\<exists>comps. list_all_compartments self = Some (Inr comps) \<and>
                compartments_loop self comps [] 0 0 = Some (Inl e)) \<longleftrightarrow>
           (\<exists>t cs. identity_get_tenancy self (self_tenancy_id self) = Inr t \<and>
              listed (\<lambda>pg. identity_list_compartments self (self_tenancy_id self) True
                             ''ACCESSIBLE'' pg) cs \<and>
              first_failing (compartment_ok self) (compartment_fails self e)
                (t_id t # map c_id (filter (\<lambda>c. c_lifecycle_state c = ''ACTIVE'') cs)))"
    (is "?L \<longleftrightarrow> ?R")
  proof -
    have ids: "map cd_id (\<lparr>cd_id = t_id t, cd_name = t_name t, cd_lifecycle_state = ''ACTIVE'',
                         cd_is_root = True\<rparr> #
                map compartment_to_dict (filter (\<lambda>c. c_lifecycle_state c = ''ACTIVE'') cs)) =
             t_id t # map c_id (filter (\<lambda>c. c_lifecycle_state c = ''ACTIVE'') cs)"
      for t :: tenancy and cs
      by (simp add: compartment_to_dict_def o_def)
    have ff: "compartments_loop self comps [] 0 0 = Some (Inl e) \<longleftrightarrow>
          first_failing (compartment_ok self) (compartment_fails self e) (map cd_id comps)"
      for comps
      unfolding first_failing_map by (rule compartments_loop_first_failing)
    show ?thesis
    proof
      assume ?L
      then obtain comps where
        c: "list_all_compartments self = Some (Inr comps)"
        and l: "compartments_loop self comps [] 0 0 = Some (Inl e)"
        by blast
      from c obtain t cs where
        t: "identity_get_tenancy self (self_tenancy_id self) = Inr t"
        and ls: "listed (\<lambda>pg. identity_list_compartments self (self_tenancy_id self) True
                           ''ACCESSIBLE'' pg) cs"
        and comps: "comps = \<lparr>cd_id = t_id t, cd_name = t_name t,
                      cd_lifecycle_state = ''ACTIVE'', cd_is_root = True\<rparr> #
                    map compartment_to_dict
                      (filter (\<lambda>c. c_lifecycle_state c = ''ACTIVE'') cs)"
        unfolding list_all_compartments_listed by blast
      from l have "first_failing (compartment_ok self) (compartment_fails self e)
                     (t_id t # map c_id (filter (\<lambda>c. c_lifecycle_state c = ''ACTIVE'') cs))"
        unfolding ff comps ids .
      with t ls show ?R by blast
    next
      assume ?R
      then obtain t cs where
        t: "identity_get_tenancy self (self_tenancy_id self) = Inr t"
        and ls: "listed (\<lambda>pg. identity_list_compartments self (self_tenancy_id self) True
                           ''ACCESSIBLE'' pg) cs"
        and f: "first_failing (compartment_ok self) (compartment_fails self e)
                  (t_id t # map c_id (filter (\<lambda>c. c_lifecycle_state c = ''ACTIVE'') cs))"
        by blast
      let ?comps = "\<lparr>cd_id = t_id t, cd_name = t_name t, cd_lifecycle_state = ''ACTIVE'',
                      cd_is_root = True\<rparr> #
                    map compartment_to_dict
                      (filter (\<lambda>c. c_lifecycle_state c = ''ACTIVE'') cs)"
      have c: "list_all_compartments self = Some (Inr ?comps)"
        unfolding list_all_compartments_listed using t ls by blast
      from f have "compartments_loop self ?comps [] 0 0 = Some (Inl e)"
        unfolding ff ids .
      with c show ?L by blast
    qed
  qed
  show ?thesis
    unfolding 1 2 list_all_compartments_fails first_failure_def
    by (cases "identity_get_tenancy self (self_tenancy_id self)") auto
qed

lemma failing_record_listings:
  "identity_get_tenancy failing_record_fetcher = identity_get_tenancy demo_fetcher"
  "self_tenancy_id failing_record_fetcher = self_tenancy_id demo_fetcher"
  "identity_list_compartments failing_record_fetcher = identity_list_compartments demo_fetcher"
  "list_exadata_infrastructures failing_record_fetcher cid =
     list_exadata_infrastructures demo_fetcher cid"
  "list_vm_clusters failing_record_fetcher cid iid = list_vm_clusters demo_fetcher cid iid"
  "db_get_vm_cluster failing_record_fetcher = db_get_vm_cluster demo_fetcher"
  by (simp_all add: failing_record_fetcher_def list_exadata_infrastructures_def
        list_vm_clusters_def)

lemma demo_compartments_listed:
  "listed (\<lambda>pg. identity_list_compartments demo_fetcher (self_tenancy_id demo_fetcher) True
                 ''ACCESSIBLE'' pg)
     [\<lparr>c_id = ''a'', c_name = ''alpha'', c_lifecycle_state = ''ACTIVE''\<rparr>,
      \<lparr>c_id = ''d'', c_name = ''delta'', c_lifecycle_state = ''DELETED''\<rparr>,
      \<lparr>c_id = ''b'', c_name = ''beta'', c_lifecycle_state = ''ACTIVE''\<rparr>]"
  unfolding listed_def using demo_compartment_chain
  by (intro exI[of _ "[[\<lparr>c_id = ''a'', c_name = ''alpha'', c_lifecycle_state = ''ACTIVE''\<rparr>],
      [\<lparr>c_id = ''d'', c_name = ''delta'', c_lifecycle_state = ''DELETED''\<rparr>,
       \<lparr>c_id = ''b'', c_name = ''beta'', c_lifecycle_state = ''ACTIVE''\<rparr>]]"]) simp

lemma demo_tenancy:
  "identity_get_tenancy demo_fetcher (self_tenancy_id demo_fetcher) =
     Inr \<lparr>t_id = ''t'', t_name = ''root''\<rparr>"
  by (simp add: demo_fetcher_def)

lemma failing_record_first_failure:
  "first_failure failing_record_fetcher (ServiceError 500 ''InternalError'')"
proof -
  let ?F = failing_record_fetcher and ?e = "ServiceError 500 ''InternalError''"
  have t: "compartment_ok ?F ''t''"
    by (simp add: compartment_ok_functions failing_record_listings demo_infra_listing)
  have k: "cluster_ok ?F \<lparr>vs_id = ''k1'', vs_display_name = ''vm1'',
                           vs_lifecycle_state = ''AVAILABLE''\<rparr>"
    "cluster_ok ?F \<lparr>vs_id = ''k2'', vs_display_name = ''vm2'',
                     vs_lifecycle_state = ''AVAILABLE''\<rparr>"
    by (simp_all add: cluster_ok_def failing_record_listings demo_fetcher_def)
  have i1: "infra_ok ?F ''a'' \<lparr>is_id = ''i1'', is_display_name = ''exa1'',
                                is_lifecycle_state = ''ACTIVE''\<rparr>"
  proof -
    have "db_get_exadata_infrastructure ?F ''i1'' = Inr (demo_infra ''i1'' ''exa1'')"
      by (simp add: failing_record_fetcher_def demo_fetcher_def)
    with k show ?thesis
      by (simp add: infra_ok_functions failing_record_listings(5) demo_cluster_listing)
  qed
  have i2: "infra_fails ?F ''a'' ?e \<lparr>is_id = ''i2'', is_display_name = ''exa2'',
                                     is_lifecycle_state = ''ACTIVE''\<rparr>"
    by (simp add: infra_fails_functions failing_record_fetcher_def)
  have a: "compartment_fails ?F ?e ''a''"
    using i1 i2
    by (simp add: compartment_fails_functions failing_record_listings demo_infra_listing
          first_failing_Cons)
  have "first_failing (compartment_ok ?F) (compartment_fails ?F ?e) [''t'', ''a'', ''b'']"
    using t a by (simp add: first_failing_Cons)
  with demo_tenancy demo_compartments_listed show ?thesis
    unfolding first_failure_def failing_record_listings
    by (intro disjI2 exI[of _ "\<lparr>t_id = ''t'', t_name = ''root''\<rparr>"] conjI
          exI[of _ "[\<lparr>c_id = ''a'', c_name = ''alpha'', c_lifecycle_state = ''ACTIVE''\<rparr>,
      \<lparr>c_id = ''d'', c_name = ''delta'', c_lifecycle_state = ''DELETED''\<rparr>,
      \<lparr>c_id = ''b'', c_name = ''beta'', c_lifecycle_state = ''ACTIVE''\<rparr>]"]) simp_all
qed

lemma failing_listing_listings:
  "identity_get_tenancy failing_listing_fetcher = identity_get_tenancy demo_fetcher"
  "self_tenancy_id failing_listing_fetcher = self_tenancy_id demo_fetcher"
  "identity_list_compartments failing_listing_fetcher = identity_list_compartments demo_fetcher"
  "list_exadata_infrastructures failing_listing_fetcher cid =
     list_exadata_infrastructures demo_fetcher cid"
  "db_get_exadata_infrastructure failing_listing_fetcher =
     db_get_exadata_infrastructure demo_fetcher"
  by (simp_all add: failing_listing_fetcher_def list_exadata_infrastructures_def)

lemma failing_listing_first_failure:
  "first_failure failing_listing_fetcher (ServiceError 503 ''ServiceUnavailable'')"
proof -
  let ?F = failing_listing_fetcher and ?e = "ServiceError 503 ''ServiceUnavailable''"
  let ?call = "\<lambda>pg. db_list_vm_clusters ?F ''a'' (Some ''i1'') ''DISPLAYNAME'' ''ASC'' pg"
  have t: "compartment_ok ?F ''t''"
    by (simp add: compartment_ok_functions failing_listing_listings demo_infra_listing)
  have 2: "cursor_fails ?call ?e (Some ''2'')"
    by (rule cursor_fails.fails_here) (simp add: failing_listing_fetcher_def)
  have "cursor_fails ?call ?e None"
    using cursor_fails.fails_later[of ?call None
            "\<lparr>data = [\<lparr>vs_id = ''k1'', vs_display_name = ''vm1'',
                        vs_lifecycle_state = ''AVAILABLE''\<rparr>],
              next_page = Some ''2''\<rparr>" ?e] 2
    by (simp add: failing_listing_fetcher_def demo_fetcher_def not_page_def)
  then have l: "listing_fails ?call ?e" by (simp add: listing_fails_def)
  have i1: "infra_fails ?F ''a'' ?e \<lparr>is_id = ''i1'', is_display_name = ''exa1'',
                                     is_lifecycle_state = ''ACTIVE''\<rparr>"
    unfolding infra_fails_def using l
    by (simp add: failing_listing_listings demo_fetcher_def)
  have a: "compartment_fails ?F ?e ''a''"
    using i1
    by (simp add: compartment_fails_functions failing_listing_listings demo_infra_listing
          first_failing_Cons)
  have "first_failing (compartment_ok ?F) (compartment_fails ?F ?e) [''t'', ''a'', ''b'']"
    using t a by (simp add: first_failing_Cons)
  with demo_tenancy demo_compartments_listed show ?thesis
    unfolding first_failure_def failing_listing_listings
    by (intro disjI2 exI[of _ "\<lparr>t_id = ''t'', t_name = ''root''\<rparr>"] conjI
          exI[of _ "[\<lparr>c_id = ''a'', c_name = ''alpha'', c_lifecycle_state = ''ACTIVE''\<rparr>,
      \<lparr>c_id = ''d'', c_name = ''delta'', c_lifecycle_state = ''DELETED''\<rparr>,
      \<lparr>c_id = ''b'', c_name = ''beta'', c_lifecycle_state = ''ACTIVE''\<rparr>]"]) simp_all
qed

text \<open>
  Claim C2.  \<open>fetch_all_data\<close> returns a report exactly when every listing (of compartments,
  of infrastructures, of VM clusters) and every fetch of a basic record that the traversal
  makes succeeds.  It ends with the error \<open>e\<close> exactly when, in the order of the traversal,
  the first listing or fetch of a basic record to raise raises \<open>e\<close>: that error reaches the
  caller as it was raised, and the entries built before it are given up.  So a run in which
  such a call raises returns no report, and there is no partial report that leaves the
  failed scope out.
\<close>

theorem fetch_all_data_fails_fast:
  "((\<exists>rep. fetch_all_data self = Some (Inr rep)) \<longleftrightarrow> mandatory_calls_succeed self) \<and>
   (fetch_all_data self = Some (Inl e) \<longleftrightarrow> first_failure self e) \<and>
   (fetch_all_data self = Some (Inl e) \<longrightarrow> raised_by_provider self e)"
  using report_iff_functions_succeed functions_succeed_iff_mandatory_calls
    fetch_all_data_first_failure fetch_all_data_error_raised
  by blast

theorem fetch_all_data_fails_fast_witness:
  "fetch_all_data demo_fetcher = Some (Inr demo_report) \<and>
   mandatory_calls_succeed demo_fetcher \<and>
   db_get_exadata_infrastructure failing_record_fetcher ''i2'' =
     Inl (ServiceError 500 ''InternalError'') \<and>
   first_failure failing_record_fetcher (ServiceError 500 ''InternalError'') \<and>
   fetch_all_data failing_record_fetcher = Some (Inl (ServiceError 500 ''InternalError'')) \<and>
   \<not> mandatory_calls_succeed failing_record_fetcher \<and>
   db_list_vm_clusters failing_listing_fetcher ''a'' (Some ''i1'') ''DISPLAYNAME'' ''ASC''
     (Some ''2'') = Inl (ServiceError 503 ''ServiceUnavailable'') \<and>
   first_failure failing_listing_fetcher (ServiceError 503 ''ServiceUnavailable'') \<and>
   fetch_all_data failing_listing_fetcher =
     Some (Inl (ServiceError 503 ''ServiceUnavailable'')) \<and>
   \<not> mandatory_calls_succeed failing_listing_fetcher \<and>
   db_get_vm_cluster failing_fetcher ''k2'' = Inl (ServiceError 500 ''InternalError'') \<and>
   fetch_all_data failing_fetcher = Some (Inl (ServiceError 500 ''InternalError'')) \<and>
   first_failure failing_fetcher (ServiceError 500 ''InternalError'') \<and>
   \<not> mandatory_calls_succeed failing_fetcher \<and>
   raised_by_provider failing_fetcher (ServiceError 500 ''InternalError'')"
proof -
  have calls:
    "db_get_exadata_infrastructure failing_record_fetcher ''i2'' =
       Inl (ServiceError 500 ''InternalError'')"
    "db_list_vm_clusters failing_listing_fetcher ''a'' (Some ''i1'') ''DISPLAYNAME'' ''ASC''
       (Some ''2'') = Inl (ServiceError 503 ''ServiceUnavailable'')"
    "db_get_vm_cluster failing_fetcher ''k2'' = Inl (ServiceError 500 ''InternalError'')"
    by (simp_all add: failing_record_fetcher_def failing_listing_fetcher_def
          failing_fetcher_def)
  from fetch_all_data_fails_fast[of demo_fetcher] demo_run
  have demo: "mandatory_calls_succeed demo_fetcher" by blast
  from fetch_all_data_fails_fast[of failing_record_fetcher "ServiceError 500 ''InternalError''"]
    failing_record_first_failure
  have rec: "fetch_all_data failing_record_fetcher =
               Some (Inl (ServiceError 500 ''InternalError''))"
    by blast
  with fetch_all_data_fails_fast[of failing_record_fetcher]
  have rec': "\<not> mandatory_calls_succeed failing_record_fetcher" by auto
  from fetch_all_data_fails_fast[of failing_listing_fetcher
         "ServiceError 503 ''ServiceUnavailable''"]
    failing_listing_first_failure
  have lst: "fetch_all_data failing_listing_fetcher =
               Some (Inl (ServiceError 503 ''ServiceUnavailable''))"
    by blast
  with fetch_all_data_fails_fast[of failing_listing_fetcher]
  have lst': "\<not> mandatory_calls_succeed failing_listing_fetcher" by auto
  from fetch_all_data_fails_fast[of failing_fetcher "ServiceError 500 ''InternalError''"]
    failing_run
  have clu: "first_failure failing_fetcher (ServiceError 500 ''InternalError'')"
    "\<not> mandatory_calls_succeed failing_fetcher"
    "raised_by_provider failing_fetcher (ServiceError 500 ''InternalError'')"
    by auto
  show ?thesis
    using demo_run demo calls failing_record_first_failure rec rec'
      failing_listing_first_failure lst lst' failing_run clu
    by simp
qed

end
